theory Spec2Isabelle
  imports Complex_Main "HOL-Library.AList" "HOL-Library.Sublist" "HOL-Library.Multiset"
begin

section \<open>Python values\<close>

text \<open>
  The pipeline of \<^verbatim>\<open>santander_ETL_DIO.py\<close> moves JSON-like Python values around: the body
  of an HTTP response, the user dictionaries built from it, the news items and the report.
  A dictionary is an association list in insertion order with string keys; a finite float
  is idealised as the rational number it denotes, and the three floats that are not finite
  are values of their own. Strings are byte strings in UTF-8.
\<close>

datatype nonfinite = NaN | PosInf | NegInf

datatype pyval =
    PNone
  | PBool bool
  | PInt int
  | PFloat rat
  | PNonFinite nonfinite
  | PStr string
  | PList "pyval list"
  | PDict "(string \<times> pyval) list"

type_synonym pydict = "(string \<times> pyval) list"

text \<open>
  Exceptions derived from Python's \<^verbatim>\<open>Exception\<close>. \<open>RequestException\<close> stands for
  \<^verbatim>\<open>requests.exceptions.RequestException\<close> and its subclasses; \<open>OtherError\<close> for the
  exceptions of the libraries (pandas, openai) that no handler of the program tells apart.
\<close>

datatype exn =
    KeyError
  | TypeError
  | ValueError
  | IndexError
  | AttributeError
  | OSError
  | RequestException
  | OtherError string

subsection \<open>Strings and numbers\<close>

definition digit_char :: "nat \<Rightarrow> char" where
  "digit_char d = ''0123456789'' ! (d mod 10)"

fun str_nat :: "nat \<Rightarrow> string" where
  "str_nat n = (if n < 10 then [digit_char n] else str_nat (n div 10) @ [digit_char (n mod 10)])"

declare str_nat.simps [simp del]

text \<open>\<^verbatim>\<open>str(i)\<close> for an integer.\<close>

definition str_int :: "int \<Rightarrow> string" where
  "str_int i = (if i < 0 then CHR ''-'' # str_nat (nat (- i)) else str_nat (nat i))"

text \<open>Left padding with zeros up to a width, as the format codes \<^verbatim>\<open>0Nd\<close> do.\<close>

definition zpad :: "nat \<Rightarrow> string \<Rightarrow> string" where
  "zpad w s = replicate (w - length s) CHR ''0'' @ s"

text \<open>\<^verbatim>\<open>format(i, '04d')\<close> for an integer: the sign counts in the width.\<close>

definition fmt_04d_int :: "int \<Rightarrow> string" where
  "fmt_04d_int i =
     (if i < 0 then CHR ''-'' # zpad 3 (str_nat (nat (- i))) else zpad 4 (str_nat (nat i)))"

text \<open>
  \<^verbatim>\<open>f"{v:04d}"\<close> for any value: integers and booleans are formatted, a float or a string
  raises ValueError, every other value TypeError.
\<close>

fun fmt_04d :: "pyval \<Rightarrow> exn + string" where
  "fmt_04d (PInt i) = Inr (fmt_04d_int i)"
| "fmt_04d (PBool b) = Inr (fmt_04d_int (if b then 1 else 0))"
| "fmt_04d (PFloat r) = Inl ValueError"
| "fmt_04d (PNonFinite x) = Inl ValueError"
| "fmt_04d (PStr s) = Inl ValueError"
| "fmt_04d v = Inl TypeError"

text \<open>
  \<^verbatim>\<open>str(v)\<close>, as an f-string applies it to an interpolated value. The text of a float, a
  list or a dictionary is left to the parameter \<open>repr\<close>.
\<close>

fun py_str :: "(pyval \<Rightarrow> string) \<Rightarrow> pyval \<Rightarrow> string" where
  "py_str repr (PStr s) = s"
| "py_str repr (PInt i) = str_int i"
| "py_str repr PNone = ''None''"
| "py_str repr (PBool b) = (if b then ''True'' else ''False'')"
| "py_str repr v = repr v"

text \<open>A byte that continues a UTF-8 sequence; the others start a code point.\<close>

definition utf8_cont :: "char \<Rightarrow> bool" where
  "utf8_cont c = (128 \<le> (of_char c :: nat) \<and> (of_char c :: nat) < 192)"

definition str_len :: "string \<Rightarrow> nat" where
  "str_len s = length (filter (\<lambda>c. \<not> utf8_cont c) s)"

text \<open>The last code point of a non-empty string, as \<^verbatim>\<open>s[-1]\<close> returns it.\<close>

definition last_codepoint :: "string \<Rightarrow> string" where
  "last_codepoint s =
     (case dropWhile utf8_cont (rev s) of [] \<Rightarrow> [] | c # _ \<Rightarrow> [c])
     @ rev (takeWhile utf8_cont (rev s))"

text \<open>
  The white space of Python's \<^verbatim>\<open>str\<close>, each character in UTF-8: the ASCII ones (tab, line
  feed, vertical tab, form feed, carriage return, the four separators 28 to 31 and the
  space), then U+0085, U+00A0, U+1680, U+2000 to U+200A, U+2028, U+2029, U+202F, U+205F and
  U+3000.
\<close>

definition white_space :: "string list" where
  "white_space =
     map (\<lambda>n. [char_of (n :: nat)]) [9, 10, 11, 12, 13, 28, 29, 30, 31, 32] @
     [[CHR 0xC2, CHR 0x85], [CHR 0xC2, CHR 0xA0], [CHR 0xE1, CHR 0x9A, CHR 0x80]] @
     map (\<lambda>n. [CHR 0xE2, CHR 0x80, char_of (n :: nat)])
       [128, 129, 130, 131, 132, 133, 134, 135, 136, 137, 138, 168, 169, 175] @
     [[CHR 0xE2, CHR 0x81, CHR 0x9F], [CHR 0xE3, CHR 0x80, CHR 0x80]]"

text \<open>How many bytes of white space, as one of the sequences \<open>qs\<close>, a string starts with.\<close>

definition leading :: "string list \<Rightarrow> string \<Rightarrow> nat" where
  "leading qs s =
     (case filter (\<lambda>q. q \<noteq> [] \<and> take (length q) s = q) qs of [] \<Rightarrow> 0 | q # _ \<Rightarrow> length q)"

function drop_leading :: "string list \<Rightarrow> string \<Rightarrow> string" where
  "drop_leading qs s = (if leading qs s = 0 then s else drop_leading qs (drop (leading qs s) s))"
  by pat_completeness auto
termination
proof (relation "measure (\<lambda>(qs, s). length s)")
  show "wf (measure (\<lambda>(qs, s). length s))"
    by simp
next
  fix qs :: "string list" and s :: string
  assume n: "leading qs s \<noteq> 0"
  then obtain q rest where "filter (\<lambda>q. q \<noteq> [] \<and> take (length q) s = q) qs = q # rest"
    unfolding leading_def
    by (cases "filter (\<lambda>q. q \<noteq> [] \<and> take (length q) s = q) qs") simp_all
  then have "q \<in> set (filter (\<lambda>q. q \<noteq> [] \<and> take (length q) s = q) qs)"
    by simp
  then have "q \<noteq> []" "take (length q) s = q"
    by simp_all
  then have "s \<noteq> []" by auto
  with n show "((qs, drop (leading qs s) s), (qs, s)) \<in> measure (\<lambda>(qs, s). length s)"
    by simp
qed

declare drop_leading.simps [simp del]

text \<open>
  \<^verbatim>\<open>str.strip()\<close>: white space is removed at both ends; at the end the sequences are matched
  backwards.
\<close>

definition strip :: "string \<Rightarrow> string" where
  "strip s = rev (drop_leading (map rev white_space) (rev (drop_leading white_space s)))"

subsection \<open>Operations on values\<close>

text \<open>\<^verbatim>\<open>d[k]\<close> on a dictionary of the program's own type \<^verbatim>\<open>Dict\<close>.\<close>

definition dict_item :: "pydict \<Rightarrow> string \<Rightarrow> exn + pyval" where
  "dict_item d k = (case map_of d k of None \<Rightarrow> Inl KeyError | Some v \<Rightarrow> Inr v)"

text \<open>\<^verbatim>\<open>v[k]\<close> with a string key on any value: only a dictionary can be indexed so.\<close>

fun getitem :: "pyval \<Rightarrow> string \<Rightarrow> exn + pyval" where
  "getitem (PDict d) k = dict_item d k"
| "getitem v k = Inl TypeError"

text \<open>\<^verbatim>\<open>d.get(k)\<close> and \<^verbatim>\<open>d.get(k, default)\<close>.\<close>

definition dict_get :: "pydict \<Rightarrow> string \<Rightarrow> pyval \<Rightarrow> pyval" where
  "dict_get d k dflt = (case map_of d k of None \<Rightarrow> dflt | Some v \<Rightarrow> v)"

text \<open>\<^verbatim>\<open>d[k] = v\<close>: an existing key keeps its place, a new key goes last.\<close>

definition dict_set :: "pydict \<Rightarrow> string \<Rightarrow> pyval \<Rightarrow> pydict" where
  "dict_set d k v = AList.update k v d"

text \<open>\<^verbatim>\<open>len(v)\<close>.\<close>

fun py_len :: "pyval \<Rightarrow> exn + nat" where
  "py_len (PList xs) = Inr (length xs)"
| "py_len (PDict d) = Inr (length d)"
| "py_len (PStr s) = Inr (str_len s)"
| "py_len v = Inl TypeError"

text \<open>Truth value of a value in a condition.\<close>

fun truthy :: "pyval \<Rightarrow> bool" where
  "truthy PNone = False"
| "truthy (PBool b) = b"
| "truthy (PInt i) = (i \<noteq> 0)"
| "truthy (PFloat r) = (r \<noteq> 0)"
| "truthy (PNonFinite x) = True"
| "truthy (PStr s) = (s \<noteq> [])"
| "truthy (PList xs) = (xs \<noteq> [])"
| "truthy (PDict d) = (d \<noteq> [])"

text \<open>\<^verbatim>\<open>v[-1]\<close>.\<close>

fun index_last :: "pyval \<Rightarrow> exn + pyval" where
  "index_last (PList xs) = (if xs = [] then Inl IndexError else Inr (last xs))"
| "index_last (PStr s) = (if s = [] then Inl IndexError else Inr (PStr (last_codepoint s)))"
| "index_last (PDict d) = Inl KeyError"
| "index_last v = Inl TypeError"

text \<open>Sequencing of computations that may raise: the first exception wins.\<close>

definition sbind :: "exn + 'a \<Rightarrow> ('a \<Rightarrow> exn + 'b) \<Rightarrow> exn + 'b" where
  "sbind m f = (case m of Inl e \<Rightarrow> Inl e | Inr x \<Rightarrow> f x)"

fun smap :: "('a \<Rightarrow> exn + 'b) \<Rightarrow> 'a list \<Rightarrow> exn + 'b list" where
  "smap f [] = Inr []"
| "smap f (x # xs) = sbind (f x) (\<lambda>y. sbind (smap f xs) (\<lambda>ys. Inr (y # ys)))"

subsection \<open>Dates and rounding\<close>

record datetime =
  year :: nat
  month :: nat
  day :: nat
  hour :: nat
  minute :: nat
  second :: nat
  microsecond :: nat

text \<open>
  \<^verbatim>\<open>strftime('%Y%m%d_%H%M%S')\<close>: the microseconds are not part of the text. The year is
  padded to four digits, which is what every platform prints for the years from 1000 on.
\<close>

definition strftime_stamp :: "datetime \<Rightarrow> string" where
  "strftime_stamp t =
     zpad 4 (str_nat (year t)) @ zpad 2 (str_nat (month t)) @ zpad 2 (str_nat (day t)) @ ''_''
     @ zpad 2 (str_nat (hour t)) @ zpad 2 (str_nat (minute t)) @ zpad 2 (str_nat (second t))"

text \<open>\<^verbatim>\<open>isoformat()\<close>: the fraction is printed only when the microseconds are not zero.\<close>

definition isoformat :: "datetime \<Rightarrow> string" where
  "isoformat t =
     zpad 4 (str_nat (year t)) @ ''-'' @ zpad 2 (str_nat (month t)) @ ''-''
     @ zpad 2 (str_nat (day t)) @ ''T'' @ zpad 2 (str_nat (hour t)) @ '':''
     @ zpad 2 (str_nat (minute t)) @ '':'' @ zpad 2 (str_nat (second t))
     @ (if microsecond t = 0 then [] else ''.'' @ zpad 6 (str_nat (microsecond t)))"

text \<open>Rounding to the nearest integer, a tie going to the even neighbour.\<close>

definition round_half_even :: "rat \<Rightarrow> int" where
  "round_half_even x =
     (let f = \<lfloor>x\<rfloor>; d = x - of_int f
      in if d < 1 / 2 then f else if 1 / 2 < d then f + 1 else if even f then f else f + 1)"

text \<open>\<^verbatim>\<open>round(x, 2)\<close> on the idealised floats.\<close>

definition round2 :: "rat \<Rightarrow> rat" where
  "round2 x = of_int (round_half_even (x * 100)) / 100"

text \<open>\<^verbatim>\<open>random.uniform(a, b)\<close> is \<^verbatim>\<open>a + (b - a) * random()\<close>, with \<open>r\<close> the draw of \<^verbatim>\<open>random()\<close>.\<close>

definition uniform :: "rat \<Rightarrow> rat \<Rightarrow> rat \<Rightarrow> rat" where
  "uniform r a b = a + (b - a) * r"

section \<open>The world outside the program\<close>

text \<open>
  Every interaction with the outside is an event of the log, in program order. What the
  outside answers is given by the functions of an environment, each of which is told how
  many interactions came before (so the same request may be answered differently later).
  File operations record whether they raised.
\<close>

datatype message = NoIdsFound | Summary nat nat

datatype event =
    ReadCsv string
  | HttpGet string
  | ChatCreate "pyval list"
  | Now
  | Random
  | Makedirs string "exn option"
  | OpenW string "exn option"
  | Dump string pyval "exn option"
  | Console message

type_synonym world = "event list"

record response =
  status_code :: int
  json_body :: "exn + pyval"

record env =
  pd_read_csv :: "nat \<Rightarrow> string \<Rightarrow> exn + (string \<times> pyval list) list"
  requests_get :: "nat \<Rightarrow> string \<Rightarrow> exn + response"
  random_random :: "nat \<Rightarrow> rat"
  openai_client :: "string \<Rightarrow> exn option"
  chat_create :: "nat \<Rightarrow> string \<Rightarrow> pyval list \<Rightarrow> exn + string option list"
  datetime_now :: "nat \<Rightarrow> datetime"
  os_makedirs :: "nat \<Rightarrow> string \<Rightarrow> exn option"
  open_w :: "nat \<Rightarrow> string \<Rightarrow> exn option"
  json_dump :: "nat \<Rightarrow> string \<Rightarrow> pyval \<Rightarrow> exn option"
  repr :: "pyval \<Rightarrow> string"

text \<open>The object \<^verbatim>\<open>SantanderETL2025\<close> and its constructor.\<close>

record etl =
  openai_api_key :: string
  users_api_url :: string

definition init :: "string \<Rightarrow> etl" where
  "init key = \<lparr>openai_api_key = key, users_api_url = ''https://jsonplaceholder.typicode.com/users''\<rparr>"

section \<open>Extract\<close>

text \<open>
  The body of the \<^verbatim>\<open>try\<close> of \<^verbatim>\<open>extract_users_from_csv\<close>: \<^verbatim>\<open>pd.read_csv\<close> may raise, and
  \<^verbatim>\<open>df['UserID']\<close> raises KeyError when the column is missing. The data frame is the list
  of its columns, and \<^verbatim>\<open>tolist()\<close> gives the cells of the column as pandas read them: integers
  for a column of integers, but floats (NaN for a blank cell), booleans or strings for other
  columns. The annotation \<^verbatim>\<open>List[int]\<close> is not enforced.
\<close>

definition extract_try :: "env \<Rightarrow> string \<Rightarrow> world \<Rightarrow> (exn + pyval list) \<times> world" where
  "extract_try env csv_path w =
     (case pd_read_csv env (length w) csv_path of
        Inl e \<Rightarrow> (Inl e, w @ [ReadCsv csv_path])
      | Inr df \<Rightarrow>
          (case map_of df ''UserID'' of
             None \<Rightarrow> (Inl KeyError, w @ [ReadCsv csv_path])
           | Some user_ids \<Rightarrow> (Inr user_ids, w @ [ReadCsv csv_path])))"

definition extract_users_from_csv :: "env \<Rightarrow> string \<Rightarrow> world \<Rightarrow> (exn + pyval list) \<times> world" where
  "extract_users_from_csv env csv_path w =
     (case extract_try env csv_path w of
        (Inr user_ids, w') \<Rightarrow> (Inr user_ids, w')
      | (Inl e, w') \<Rightarrow> (Inr [], w'))"

text \<open>The eight fields copied from the response, in the order of the dictionary literal.\<close>

definition profile_fields :: "pyval \<Rightarrow> exn + pydict" where
  "profile_fields api_data =
     sbind (getitem api_data ''id'') (\<lambda>v_id.
     sbind (getitem api_data ''name'') (\<lambda>v_name.
     sbind (getitem api_data ''username'') (\<lambda>v_username.
     sbind (getitem api_data ''email'') (\<lambda>v_email.
     sbind (getitem api_data ''phone'') (\<lambda>v_phone.
     sbind (getitem api_data ''website'') (\<lambda>v_website.
     sbind (getitem api_data ''address'') (\<lambda>v_address.
     sbind (getitem api_data ''company'') (\<lambda>v_company.
       Inr [(''id'', v_id), (''name'', v_name), (''username'', v_username),
            (''email'', v_email), (''phone'', v_phone), (''website'', v_website),
            (''address'', v_address), (''company'', v_company)]))))))))"

text \<open>\<^verbatim>\<open>f"001{api_data['id']:04d}"\<close>.\<close>

definition account_number :: "pyval \<Rightarrow> exn + string" where
  "account_number api_data =
     sbind (getitem api_data ''id'') (\<lambda>v_id. sbind (fmt_04d v_id) (\<lambda>s. Inr (''001'' @ s)))"

definition account :: "string \<Rightarrow> rat \<Rightarrow> pyval" where
  "account number r =
     PDict [(''number'', PStr number), (''agency'', PStr ''0001''),
            (''balance'', PFloat (round2 (uniform r 1000 50000))), (''limit'', PFloat 5000)]"

text \<open>
  The handler of \<^verbatim>\<open>get_user_data\<close> catches \<^verbatim>\<open>requests.exceptions.RequestException\<close> only:
  any other exception leaves the function.
\<close>

definition get_user_except :: "exn \<Rightarrow> world \<Rightarrow> (exn + pydict option) \<times> world" where
  "get_user_except e w = (if e = RequestException then (Inr None, w) else (Inl e, w))"

text \<open>\<^verbatim>\<open>f"{self.users_api_url}/{user_id}"\<close>.\<close>

definition user_url :: "env \<Rightarrow> etl \<Rightarrow> pyval \<Rightarrow> string" where
  "user_url env self user_id = users_api_url self @ ''/'' @ py_str (repr env) user_id"

definition get_user_data :: "env \<Rightarrow> etl \<Rightarrow> pyval \<Rightarrow> world \<Rightarrow> (exn + pydict option) \<times> world" where
  "get_user_data env self user_id w =
     (let url = user_url env self user_id;
          w1 = w @ [HttpGet url]
      in case requests_get env (length w) url of
           Inl e \<Rightarrow> get_user_except e w1
         | Inr resp \<Rightarrow>
             if status_code resp = 200 then
               (case json_body resp of
                  Inl e \<Rightarrow> get_user_except e w1
                | Inr api_data \<Rightarrow>
                    (case profile_fields api_data of
                       Inl e \<Rightarrow> get_user_except e w1
                     | Inr profile \<Rightarrow>
                         (case account_number api_data of
                            Inl e \<Rightarrow> get_user_except e w1
                          | Inr number \<Rightarrow>
                              (Inr (Some (profile @
                                 [(''account'', account number (random_random env (length w1))),
                                  (''news'', PList [])])),
                               w1 @ [Random]))))
             else (Inr None, w1))"

section \<open>Transform\<close>

text \<open>\<^verbatim>\<open>f"{v:,.2f}"\<close>: numbers are formatted, a string raises ValueError, other values TypeError.
  The number is kept; its text is not modelled.\<close>

fun fmt_money :: "pyval \<Rightarrow> exn + pyval" where
  "fmt_money (PInt i) = Inr (PInt i)"
| "fmt_money (PFloat r) = Inr (PFloat r)"
| "fmt_money (PNonFinite x) = Inr (PNonFinite x)"
| "fmt_money (PBool b) = Inr (PBool b)"
| "fmt_money (PStr s) = Inl ValueError"
| "fmt_money v = Inl TypeError"

text \<open>
  The values interpolated into the prompt, looked up in the order of \<^verbatim>\<open>user_context\<close>. The
  texts around them, the model name and the generation parameters are constants, so the
  request is determined by these values.
\<close>

definition prompt_values :: "pydict \<Rightarrow> exn + pyval list" where
  "prompt_values user =
     sbind (dict_item user ''name'') (\<lambda>v_name.
     sbind (dict_item user ''email'') (\<lambda>v_email.
     sbind (dict_item user ''company'') (\<lambda>v_company.
     sbind (getitem v_company ''name'') (\<lambda>v_cname.
     sbind (dict_item user ''account'') (\<lambda>v_account.
     sbind (getitem v_account ''balance'') (\<lambda>v_balance.
     sbind (fmt_money v_balance) (\<lambda>v_money.
       Inr [v_name, v_email, v_cname, v_money])))))))"

text \<open>\<^verbatim>\<open>response.choices[0].message.content.strip()\<close>; a choice is its content, or None.\<close>

definition first_message :: "string option list \<Rightarrow> exn + string" where
  "first_message choices =
     (case choices of
        [] \<Rightarrow> Inl IndexError
      | c # _ \<Rightarrow> (case c of None \<Rightarrow> Inl AttributeError | Some s \<Rightarrow> Inr (strip s)))"

text \<open>The body of the \<^verbatim>\<open>try\<close> of \<^verbatim>\<open>generate_ai_news\<close>.\<close>

definition ai_try :: "env \<Rightarrow> etl \<Rightarrow> pydict \<Rightarrow> world \<Rightarrow> (exn + string) \<times> world" where
  "ai_try env self user w =
     (case openai_client env (openai_api_key self) of
        Some e \<Rightarrow> (Inl e, w)
      | None \<Rightarrow>
          (case prompt_values user of
             Inl e \<Rightarrow> (Inl e, w)
           | Inr vals \<Rightarrow>
               (case chat_create env (length w) (openai_api_key self) vals of
                  Inl e \<Rightarrow> (Inl e, w @ [ChatCreate vals])
                | Inr choices \<Rightarrow> (first_message choices, w @ [ChatCreate vals]))))"

text \<open>The fixed part of the fallback message; the letter o with acute is two bytes.\<close>

definition fallback_suffix :: string where
  "fallback_suffix =
     '', invista hoje para um futuro financeiro mais seguro e pr'' @ [CHR 0xC3, CHR 0xB3] @ ''spero!''"

definition generate_ai_news :: "env \<Rightarrow> etl \<Rightarrow> pydict \<Rightarrow> world \<Rightarrow> (exn + string) \<times> world" where
  "generate_ai_news env self user w =
     (case ai_try env self user w of
        (Inr message, w') \<Rightarrow> (Inr message, w')
      | (Inl e, w') \<Rightarrow>
          (sbind (dict_item user ''name'') (\<lambda>v. Inr (py_str (repr env) v @ fallback_suffix)), w'))"

section \<open>Load\<close>

text \<open>\<^verbatim>\<open>with open(path, 'w', encoding='utf-8') as f: json.dump(doc, f, ...)\<close>.\<close>

definition write_json :: "env \<Rightarrow> string \<Rightarrow> pyval \<Rightarrow> world \<Rightarrow> (exn + unit) \<times> world" where
  "write_json env path doc w =
     (let r = open_w env (length w) path; w1 = w @ [OpenW path r]
      in case r of
           Some e \<Rightarrow> (Inl e, w1)
         | None \<Rightarrow>
             (let r2 = json_dump env (length w1) path doc; w2 = w1 @ [Dump path doc r2]
              in case r2 of Some e \<Rightarrow> (Inl e, w2) | None \<Rightarrow> (Inr (), w2)))"

definition user_filename :: "env \<Rightarrow> pyval \<Rightarrow> datetime \<Rightarrow> string" where
  "user_filename env v_id t =
     ''user_updates/user_'' @ py_str (repr env) v_id @ ''_'' @ strftime_stamp t @ ''.json''"

definition save_user_update :: "env \<Rightarrow> pydict \<Rightarrow> world \<Rightarrow> (exn + unit) \<times> world" where
  "save_user_update env user w =
     (case dict_item user ''id'' of
        Inl e \<Rightarrow> (Inl e, w)
      | Inr v_id \<Rightarrow>
          (let filename = user_filename env v_id (datetime_now env (length w));
               w1 = w @ [Now];
               r = os_makedirs env (length w1) ''user_updates'';
               w2 = w1 @ [Makedirs ''user_updates'' r]
           in case r of
                Some e \<Rightarrow> (Inl e, w2)
              | None \<Rightarrow> write_json env filename (PDict user) w2))"

definition news_item :: "nat \<Rightarrow> string \<Rightarrow> pyval \<Rightarrow> pyval" where
  "news_item n date message =
     PDict [(''id'', PInt (int n + 1)), (''date'', PStr date),
            (''icon'', PStr ''https://cdn-icons-png.flaticon.com/512/3135/3135679.png''),
            (''description'', message), (''category'', PStr ''investment_advice''),
            (''read'', PBool False)]"

text \<open>\<^verbatim>\<open>v.append(x)\<close>: only a list has the method.\<close>

fun list_append :: "pyval \<Rightarrow> pyval \<Rightarrow> exn + pyval" where
  "list_append (PList xs) x = Inr (PList (xs @ [x]))"
| "list_append v x = Inl AttributeError"

text \<open>
  The body of the \<^verbatim>\<open>try\<close> of \<^verbatim>\<open>update_user_data\<close>. The dictionary is mutated in place by
  the program, so the record as it stands when the body ends is returned with the outcome,
  also when the body raises.
\<close>

definition update_try :: "env \<Rightarrow> pydict \<Rightarrow> pyval \<Rightarrow> world \<Rightarrow> (exn + unit) \<times> pydict \<times> world" where
  "update_try env user message w =
     (case dict_item user ''news'' of
        Inl e \<Rightarrow> (Inl e, user, w)
      | Inr news \<Rightarrow>
          (case py_len news of
             Inl e \<Rightarrow> (Inl e, user, w)
           | Inr n \<Rightarrow>
               (let item = news_item n (isoformat (datetime_now env (length w))) message;
                    w1 = w @ [Now]
                in case list_append news item of
                     Inl e \<Rightarrow> (Inl e, user, w1)
                   | Inr news' \<Rightarrow>
                       (let user' = dict_set user ''news'' news'
                        in case save_user_update env user' w1 of
                             (Inl e, w2) \<Rightarrow> (Inl e, user', w2)
                           | (Inr u, w2) \<Rightarrow>
                               (case dict_item user' ''name'' of
                                  Inl e \<Rightarrow> (Inl e, user', w2)
                                | Inr v \<Rightarrow> (Inr (), user', w2))))))"

definition update_user_data :: "env \<Rightarrow> pydict \<Rightarrow> pyval \<Rightarrow> world \<Rightarrow> (exn + bool) \<times> pydict \<times> world" where
  "update_user_data env user message w =
     (case update_try env user message w of
        (Inr u, user', w') \<Rightarrow> (Inr True, user', w')
      | (Inl e, user', w') \<Rightarrow> (Inr False, user', w'))"

section \<open>Report\<close>

definition last_message :: "pydict \<Rightarrow> exn + pyval" where
  "last_message user =
     (if truthy (dict_get user ''news'' PNone)
      then sbind (dict_item user ''news'') (\<lambda>news.
           sbind (index_last news) (\<lambda>item. getitem item ''description''))
      else Inr (PStr ''N/A''))"

definition messages_count :: "pydict \<Rightarrow> exn + nat" where
  "messages_count user = py_len (dict_get user ''news'' (PList []))"

definition summary_entry :: "pydict \<Rightarrow> exn + pyval" where
  "summary_entry user =
     sbind (dict_item user ''id'') (\<lambda>v_id.
     sbind (dict_item user ''name'') (\<lambda>v_name.
     sbind (messages_count user) (\<lambda>n.
     sbind (last_message user) (\<lambda>m.
       Inr (PDict [(''user_id'', v_id), (''user_name'', v_name),
                   (''messages_count'', PInt (int n)), (''last_message'', m)])))))"

text \<open>The dictionary literal \<^verbatim>\<open>report\<close>, its entries evaluated in order.\<close>

definition build_report :: "string \<Rightarrow> pydict list \<Rightarrow> exn + pyval" where
  "build_report ts users =
     sbind (smap messages_count users) (\<lambda>lens.
     sbind (smap summary_entry users) (\<lambda>summary.
       Inr (PDict
         [(''timestamp'', PStr ts),
          (''total_users_processed'', PInt (int (length users))),
          (''users_with_news'',
             PInt (int (length (filter (\<lambda>user. truthy (dict_get user ''news'' PNone)) users)))),
          (''total_messages_generated'', PInt (int (sum_list lens))),
          (''processing_summary'', PList summary)])))"

definition generate_report :: "env \<Rightarrow> pydict list \<Rightarrow> world \<Rightarrow> (exn + unit) \<times> world" where
  "generate_report env users w =
     (case build_report (isoformat (datetime_now env (length w))) users of
        Inl e \<Rightarrow> (Inl e, w @ [Now])
      | Inr report \<Rightarrow> write_json env ''etl_report.json'' report (w @ [Now]))"

section \<open>The pipeline\<close>

text \<open>The three loops of \<^verbatim>\<open>run_etl_pipeline\<close>, each with the list it accumulates.\<close>

fun fetch_users :: "env \<Rightarrow> etl \<Rightarrow> pyval list \<Rightarrow> pydict list \<Rightarrow> world \<Rightarrow> (exn + pydict list) \<times> world" where
  "fetch_users env self [] users w = (Inr users, w)"
| "fetch_users env self (user_id # rest) users w =
     (case get_user_data env self user_id w of
        (Inl e, w') \<Rightarrow> (Inl e, w')
      | (Inr None, w') \<Rightarrow> fetch_users env self rest users w'
      | (Inr (Some user_data), w') \<Rightarrow>
          fetch_users env self rest
            (if truthy (PDict user_data) then users @ [user_data] else users) w')"

fun transform_users :: "env \<Rightarrow> etl \<Rightarrow> pydict list \<Rightarrow> pydict list \<Rightarrow> world \<Rightarrow> (exn + pydict list) \<times> world" where
  "transform_users env self [] processed_users w = (Inr processed_users, w)"
| "transform_users env self (user # rest) processed_users w =
     (case dict_item user ''name'' of
        Inl e \<Rightarrow> (Inl e, w)
      | Inr v \<Rightarrow>
          (case generate_ai_news env self user w of
             (Inl e, w') \<Rightarrow> (Inl e, w')
           | (Inr ai_message, w') \<Rightarrow>
               transform_users env self rest
                 (processed_users @ [dict_set user ''ai_generated_message'' (PStr ai_message)]) w'))"

text \<open>
  The load loop mutates the records of \<^verbatim>\<open>processed_users\<close> in place; \<open>loaded\<close> collects them
  as they stand after \<^verbatim>\<open>update_user_data\<close>.
\<close>

fun load_users :: "env \<Rightarrow> pydict list \<Rightarrow> pydict list \<Rightarrow> nat \<Rightarrow> world \<Rightarrow> (exn + pydict list \<times> nat) \<times> world" where
  "load_users env [] loaded success_count w = (Inr (loaded, success_count), w)"
| "load_users env (user # rest) loaded success_count w =
     (case dict_item user ''ai_generated_message'' of
        Inl e \<Rightarrow> (Inl e, w)
      | Inr message \<Rightarrow>
          (case update_user_data env user message w of
             (Inl e, user', w') \<Rightarrow> (Inl e, w')
           | (Inr success, user', w') \<Rightarrow>
               load_users env rest (loaded @ [user'])
                 (if success then success_count + 1 else success_count) w'))"

text \<open>
  \<^verbatim>\<open>run_etl_pipeline\<close> returns None after the early return and the processed users
  otherwise. Of the console output only the two lines that carry a decision or a count are
  logged: the one before the early return and the final tally.
\<close>

definition run_etl_pipeline :: "env \<Rightarrow> etl \<Rightarrow> string \<Rightarrow> world \<Rightarrow> (exn + pydict list option) \<times> world" where
  "run_etl_pipeline env self csv_path w =
     (case extract_users_from_csv env csv_path w of
        (Inl e, w1) \<Rightarrow> (Inl e, w1)
      | (Inr user_ids, w1) \<Rightarrow>
          if user_ids = [] then (Inr None, w1 @ [Console NoIdsFound])
          else
            (case fetch_users env self user_ids [] w1 of
               (Inl e, w2) \<Rightarrow> (Inl e, w2)
             | (Inr users, w2) \<Rightarrow>
                 (case transform_users env self users [] w2 of
                    (Inl e, w3) \<Rightarrow> (Inl e, w3)
                  | (Inr processed_users, w3) \<Rightarrow>
                      (case load_users env processed_users [] 0 w3 of
                         (Inl e, w4) \<Rightarrow> (Inl e, w4)
                       | (Inr (loaded, success_count), w4) \<Rightarrow>
                           (case generate_report env loaded w4 of
                              (Inl e, w5) \<Rightarrow> (Inl e, w5)
                            | (Inr u, w5) \<Rightarrow>
                                (Inr (Some loaded),
                                 w5 @ [Console (Summary success_count (length loaded))]))))))"

section \<open>Observations on a run\<close>

text \<open>The URLs requested, in order.\<close>

fun requested :: "world \<Rightarrow> string list" where
  "requested [] = []"
| "requested (HttpGet url # w) = url # requested w"
| "requested (e # w) = requested w"

text \<open>The files written completely, in order: path and document.\<close>

fun written :: "world \<Rightarrow> (string \<times> pyval) list" where
  "written [] = []"
| "written (Dump p doc None # w) = (p, doc) # written w"
| "written (e # w) = written w"

definition is_user_file :: "string \<Rightarrow> bool" where
  "is_user_file p = (take 13 p = ''user_updates/'')"

text \<open>The \<open>id\<close> of each user document written under \<^verbatim>\<open>user_updates/\<close>, in order.\<close>

definition written_user_ids :: "world \<Rightarrow> (exn + pyval) list" where
  "written_user_ids w =
     map (\<lambda>(p, doc). getitem doc ''id'') (filter (\<lambda>(p, doc). is_user_file p) (written w))"

text \<open>The reports written to \<^verbatim>\<open>etl_report.json\<close>, in order.\<close>

definition written_reports :: "world \<Rightarrow> pyval list" where
  "written_reports w = map snd (filter (\<lambda>(p, doc). p = ''etl_report.json'') (written w))"

text \<open>The \<open>user_id\<close> of each entry of a report's \<open>processing_summary\<close>.\<close>

definition summary_ids :: "pyval \<Rightarrow> (exn + pyval) list" where
  "summary_ids report =
     (case getitem report ''processing_summary'' of
        Inr (PList entries) \<Rightarrow> map (\<lambda>entry. getitem entry ''user_id'') entries
      | _ \<Rightarrow> [])"

text \<open>The news sequence of a record: the list under \<open>news\<close>.\<close>

definition news_of :: "pydict \<Rightarrow> pyval list" where
  "news_of user = (case map_of user ''news'' of Some (PList ns) \<Rightarrow> ns | _ \<Rightarrow> [])"

definition has_news_list :: "pydict \<Rightarrow> bool" where
  "has_news_list user = (case map_of user ''news'' of Some (PList ns) \<Rightarrow> True | _ \<Rightarrow> False)"

text \<open>
  A record that \<^verbatim>\<open>generate_report\<close> can summarise: it has \<open>id\<close> and \<open>name\<close>, its \<open>news\<close>
  is a list, and the last news item, if any, has a \<open>description\<close>.
\<close>

definition reportable :: "pydict \<Rightarrow> bool" where
  "reportable user =
     (map_of user ''id'' \<noteq> None \<and> map_of user ''name'' \<noteq> None \<and> has_news_list user \<and>
      (news_of user = [] \<or>
       (case getitem (last (news_of user)) ''description'' of Inr v \<Rightarrow> True | Inl e \<Rightarrow> False)))"

text \<open>A record as \<^verbatim>\<open>get_user_data\<close> builds it: the ten keys, no news yet.\<close>

definition fresh :: "pydict \<Rightarrow> bool" where
  "fresh user =
     (map fst user = [''id'', ''name'', ''username'', ''email'', ''phone'', ''website'',
                      ''address'', ''company'', ''account'', ''news''] \<and>
      map_of user ''news'' = Some (PList []))"

text \<open>
  What \<^verbatim>\<open>update_user_data\<close> returns for each record of the load loop, in order, with the
  world threaded as the loop threads it.
\<close>

fun update_flags :: "env \<Rightarrow> pydict list \<Rightarrow> world \<Rightarrow> (exn + bool) list" where
  "update_flags env [] w = []"
| "update_flags env (user # rest) w =
     (case dict_item user ''ai_generated_message'' of
        Inl e \<Rightarrow> []
      | Inr message \<Rightarrow>
          (case update_user_data env user message w of
             (r, user', w') \<Rightarrow> r # update_flags env rest w'))"

text \<open>
  An endpoint that echoes the identifiers \<open>ids\<close>: whenever it answers the request for one
  of them with the status 200 and a body that has an \<open>id\<close>, that \<open>id\<close> is the identifier
  requested.
\<close>

definition echoes :: "env \<Rightarrow> etl \<Rightarrow> pyval list \<Rightarrow> bool" where
  "echoes env self ids =
     (\<forall>i\<in>set ids. \<forall>t resp api v.
        requests_get env t (user_url env self i) = Inr resp \<and> status_code resp = 200 \<and>
        json_body resp = Inr api \<and> getitem api ''id'' = Inr v \<longrightarrow> v = i)"

text \<open>The paths of the files written completely, in order.\<close>

definition written_paths :: "world \<Rightarrow> string list" where
  "written_paths w = map fst (written w)"

text \<open>The number that a string of decimal digits denotes.\<close>

definition digits_value :: "string \<Rightarrow> nat" where
  "digits_value s = foldl (\<lambda>a c. 10 * a + (of_char c - 48)) 0 s"

text \<open>
  A clock reading with its fields in the ranges of \<^verbatim>\<open>datetime\<close>, from the year 1000 on (the
  microseconds are free).
\<close>

definition in_range :: "datetime \<Rightarrow> bool" where
  "in_range t = (1000 \<le> year t \<and> year t < 10000 \<and> 1 \<le> month t \<and> month t \<le> 12 \<and>
     1 \<le> day t \<and> day t \<le> 31 \<and> hour t < 24 \<and> minute t < 60 \<and> second t < 60)"

text \<open>The record that \<^verbatim>\<open>get_user_data\<close> builds for user 1 of the concrete environment.\<close>

definition demo_user :: pydict where
  "demo_user =
     [(''id'', PInt 1), (''name'', PStr ''Leanne Graham''), (''username'', PStr ''user''),
      (''email'', PStr ''user@example.org''), (''phone'', PStr ''555-0100''),
      (''website'', PStr ''example.org''),
      (''address'', PDict [(''city'', PStr ''Gwenborough'')]),
      (''company'', PDict [(''name'', PStr ''Romaguera-Crona'')]),
      (''account'', account ''0010001'' (1 / 3)),
      (''news'', PList [])]"

text \<open>Three records to report on, with two, no and one news item.\<close>

definition demo_records :: "pydict list" where
  "demo_records =
     [[(''id'', PInt 1), (''name'', PStr ''Leanne Graham''),
       (''news'', PList [news_item 0 ''2025-01-14T09:00:00'' (PStr ''first''),
                         news_item 1 ''2025-01-15T09:00:00'' (PStr ''second'')])],
      [(''id'', PInt 2), (''name'', PStr ''Ervin Howell''), (''news'', PList [])],
      [(''id'', PInt 3), (''name'', PStr ''Clementine Bauch''),
       (''news'', PList [news_item 0 ''2025-01-15T09:00:00'' (PStr ''only'')])]]"

section \<open>A concrete environment\<close>

text \<open>
  A small world to run the definitions on: an input file naming the users 1, 2 and 7,
  an endpoint that knows the first two, a text-generation service that cannot be reached,
  a clock whose microseconds count the interactions, and a file system where every
  operation succeeds.
\<close>

definition api_user :: "int \<Rightarrow> string \<Rightarrow> pyval" where
  "api_user i n =
     PDict [(''id'', PInt i), (''name'', PStr n), (''username'', PStr ''user''),
            (''email'', PStr ''user@example.org''), (''phone'', PStr ''555-0100''),
            (''website'', PStr ''example.org''),
            (''address'', PDict [(''city'', PStr ''Gwenborough'')]),
            (''company'', PDict [(''name'', PStr ''Romaguera-Crona'')])]"

definition demo_csv :: "string \<Rightarrow> exn + (string \<times> pyval list) list" where
  "demo_csv p =
     (if p = ''SDW2023.csv'' then Inr [(''UserID'', [PInt 1, PInt 2, PInt 7])]
      else if p = ''repeated.csv'' then Inr [(''Name'', []), (''UserID'', [PInt 3, PInt 1, PInt 3])]
      else if p = ''other.csv'' then Inr [(''Name'', [])]
      else if p = ''one.csv'' then Inr [(''UserID'', [PInt 1])]
      else if p = ''mixed.csv''
      then Inr [(''UserID'', [PStr ''abc'', PFloat (3 / 2), PNonFinite NaN])]
      else Inl OSError)"

definition demo_get :: "string \<Rightarrow> exn + response" where
  "demo_get url =
     (if url = ''https://jsonplaceholder.typicode.com/users/1''
      then Inr \<lparr>status_code = 200, json_body = Inr (api_user 1 ''Leanne Graham'')\<rparr>
      else if url = ''https://jsonplaceholder.typicode.com/users/2''
      then Inr \<lparr>status_code = 200, json_body = Inr (api_user 2 ''Ervin Howell'')\<rparr>
      else if url = ''https://jsonplaceholder.typicode.com/users/3''
      then Inl RequestException
      else Inr \<lparr>status_code = 404, json_body = Inr (PDict [])\<rparr>)"

definition demo_env :: env where
  "demo_env =
     \<lparr>pd_read_csv = (\<lambda>t. demo_csv),
      requests_get = (\<lambda>t. demo_get),
      random_random = (\<lambda>t. 1 / 3),
      openai_client = (\<lambda>k. None),
      chat_create = (\<lambda>t k vals. Inl (OtherError ''APIConnectionError'')),
      datetime_now = (\<lambda>t. \<lparr>year = 2025, month = 1, day = 15, hour = 10, minute = 30,
                              second = 0, microsecond = t\<rparr>),
      os_makedirs = (\<lambda>t p. None),
      open_w = (\<lambda>t p. None),
      json_dump = (\<lambda>t p doc. None),
      repr = (\<lambda>v. ''?'')\<rparr>"

text \<open>The concrete environment with the directory \<^verbatim>\<open>user_updates\<close> impossible to create.\<close>

definition unwritable_env :: env where
  "unwritable_env = demo_env\<lparr>os_makedirs := (\<lambda>t p. Some OSError)\<rparr>"

text \<open>
  The concrete environment with the files of one user impossible to open: those of the
  user 2 whose stamp is of the year 2025.
\<close>

definition half_writable_env :: env where
  "half_writable_env =
     demo_env\<lparr>open_w := (\<lambda>t p. if take 24 p = ''user_updates/user_2_2025'' then Some OSError else None)\<rparr>"

text \<open>
  An endpoint that answers every request with the status 200: for the user 2 with a body
  whose \<open>id\<close> is a string, for every other user with a body that has an \<open>id\<close> only.
\<close>

definition incomplete_env :: env where
  "incomplete_env =
     demo_env\<lparr>requests_get := (\<lambda>t url.
       if url = ''https://jsonplaceholder.typicode.com/users/2''
       then Inr \<lparr>status_code = 200,
                 json_body = Inr (PDict
                   [(''id'', PStr ''2''), (''name'', PStr ''Ervin Howell''),
                    (''username'', PStr ''user''), (''email'', PStr ''user@example.org''),
                    (''phone'', PStr ''555-0100''), (''website'', PStr ''example.org''),
                    (''address'', PDict [(''city'', PStr ''Gwenborough'')]),
                    (''company'', PDict [(''name'', PStr ''Romaguera-Crona'')])])\<rparr>
       else Inr \<lparr>status_code = 200, json_body = Inr (PDict [(''id'', PInt 1)])\<rparr>)\<rparr>"

text \<open>The concrete environment with the report impossible to open.\<close>

definition report_fails_env :: env where
  "report_fails_env =
     demo_env\<lparr>open_w := (\<lambda>t p. if p = ''etl_report.json'' then Some OSError else None)\<rparr>"

text \<open>An endpoint that answers every request with the record of the user 2.\<close>

definition swapped_env :: env where
  "swapped_env =
     demo_env\<lparr>requests_get := (\<lambda>t url.
       Inr \<lparr>status_code = 200, json_body = Inr (api_user 2 ''Ervin Howell'')\<rparr>)\<rparr>"

section \<open>Auxiliary facts\<close>

lemma sbind_Inl [simp]: "sbind (Inl e) f = Inl e"
  by (simp add: sbind_def)

lemma sbind_Inr [simp]: "sbind (Inr x) f = f x"
  by (simp add: sbind_def)

lemma sbind_eq_Inr: "(sbind m f = Inr y) = (\<exists>x. m = Inr x \<and> f x = Inr y)"
  by (cases m) auto

lemma dict_item_Inr [simp]: "(dict_item d k = Inr v) = (map_of d k = Some v)"
  by (simp add: dict_item_def split: option.splits)

lemma dict_item_Inl [simp]: "(dict_item d k = Inl e) = (map_of d k = None \<and> e = KeyError)"
  by (auto simp: dict_item_def split: option.splits)

lemma dict_item_Some [simp]: "map_of d k = Some v \<Longrightarrow> dict_item d k = Inr v"
  by (simp add: dict_item_def)

lemma dict_item_None [simp]: "map_of d k = None \<Longrightarrow> dict_item d k = Inl KeyError"
  by (simp add: dict_item_def)

lemma map_of_dict_set [simp]:
  "map_of (dict_set d k v) k' = (if k' = k then Some v else map_of d k')"
  by (simp add: dict_set_def update_conv')

lemma requested_append [simp]: "requested (a @ b) = requested a @ requested b"
  by (induction a rule: requested.induct) auto

lemma written_append [simp]: "written (a @ b) = written a @ written b"
  by (induction a rule: written.induct) auto

lemma news_of_dict_set [simp]: "news_of (dict_set user ''news'' (PList ns)) = ns"
  by (simp add: news_of_def)

lemma has_news_list_iff: "has_news_list user = (\<exists>ns. map_of user ''news'' = Some (PList ns))"
  by (auto simp: has_news_list_def split: option.splits pyval.splits)

lemma has_news_list_news_of: "has_news_list user \<Longrightarrow> map_of user ''news'' = Some (PList (news_of user))"
  by (auto simp: has_news_list_def news_of_def split: option.splits pyval.splits)

lemma news_item_fields:
  "getitem (news_item n d m) ''id'' = Inr (PInt (int n + 1))"
  "getitem (news_item n d m) ''date'' = Inr (PStr d)"
  "getitem (news_item n d m) ''icon'' = Inr (PStr ''https://cdn-icons-png.flaticon.com/512/3135/3135679.png'')"
  "getitem (news_item n d m) ''description'' = Inr m"
  "getitem (news_item n d m) ''category'' = Inr (PStr ''investment_advice'')"
  "getitem (news_item n d m) ''read'' = Inr (PBool False)"
  by (simp_all add: news_item_def)

lemma write_json_log:
  assumes "write_json env p doc w = (r, w')"
  shows "\<exists>evs. w' = w @ evs \<and> requested evs = [] \<and>
     (if r = Inr () then written evs = [(p, doc)] else written evs = [])"
proof (cases "open_w env (length w) p")
  case (Some e)
  with assms have "w' = w @ [OpenW p (Some e)]" "r = Inl e"
    by (simp_all add: write_json_def Let_def)
  then show ?thesis by simp
next
  case None
  show ?thesis
  proof (cases "json_dump env (Suc (length w)) p doc")
    case (Some e)
    with None assms have "w' = w @ [OpenW p None, Dump p doc (Some e)]" "r = Inl e"
      by (simp_all add: write_json_def Let_def)
    then show ?thesis by simp
  next
    case dumped: None
    with None assms have "w' = w @ [OpenW p None, Dump p doc None]" "r = Inr ()"
      by (simp_all add: write_json_def Let_def)
    then show ?thesis by simp
  qed
qed

lemma save_user_update_log:
  assumes "save_user_update env user w = (r, w')"
  shows "\<exists>evs. w' = w @ evs \<and> requested evs = [] \<and>
     (if r = Inr ()
      then \<exists>v. map_of user ''id'' = Some v \<and>
             written evs = [(user_filename env v (datetime_now env (length w)), PDict user)]
      else written evs = [])"
proof (cases "map_of user ''id''")
  case None
  with assms have "w' = w @ []" "r = Inl KeyError"
    by (simp_all add: save_user_update_def)
  then show ?thesis
    by (intro exI [of _ "[]"]) simp
next
  case (Some v)
  show ?thesis
  proof (cases "os_makedirs env (Suc (length w)) ''user_updates''")
    case (Some e)
    with \<open>map_of user ''id'' = Some v\<close> assms
    have "w' = w @ [Now, Makedirs ''user_updates'' (Some e)]" "r = Inl e"
      by (simp_all add: save_user_update_def Let_def)
    then show ?thesis
      by (intro exI [of _ "[Now, Makedirs ''user_updates'' (Some e)]"]) simp
  next
    case None
    with \<open>map_of user ''id'' = Some v\<close> assms
    have "write_json env (user_filename env v (datetime_now env (length w))) (PDict user)
            (w @ [Now, Makedirs ''user_updates'' None]) = (r, w')"
      by (simp add: save_user_update_def Let_def)
    from write_json_log [OF this] obtain evs where
      evs: "w' = (w @ [Now, Makedirs ''user_updates'' None]) @ evs" "requested evs = []"
        "if r = Inr ()
         then written evs = [(user_filename env v (datetime_now env (length w)), PDict user)]
         else written evs = []"
      by blast
    show ?thesis
    proof (intro exI [of _ "[Now, Makedirs ''user_updates'' None] @ evs"] conjI)
      show "w' = w @ [Now, Makedirs ''user_updates'' None] @ evs"
        using evs(1) by simp
      show "requested ([Now, Makedirs ''user_updates'' None] @ evs) = []"
        using evs(2) by simp
      show "if r = Inr ()
        then \<exists>v. map_of user ''id'' = Some v \<and>
               written ([Now, Makedirs ''user_updates'' None] @ evs) =
               [(user_filename env v (datetime_now env (length w)), PDict user)]
        else written ([Now, Makedirs ''user_updates'' None] @ evs) = []"
        using evs(3) \<open>map_of user ''id'' = Some v\<close> by (simp split: if_splits)
    qed
  qed
qed

lemma update_try_news_list:
  assumes "map_of user ''news'' = Some (PList ns)"
  shows "update_try env user message w =
     (let user' = dict_set user ''news''
            (PList (ns @ [news_item (length ns) (isoformat (datetime_now env (length w))) message]))
      in case save_user_update env user' (w @ [Now]) of
           (Inl e, w2) \<Rightarrow> (Inl e, user', w2)
         | (Inr u, w2) \<Rightarrow>
             (case dict_item user' ''name'' of
                Inl e \<Rightarrow> (Inl e, user', w2)
              | Inr v \<Rightarrow> (Inr (), user', w2)))"
  using assms by (simp add: update_try_def Let_def)

lemma update_user_data_total:
  "\<exists>b user' w'. update_user_data env user message w = (Inr b, user', w')"
  by (cases "update_try env user message w") (auto simp: update_user_data_def split: sum.splits)

lemma profile_fields_Inr:
  assumes "profile_fields api = Inr profile"
  shows "\<exists>v1 v2 v3 v4 v5 v6 v7 v8. getitem api ''id'' = Inr v1 \<and>
    profile = [(''id'', v1), (''name'', v2), (''username'', v3), (''email'', v4),
               (''phone'', v5), (''website'', v6), (''address'', v7), (''company'', v8)]"
  using assms unfolding profile_fields_def sbind_eq_Inr by blast

lemma get_user_data_world:
  assumes "get_user_data env self i w = (r, w')"
  shows "w' = w @ [HttpGet (user_url env self i)] \<or> w' = w @ [HttpGet (user_url env self i), Random]"
  using assms
  by (simp add: get_user_data_def get_user_except_def Let_def split: sum.splits if_splits)

lemma get_user_data_log:
  assumes "get_user_data env self i w = (r, w')"
  shows "\<exists>evs. w' = w @ evs \<and> requested evs = [user_url env self i] \<and> written evs = []"
  using get_user_data_world [OF assms]
proof
  assume "w' = w @ [HttpGet (user_url env self i)]"
  then show ?thesis by (intro exI [of _ "[HttpGet (user_url env self i)]"]) simp
next
  assume "w' = w @ [HttpGet (user_url env self i), Random]"
  then show ?thesis by (intro exI [of _ "[HttpGet (user_url env self i), Random]"]) simp
qed

lemma get_user_data_Some:
  assumes "get_user_data env self i w = (Inr (Some u), w')"
  shows "\<exists>resp api profile number.
     requests_get env (length w) (user_url env self i) = Inr resp \<and> status_code resp = 200 \<and>
     json_body resp = Inr api \<and> profile_fields api = Inr profile \<and>
     account_number api = Inr number \<and>
     u = profile @ [(''account'', account number (random_random env (Suc (length w)))),
                    (''news'', PList [])] \<and>
     w' = w @ [HttpGet (user_url env self i), Random]"
  using assms
  by (simp add: get_user_data_def get_user_except_def Let_def split: sum.splits if_splits)

lemma get_user_data_shape:
  assumes "get_user_data env self i w = (Inr (Some u), w')"
  shows "fresh u \<and>
    (\<exists>resp api. requests_get env (length w) (user_url env self i) = Inr resp \<and>
       status_code resp = 200 \<and> json_body resp = Inr api \<and>
       getitem api ''id'' = dict_item u ''id'')"
proof -
  from get_user_data_Some [OF assms] obtain resp api profile number r where
    r: "requests_get env (length w) (user_url env self i) = Inr resp" "status_code resp = 200"
       "json_body resp = Inr api" and
    p: "profile_fields api = Inr profile" and
    u: "u = profile @ [(''account'', account number r), (''news'', PList [])]"
    by blast
  from profile_fields_Inr [OF p] obtain v1 v2 v3 v4 v5 v6 v7 v8 where
    "getitem api ''id'' = Inr v1"
    "profile = [(''id'', v1), (''name'', v2), (''username'', v3), (''email'', v4),
                (''phone'', v5), (''website'', v6), (''address'', v7), (''company'', v8)]"
    by blast
  with r show ?thesis
    unfolding u fresh_def by simp
qed

lemma fresh_key:
  assumes "fresh u"
  shows "\<exists>v. map_of u ''id'' = Some v" "\<exists>v. map_of u ''name'' = Some v"
    "map_of u ''news'' = Some (PList [])" "map_of u ''ai_generated_message'' = None"
proof -
  have keys: "fst ` set u = set (map fst u)" by simp
  have "''id'' \<in> fst ` set u" "''name'' \<in> fst ` set u" "''ai_generated_message'' \<notin> fst ` set u"
    unfolding keys using assms by (simp_all add: fresh_def)
  then show "\<exists>v. map_of u ''id'' = Some v" "\<exists>v. map_of u ''name'' = Some v"
    "map_of u ''ai_generated_message'' = None"
    by (simp_all add: map_of_eq_None_iff flip: not_None_eq)
  show "map_of u ''news'' = Some (PList [])"
    using assms by (simp add: fresh_def)
qed

lemma fetch_users_log:
  "fetch_users env self ids acc w = (r, w') \<Longrightarrow>
   \<exists>evs. w' = w @ evs \<and> prefix (requested evs) (map (user_url env self) ids) \<and>
     written evs = [] \<and> (\<forall>users. r = Inr users \<longrightarrow> requested evs = map (user_url env self) ids)"
proof (induction ids arbitrary: acc w)
  case Nil
  then show ?case by (intro exI [of _ "[]"]) simp
next
  case (Cons i ids)
  obtain r1 w1 where g: "get_user_data env self i w = (r1, w1)"
    by (cases "get_user_data env self i w")
  from get_user_data_log [OF g] obtain e1 where
    e1: "w1 = w @ e1" "requested e1 = [user_url env self i]" "written e1 = []"
    by blast
  show ?case
  proof (cases r1)
    case (Inl e)
    with g Cons.prems have "w' = w1" "r = Inl e" by simp_all
    with e1 show ?thesis by (intro exI [of _ e1]) simp
  next
    case (Inr o1)
    then obtain acc1 where rest: "fetch_users env self ids acc1 w1 = (r, w')"
      using g Cons.prems by (cases o1) simp_all
    from Cons.IH [OF rest] obtain e2 where
      e2: "w' = w1 @ e2" "prefix (requested e2) (map (user_url env self) ids)" "written e2 = []"
        "\<forall>users. r = Inr users \<longrightarrow> requested e2 = map (user_url env self) ids"
      by blast
    with e1 show ?thesis by (intro exI [of _ "e1 @ e2"]) simp
  qed
qed

lemma fresh_truthy: "fresh u \<Longrightarrow> u \<noteq> []"
  by (auto simp: fresh_def)

lemma fetch_users_fresh:
  "fetch_users env self ids acc w = (Inr users, w') \<Longrightarrow>
   \<exists>new. users = acc @ new \<and> (\<forall>u\<in>set new. fresh u)"
proof (induction ids arbitrary: acc w)
  case Nil
  then show ?case by simp
next
  case (Cons i ids)
  obtain r1 w1 where g: "get_user_data env self i w = (r1, w1)"
    by (cases "get_user_data env self i w")
  show ?case
  proof (cases r1)
    case (Inl e)
    with g Cons.prems show ?thesis by simp
  next
    case (Inr o1)
    show ?thesis
    proof (cases o1)
      case None
      with Inr g Cons.prems have "fetch_users env self ids acc w1 = (Inr users, w')" by simp
      from Cons.IH [OF this] show ?thesis .
    next
      case (Some u)
      with Inr g have fu: "fresh u" using get_user_data_shape by blast
      with Some Inr g Cons.prems
      have "fetch_users env self ids (acc @ [u]) w1 = (Inr users, w')"
        by (simp add: fresh_truthy)
      from Cons.IH [OF this] obtain new where
        "users = (acc @ [u]) @ new" "\<forall>u\<in>set new. fresh u" by blast
      with fu show ?thesis by (intro exI [of _ "u # new"]) simp
    qed
  qed
qed

lemma fetch_users_ids:
  assumes "echoes env self ids0" "set ids \<subseteq> set ids0"
  shows "fetch_users env self ids acc w = (Inr users, w') \<Longrightarrow>
   \<exists>new. users = acc @ new \<and>
     subseq (map (\<lambda>u. dict_item u ''id'') new) (map Inr ids)"
  using assms(2)
proof (induction ids arbitrary: acc w)
  case Nil
  then show ?case by simp
next
  case (Cons i ids)
  obtain r1 w1 where g: "get_user_data env self i w = (r1, w1)"
    by (cases "get_user_data env self i w")
  from Cons.prems have sub: "set ids \<subseteq> set ids0" and i: "i \<in> set ids0" by simp_all
  show ?case
  proof (cases r1)
    case (Inl e)
    with g Cons.prems show ?thesis by simp
  next
    case (Inr o1)
    show ?thesis
    proof (cases o1)
      case None
      with Inr g Cons.prems have "fetch_users env self ids acc w1 = (Inr users, w')" by simp
      from Cons.IH [OF this sub] obtain new where
        "users = acc @ new"
        "subseq (map (\<lambda>u. dict_item u ''id'') new) (map Inr ids)"
        by blast
      then show ?thesis by (intro exI [of _ new]) (simp add: list_emb_Cons)
    next
      case (Some u)
      with Inr g have gu: "get_user_data env self i w = (Inr (Some u), w1)" by simp
      from get_user_data_shape [OF gu] obtain resp api where
        fu: "fresh u" and
        r: "requests_get env (length w) (user_url env self i) = Inr resp" "status_code resp = 200"
           "json_body resp = Inr api" "getitem api ''id'' = dict_item u ''id''"
        by blast
      from fresh_key(1) [OF fu] obtain v where v: "map_of u ''id'' = Some v" by blast
      with r assms(1) i have "v = i"
        unfolding echoes_def by (metis dict_item_Some)
      with v have uid: "dict_item u ''id'' = Inr i" by simp
      from gu Cons.prems fu
      have "fetch_users env self ids (acc @ [u]) w1 = (Inr users, w')"
        by (simp add: fresh_truthy)
      from Cons.IH [OF this sub] obtain new where
        "users = (acc @ [u]) @ new"
        "subseq (map (\<lambda>u. dict_item u ''id'') new) (map Inr ids)"
        by blast
      with uid show ?thesis by (intro exI [of _ "u # new"]) simp
    qed
  qed
qed

lemma ai_try_world:
  "ai_try env self user w = (r, w') \<Longrightarrow> w' = w \<or> (\<exists>vals. w' = w @ [ChatCreate vals])"
  by (auto simp: ai_try_def split: option.splits sum.splits)

lemma generate_ai_news_log:
  assumes "generate_ai_news env self user w = (r, w')"
  shows "\<exists>evs. w' = w @ evs \<and> requested evs = [] \<and> written evs = []"
proof -
  obtain r1 w1 where t: "ai_try env self user w = (r1, w1)"
    by (cases "ai_try env self user w")
  with assms have w': "w' = w1"
    by (cases r1) (simp_all add: generate_ai_news_def)
  from ai_try_world [OF t] show ?thesis
  proof
    assume "w1 = w"
    with \<open>w' = w1\<close> show ?thesis by (intro exI [of _ "[]"]) simp
  next
    assume "\<exists>vals. w1 = w @ [ChatCreate vals]"
    then obtain vals where "w1 = w @ [ChatCreate vals]" ..
    with \<open>w' = w1\<close> show ?thesis by (intro exI [of _ "[ChatCreate vals]"]) simp
  qed
qed

lemma ai_try_unreachable:
  assumes "\<forall>t k vals. \<exists>e. chat_create env t k vals = Inl e"
  shows "\<exists>e w'. ai_try env self user w = (Inl e, w')"
proof (cases "openai_client env (openai_api_key self)")
  case (Some e)
  then show ?thesis by (simp add: ai_try_def)
next
  case None
  show ?thesis
  proof (cases "prompt_values user")
    case (Inl e)
    with None show ?thesis by (simp add: ai_try_def)
  next
    case (Inr vals)
    from assms obtain e where "chat_create env (length w) (openai_api_key self) vals = Inl e"
      by blast
    with None Inr show ?thesis by (simp add: ai_try_def)
  qed
qed

lemma generate_ai_news_total:
  assumes "map_of user ''name'' = Some v"
  shows "\<exists>m w'. generate_ai_news env self user w = (Inr m, w')"
proof -
  obtain r1 w1 where t: "ai_try env self user w = (r1, w1)"
    by (cases "ai_try env self user w")
  with assms show ?thesis
    by (cases r1) (simp_all add: generate_ai_news_def)
qed

lemma generate_ai_news_unreachable:
  assumes "\<forall>t k vals. \<exists>e. chat_create env t k vals = Inl e" "map_of user ''name'' = Some v"
    "generate_ai_news env self user w = (Inr m, w')"
  shows "m = py_str (repr env) v @ fallback_suffix"
proof -
  from ai_try_unreachable [OF assms(1)] obtain e w1 where "ai_try env self user w = (Inl e, w1)"
    by blast
  with assms(2,3) show ?thesis by (simp add: generate_ai_news_def)
qed

lemma transform_users_log:
  "transform_users env self users acc w = (r, w') \<Longrightarrow>
   \<exists>evs. w' = w @ evs \<and> requested evs = [] \<and> written evs = []"
proof (induction users arbitrary: acc w)
  case Nil
  then show ?case by (intro exI [of _ "[]"]) simp
next
  case (Cons u users)
  show ?case
  proof (cases "map_of u ''name''")
    case None
    with Cons.prems show ?thesis by (intro exI [of _ "[]"]) simp
  next
    case (Some v)
    obtain r1 w1 where g: "generate_ai_news env self u w = (r1, w1)"
      by (cases "generate_ai_news env self u w")
    from generate_ai_news_log [OF g] obtain e1 where
      e1: "w1 = w @ e1" "requested e1 = []" "written e1 = []" by blast
    show ?thesis
    proof (cases r1)
      case (Inl e)
      with Some g Cons.prems have "w' = w1" by simp
      with e1 show ?thesis by (intro exI [of _ e1]) simp
    next
      case (Inr m)
      with Some g Cons.prems obtain acc1 where
        "transform_users env self users acc1 w1 = (r, w')" by simp
      from Cons.IH [OF this] obtain e2 where
        "w' = w1 @ e2" "requested e2 = []" "written e2 = []" by blast
      with e1 show ?thesis by (intro exI [of _ "e1 @ e2"]) simp
    qed
  qed
qed

lemma transform_users_result:
  "transform_users env self users acc w = (Inr processed, w') \<Longrightarrow>
   \<exists>new. processed = acc @ new \<and>
     list_all2 (\<lambda>u p. \<exists>m w0 w1. generate_ai_news env self u w0 = (Inr m, w1) \<and>
                  p = dict_set u ''ai_generated_message'' (PStr m)) users new"
proof (induction users arbitrary: acc w)
  case Nil
  then show ?case by simp
next
  case (Cons u users)
  from Cons.prems obtain v where v: "map_of u ''name'' = Some v"
    by (cases "map_of u ''name''") simp_all
  obtain r1 w1 where g: "generate_ai_news env self u w = (r1, w1)"
    by (cases "generate_ai_news env self u w")
  with v Cons.prems obtain m where m: "r1 = Inr m"
    by (cases r1) simp_all
  with v g Cons.prems
  have "transform_users env self users
          (acc @ [dict_set u ''ai_generated_message'' (PStr m)]) w1 = (Inr processed, w')"
    by simp
  from Cons.IH [OF this] obtain new where
    new: "processed = (acc @ [dict_set u ''ai_generated_message'' (PStr m)]) @ new"
      "list_all2 (\<lambda>u p. \<exists>m w0 w1. generate_ai_news env self u w0 = (Inr m, w1) \<and>
                  p = dict_set u ''ai_generated_message'' (PStr m)) users new"
    by blast
  from g m have "\<exists>m' w0 w1. generate_ai_news env self u w0 = (Inr m', w1) \<and>
      dict_set u ''ai_generated_message'' (PStr m) = dict_set u ''ai_generated_message'' (PStr m')"
    by blast
  with new show ?case
    by (intro exI [of _ "dict_set u ''ai_generated_message'' (PStr m) # new"]) simp
qed

lemma transform_users_total:
  "\<forall>u\<in>set users. \<exists>v. map_of u ''name'' = Some v \<Longrightarrow>
   \<exists>processed w'. transform_users env self users acc w = (Inr processed, w')"
proof (induction users arbitrary: acc w)
  case Nil
  then show ?case by simp
next
  case (Cons u users)
  then obtain v where v: "map_of u ''name'' = Some v" by auto
  from generate_ai_news_total [OF v] obtain m w1 where
    "generate_ai_news env self u w = (Inr m, w1)" by blast
  with v Cons show ?case by simp
qed

lemma written_user_ids_append [simp]:
  "written_user_ids (a @ b) = written_user_ids a @ written_user_ids b"
  by (simp add: written_user_ids_def)

lemma written_reports_append [simp]:
  "written_reports (a @ b) = written_reports a @ written_reports b"
  by (simp add: written_reports_def)

lemma written_Nil_observations:
  "written evs = [] \<Longrightarrow> written_user_ids evs = [] \<and> written_reports evs = []"
  by (simp add: written_user_ids_def written_reports_def)

lemma is_user_file_user_filename [simp]: "is_user_file (user_filename env v t)"
  by (simp add: is_user_file_def user_filename_def)

lemma user_filename_not_report [simp]: "user_filename env v t \<noteq> ''etl_report.json''"
  by (simp add: user_filename_def)

lemma report_not_user_file [simp]: "\<not> is_user_file ''etl_report.json''"
  by (simp add: is_user_file_def)

lemma update_try_no_list:
  assumes "\<not> has_news_list user" "update_try env user message w = (r, user', w')"
  shows "user' = user \<and> (w' = w \<or> w' = w @ [Now]) \<and> (\<exists>e. r = Inl e)"
proof (cases "map_of user ''news''")
  case None
  with assms(2) show ?thesis by (auto simp: update_try_def)
next
  case (Some news)
  with assms(1) have nl: "\<And>x. list_append news x = Inl AttributeError"
    by (cases news) (simp_all add: has_news_list_def)
  show ?thesis
  proof (cases "py_len news")
    case (Inl e)
    with Some assms(2) show ?thesis by (auto simp: update_try_def)
  next
    case (Inr n)
    with Some assms(2) nl show ?thesis by (auto simp: update_try_def Let_def)
  qed
qed

lemma update_user_data_log:
  assumes "update_user_data env user message w = (r, user', w')"
  shows "\<exists>evs. w' = w @ evs \<and> requested evs = [] \<and> written_reports evs = [] \<and>
     map_of user' ''id'' = map_of user ''id'' \<and>
     (written_user_ids evs = [] \<or> written_user_ids evs = [dict_item user ''id''])"
proof -
  obtain r0 where t: "update_try env user message w = (r0, user', w')"
    using assms by (cases "update_try env user message w") (auto simp: update_user_data_def split: sum.splits)
  show ?thesis
  proof (cases "has_news_list user")
    case False
    from update_try_no_list [OF False t] have u: "user' = user" and "w' = w \<or> w' = w @ [Now]"
      by simp_all
    from this(2) show ?thesis
    proof
      assume "w' = w"
      with u show ?thesis by (intro exI [of _ "[]"]) (simp add: written_user_ids_def written_reports_def)
    next
      assume "w' = w @ [Now]"
      with u show ?thesis by (intro exI [of _ "[Now]"]) (simp add: written_user_ids_def written_reports_def)
    qed
  next
    case True
    let ?u = "dict_set user ''news'' (PList (news_of user @
       [news_item (length (news_of user)) (isoformat (datetime_now env (length w))) message]))"
    obtain r1 w1 where s: "save_user_update env ?u (w @ [Now]) = (r1, w1)"
      by (cases "save_user_update env ?u (w @ [Now])")
    from t s have u: "user' = ?u" and w: "w' = w1"
      unfolding update_try_news_list [OF has_news_list_news_of [OF True]] Let_def
      by (simp_all split: sum.splits)
    have id: "map_of user' ''id'' = map_of user ''id''"
      unfolding u by simp
    from save_user_update_log [OF s] obtain evs where
      evs: "w1 = (w @ [Now]) @ evs" "requested evs = []"
        "if r1 = Inr ()
         then \<exists>v. map_of ?u ''id'' = Some v \<and>
                written evs = [(user_filename env v (datetime_now env (length (w @ [Now]))), PDict ?u)]
         else written evs = []"
      by blast
    have "written_reports evs = [] \<and>
      (written_user_ids evs = [] \<or> written_user_ids evs = [dict_item user ''id''])"
    proof (cases "r1 = Inr ()")
      case False
      with evs(3) show ?thesis by (simp add: written_Nil_observations)
    next
      case True
      with evs(3) obtain v where "map_of ?u ''id'' = Some v"
        "written evs = [(user_filename env v (datetime_now env (length (w @ [Now]))), PDict ?u)]"
        by auto
      then show ?thesis
        by (simp add: written_user_ids_def written_reports_def)
    qed
    with evs(1,2) w id show ?thesis
      by (intro exI [of _ "[Now] @ evs"]) (simp add: written_user_ids_def written_reports_def)
  qed
qed

lemma load_users_log:
  "load_users env users acc k w = (r, w') \<Longrightarrow>
   \<exists>evs. w' = w @ evs \<and> requested evs = [] \<and> written_reports evs = [] \<and>
     subseq (written_user_ids evs) (map (\<lambda>u. dict_item u ''id'') users)"
proof (induction users arbitrary: acc k w)
  case Nil
  then show ?case by (intro exI [of _ "[]"]) (simp add: written_user_ids_def written_reports_def)
next
  case (Cons u users)
  show ?case
  proof (cases "map_of u ''ai_generated_message''")
    case None
    with Cons.prems show ?thesis
      by (intro exI [of _ "[]"]) (simp add: written_user_ids_def written_reports_def)
  next
    case (Some m)
    obtain b u' w1 where up: "update_user_data env u m w = (Inr b, u', w1)"
      using update_user_data_total by blast
    from update_user_data_log [OF up] obtain e1 where
      e1: "w1 = w @ e1" "requested e1 = []" "written_reports e1 = []"
        "written_user_ids e1 = [] \<or> written_user_ids e1 = [dict_item u ''id'']"
      by blast
    from Some up Cons.prems obtain acc1 k1 where
      "load_users env users acc1 k1 w1 = (r, w')" by simp
    from Cons.IH [OF this] obtain e2 where
      e2: "w' = w1 @ e2" "requested e2 = []" "written_reports e2 = []"
        "subseq (written_user_ids e2) (map (\<lambda>u. dict_item u ''id'') users)"
      by blast
    from e1(4) e2(4)
    have "subseq (written_user_ids e1 @ written_user_ids e2)
            (dict_item u ''id'' # map (\<lambda>u. dict_item u ''id'') users)"
      by (auto simp: list_emb_Cons)
    with e1 e2 show ?thesis by (intro exI [of _ "e1 @ e2"]) simp
  qed
qed

lemma load_users_result:
  "load_users env users acc k w = (Inr (loaded, n), w') \<Longrightarrow>
   \<exists>new. loaded = acc @ new \<and>
     list_all2 (\<lambda>p l. \<exists>m b w0 w1. map_of p ''ai_generated_message'' = Some m \<and>
                  update_user_data env p m w0 = (Inr b, l, w1)) users new \<and>
     n = k + length (filter (\<lambda>r. r = Inr True) (update_flags env users w)) \<and>
     length (update_flags env users w) = length users"
proof (induction users arbitrary: acc k w)
  case Nil
  then show ?case by simp
next
  case (Cons u users)
  from Cons.prems obtain m where m: "map_of u ''ai_generated_message'' = Some m"
    by (cases "map_of u ''ai_generated_message''") simp_all
  obtain b u' w1 where up: "update_user_data env u m w = (Inr b, u', w1)"
    using update_user_data_total by blast
  with m Cons.prems
  have "load_users env users (acc @ [u']) (if b then k + 1 else k) w1 = (Inr (loaded, n), w')"
    by simp
  from Cons.IH [OF this] obtain new where
    new: "loaded = (acc @ [u']) @ new"
      "list_all2 (\<lambda>p l. \<exists>m b w0 w1. map_of p ''ai_generated_message'' = Some m \<and>
                  update_user_data env p m w0 = (Inr b, l, w1)) users new"
      "n = (if b then k + 1 else k) + length (filter (\<lambda>r. r = Inr True) (update_flags env users w1))"
      "length (update_flags env users w1) = length users"
    by blast
  from m up have here: "\<exists>m b w0 w1. map_of u ''ai_generated_message'' = Some m \<and>
      update_user_data env u m w0 = (Inr b, u', w1)"
    by blast
  from m up have flags: "update_flags env (u # users) w = Inr b # update_flags env users w1"
    by simp
  show ?case
  proof (intro exI [of _ "u' # new"] conjI)
    show "loaded = acc @ u' # new" using new(1) by simp
    show "list_all2 (\<lambda>p l. \<exists>m b w0 w1. map_of p ''ai_generated_message'' = Some m \<and>
                  update_user_data env p m w0 = (Inr b, l, w1)) (u # users) (u' # new)"
      using here new(2) by simp
    show "n = k + length (filter (\<lambda>r. r = Inr True) (update_flags env (u # users) w))"
      unfolding flags using new(3) by simp
    show "length (update_flags env (u # users) w) = length (u # users)"
      unfolding flags using new(4) by simp
  qed
qed

lemma load_users_total:
  "\<forall>u\<in>set users. \<exists>m. map_of u ''ai_generated_message'' = Some m \<Longrightarrow>
   \<exists>loaded n w'. load_users env users acc k w = (Inr (loaded, n), w')"
proof (induction users arbitrary: acc k w)
  case Nil
  then show ?case by simp
next
  case (Cons u users)
  then obtain m where m: "map_of u ''ai_generated_message'' = Some m" by auto
  obtain b u' w1 where "update_user_data env u m w = (Inr b, u', w1)"
    using update_user_data_total by blast
  with m Cons show ?case by simp
qed

lemma smap_map:
  "\<forall>x\<in>set xs. f x = Inr (g x) \<Longrightarrow> smap f xs = Inr (map g xs)"
  by (induction xs) simp_all

lemma smap_all2:
  "\<forall>x\<in>set xs. \<exists>y. f x = Inr y \<and> P x y \<Longrightarrow> \<exists>ys. smap f xs = Inr ys \<and> list_all2 P xs ys"
proof (induction xs)
  case Nil
  then show ?case by simp
next
  case (Cons x xs)
  then obtain y ys where "f x = Inr y" "P x y" "smap f xs = Inr ys" "list_all2 P xs ys"
    by auto
  then show ?case by (intro exI [of _ "y # ys"]) simp
qed

lemma has_news_list_get:
  assumes "has_news_list user"
  shows "dict_get user ''news'' d = PList (news_of user)"
  using has_news_list_news_of [OF assms] by (simp add: dict_get_def)

lemma messages_count_news:
  "has_news_list user \<Longrightarrow> messages_count user = Inr (length (news_of user))"
  by (simp add: messages_count_def has_news_list_get)

lemma truthy_news:
  "has_news_list user \<Longrightarrow> truthy (dict_get user ''news'' PNone) = (news_of user \<noteq> [])"
  by (simp add: has_news_list_get)

lemma summary_entry_reportable:
  assumes "reportable user"
  shows "\<exists>entry. summary_entry user = Inr entry \<and>
     getitem entry ''user_id'' = dict_item user ''id'' \<and>
     getitem entry ''user_name'' = dict_item user ''name'' \<and>
     getitem entry ''messages_count'' = Inr (PInt (int (length (news_of user))))"
proof -
  from assms obtain v_id v_name where
    v: "map_of user ''id'' = Some v_id" "map_of user ''name'' = Some v_name" and
    nl: "has_news_list user" and
    last: "news_of user = [] \<or>
       (case getitem (last (news_of user)) ''description'' of Inr v \<Rightarrow> True | Inl e \<Rightarrow> False)"
    by (auto simp: reportable_def)
  have "\<exists>m. last_message user = Inr m"
  proof (cases "news_of user = []")
    case True
    with nl show ?thesis by (simp add: last_message_def truthy_news)
  next
    case False
    with last obtain m where "getitem (last (news_of user)) ''description'' = Inr m"
      by (cases "getitem (last (news_of user)) ''description''") simp_all
    with False nl has_news_list_news_of [OF nl] show ?thesis
      by (simp add: last_message_def truthy_news)
  qed
  then obtain m where "last_message user = Inr m" ..
  with v nl show ?thesis
    by (simp add: summary_entry_def messages_count_news)
qed

lemma build_report_reportable:
  assumes "\<forall>u\<in>set users. reportable u"
  shows "\<exists>summary.
     list_all2 (\<lambda>u entry. getitem entry ''user_id'' = dict_item u ''id'' \<and>
        getitem entry ''user_name'' = dict_item u ''name'' \<and>
        getitem entry ''messages_count'' = Inr (PInt (int (length (news_of u))))) users summary \<and>
     build_report ts users = Inr (PDict
         [(''timestamp'', PStr ts),
          (''total_users_processed'', PInt (int (length users))),
          (''users_with_news'', PInt (int (length (filter (\<lambda>u. news_of u \<noteq> []) users)))),
          (''total_messages_generated'', PInt (int (sum_list (map (\<lambda>u. length (news_of u)) users)))),
          (''processing_summary'', PList summary)])"
proof -
  from assms have nl: "\<forall>u\<in>set users. has_news_list u"
    by (simp add: reportable_def)
  then have lens: "smap messages_count users = Inr (map (\<lambda>u. length (news_of u)) users)"
    by (intro smap_map) (simp add: messages_count_news)
  from nl have f: "filter (\<lambda>user. truthy (dict_get user ''news'' PNone)) users =
      filter (\<lambda>u. news_of u \<noteq> []) users"
    by (intro filter_cong) (simp_all add: truthy_news)
  from assms have "\<forall>u\<in>set users. \<exists>entry. summary_entry u = Inr entry \<and>
     (getitem entry ''user_id'' = dict_item u ''id'' \<and>
      getitem entry ''user_name'' = dict_item u ''name'' \<and>
      getitem entry ''messages_count'' = Inr (PInt (int (length (news_of u)))))"
    using summary_entry_reportable by blast
  from smap_all2 [OF this] obtain summary where
    "smap summary_entry users = Inr summary"
    "list_all2 (\<lambda>u entry. getitem entry ''user_id'' = dict_item u ''id'' \<and>
        getitem entry ''user_name'' = dict_item u ''name'' \<and>
        getitem entry ''messages_count'' = Inr (PInt (int (length (news_of u))))) users summary"
    by blast
  with lens f show ?thesis
    by (intro exI [of _ summary]) (simp add: build_report_def)
qed

lemma sum_list_ones:
  "\<forall>x\<in>set xs. f x = (1::nat) \<Longrightarrow> sum_list (map f xs) = length xs"
  by (induction xs) simp_all

lemma list_all2_with_set:
  "list_all2 P xs ys \<Longrightarrow> \<forall>x\<in>set xs. Q x \<Longrightarrow> list_all2 (\<lambda>x y. Q x \<and> P x y) xs ys"
  by (induction rule: list_all2_induct) auto

lemma list_all2_right_set:
  "list_all2 P xs ys \<Longrightarrow> y \<in> set ys \<Longrightarrow> \<exists>x\<in>set xs. P x y"
  by (induction rule: list_all2_induct) auto

lemma list_all2_map_eq:
  "list_all2 (\<lambda>x y. f x = g y) xs ys \<Longrightarrow> map f xs = map g ys"
  by (induction rule: list_all2_induct) auto

lemma generate_report_log:
  assumes "generate_report env users w = (r, w')"
  shows "\<exists>evs. w' = w @ evs \<and> requested evs = [] \<and> written_user_ids evs = [] \<and>
     (if r = Inr ()
      then \<exists>report. build_report (isoformat (datetime_now env (length w))) users = Inr report \<and>
             written_reports evs = [report]
      else written_reports evs = [])"
proof (cases "build_report (isoformat (datetime_now env (length w))) users")
  case (Inl e)
  with assms have "w' = w @ [Now]" "r = Inl e"
    by (simp_all add: generate_report_def)
  then show ?thesis
    by (intro exI [of _ "[Now]"]) (simp add: written_user_ids_def written_reports_def)
next
  case (Inr report)
  with assms have "write_json env ''etl_report.json'' report (w @ [Now]) = (r, w')"
    by (simp add: generate_report_def)
  from write_json_log [OF this] obtain evs where
    evs: "w' = (w @ [Now]) @ evs" "requested evs = []"
      "if r = Inr () then written evs = [(''etl_report.json'', report)] else written evs = []"
    by blast
  show ?thesis
  proof (intro exI [of _ "[Now] @ evs"] conjI)
    show "w' = w @ [Now] @ evs" using evs(1) by simp
    show "requested ([Now] @ evs) = []" using evs(2) by simp
    show "written_user_ids ([Now] @ evs) = []"
      using evs(3) by (simp add: written_user_ids_def split: if_splits)
    show "if r = Inr ()
      then \<exists>report. build_report (isoformat (datetime_now env (length w))) users = Inr report \<and>
             written_reports ([Now] @ evs) = [report]
      else written_reports ([Now] @ evs) = []"
      using evs(3) Inr by (simp add: written_reports_def split: if_splits)
  qed
qed

lemma loaded_shape:
  assumes "fresh u" "map_of (dict_set u ''ai_generated_message'' (PStr m)) ''ai_generated_message'' = Some m'"
    "update_user_data env (dict_set u ''ai_generated_message'' (PStr m)) m' w = (Inr b, l, w')"
  shows "l = dict_set (dict_set u ''ai_generated_message'' (PStr m)) ''news''
               (PList [news_item 0 (isoformat (datetime_now env (length w))) (PStr m)])"
proof -
  let ?p = "dict_set u ''ai_generated_message'' (PStr m)"
  from assms(2) have m': "m' = PStr m" by simp
  from fresh_key(3) [OF assms(1)] have news: "map_of ?p ''news'' = Some (PList [])"
    by simp
  obtain r0 where "update_try env ?p m' w = (r0, l, w')"
    using assms(3)
    by (cases "update_try env ?p m' w") (auto simp: update_user_data_def split: sum.splits)
  then show ?thesis
    unfolding update_try_news_list [OF news] Let_def m'
    by (simp split: prod.splits sum.splits)
qed

lemma shaped_facts:
  assumes "fresh u"
    "l = dict_set (dict_set u ''ai_generated_message'' (PStr m)) ''news'' (PList [news_item 0 d (PStr m)])"
  shows "reportable l" "news_of l = [news_item 0 d (PStr m)]"
    "map_of l ''id'' = map_of u ''id''" "map_of l ''name'' = map_of u ''name''"
    "map_of l ''ai_generated_message'' = Some (PStr m)"
proof -
  show n: "news_of l = [news_item 0 d (PStr m)]" unfolding assms(2) by simp
  show i: "map_of l ''id'' = map_of u ''id''" unfolding assms(2) by simp
  show nm: "map_of l ''name'' = map_of u ''name''" unfolding assms(2) by simp
  show "map_of l ''ai_generated_message'' = Some (PStr m)" unfolding assms(2) by simp
  have "has_news_list l" unfolding assms(2) by (simp add: has_news_list_def)
  with n i nm fresh_key(1,2) [OF assms(1)] show "reportable l"
    by (auto simp: reportable_def news_item_fields)
qed

lemma run_success:
  assumes "run_etl_pipeline env self p w = (Inr (Some loaded), w')"
  shows "\<exists>ids w1 users w2 processed w3 n w4 w5.
     extract_users_from_csv env p w = (Inr ids, w1) \<and> ids \<noteq> [] \<and>
     fetch_users env self ids [] w1 = (Inr users, w2) \<and>
     transform_users env self users [] w2 = (Inr processed, w3) \<and>
     load_users env processed [] 0 w3 = (Inr (loaded, n), w4) \<and>
     generate_report env loaded w4 = (Inr (), w5) \<and>
     w' = w5 @ [Console (Summary n (length loaded))]"
  using assms
  by (auto simp: run_etl_pipeline_def split: prod.splits sum.splits if_splits)

lemma phases_shape:
  assumes "\<forall>u\<in>set users. fresh u"
    "transform_users env self users [] w2 = (Inr processed, w3)"
    "load_users env processed [] k w3 = (Inr (loaded, n), w4)"
  shows "list_all2 (\<lambda>u l. \<exists>m d w0 w1. fresh u \<and> generate_ai_news env self u w0 = (Inr m, w1) \<and>
           l = dict_set (dict_set u ''ai_generated_message'' (PStr m)) ''news''
                 (PList [news_item 0 d (PStr m)])) users loaded"
proof -
  from transform_users_result [OF assms(2)]
  have "list_all2 (\<lambda>u p. \<exists>m w0 w1. generate_ai_news env self u w0 = (Inr m, w1) \<and>
                  p = dict_set u ''ai_generated_message'' (PStr m)) users processed"
    by simp
  from list_all2_with_set [OF this assms(1)]
  have t: "list_all2 (\<lambda>u p. fresh u \<and> (\<exists>m w0 w1. generate_ai_news env self u w0 = (Inr m, w1) \<and>
                  p = dict_set u ''ai_generated_message'' (PStr m))) users processed" .
  from load_users_result [OF assms(3)]
  have l: "list_all2 (\<lambda>p l. \<exists>m b w0 w1. map_of p ''ai_generated_message'' = Some m \<and>
                  update_user_data env p m w0 = (Inr b, l, w1)) processed loaded"
    by simp
  show ?thesis
  proof (rule list_all2_trans [OF _ t l])
    fix u p l
    assume "fresh u \<and> (\<exists>m w0 w1. generate_ai_news env self u w0 = (Inr m, w1) \<and>
                  p = dict_set u ''ai_generated_message'' (PStr m))"
    then obtain m w0 w1 where fu: "fresh u" and
      g: "generate_ai_news env self u w0 = (Inr m, w1)" and
      p: "p = dict_set u ''ai_generated_message'' (PStr m)"
      by blast
    assume "\<exists>m b w0 w1. map_of p ''ai_generated_message'' = Some m \<and>
                  update_user_data env p m w0 = (Inr b, l, w1)"
    then obtain m' b w0' w1' where
      "map_of p ''ai_generated_message'' = Some m'"
      "update_user_data env p m' w0' = (Inr b, l, w1')"
      by blast
    from loaded_shape [OF fu this [unfolded p]]
    have "l = dict_set (dict_set u ''ai_generated_message'' (PStr m)) ''news''
               (PList [news_item 0 (isoformat (datetime_now env (length w0'))) (PStr m)])" .
    with fu g show "\<exists>m d w0 w1. fresh u \<and> generate_ai_news env self u w0 = (Inr m, w1) \<and>
           l = dict_set (dict_set u ''ai_generated_message'' (PStr m)) ''news''
                 (PList [news_item 0 d (PStr m)])"
      by blast
  qed
qed

lemma run_users_shape:
  assumes "run_etl_pipeline env self p w = (Inr (Some loaded), w')" "l \<in> set loaded"
  shows "\<exists>u m d w0 w1. fresh u \<and> generate_ai_news env self u w0 = (Inr m, w1) \<and>
           l = dict_set (dict_set u ''ai_generated_message'' (PStr m)) ''news''
                 (PList [news_item 0 d (PStr m)])"
proof -
  from run_success [OF assms(1)] obtain ids w1 users w2 processed w3 n w4 where
    f: "fetch_users env self ids [] w1 = (Inr users, w2)" and
    t: "transform_users env self users [] w2 = (Inr processed, w3)" and
    ld: "load_users env processed [] 0 w3 = (Inr (loaded, n), w4)"
    by blast
  from fetch_users_fresh [OF f] have "\<forall>u\<in>set users. fresh u" by simp
  from list_all2_right_set [OF phases_shape [OF this t ld] assms(2)]
  show ?thesis by blast
qed

lemma build_report_fields:
  assumes "build_report ts users = Inr report" "\<forall>u\<in>set users. has_news_list u"
  shows "getitem report ''total_users_processed'' = Inr (PInt (int (length users)))"
    "getitem report ''users_with_news'' =
       Inr (PInt (int (length (filter (\<lambda>u. news_of u \<noteq> []) users))))"
    "getitem report ''total_messages_generated'' =
       Inr (PInt (int (sum_list (map (\<lambda>u. length (news_of u)) users))))"
proof -
  from assms(2) have lens: "smap messages_count users = Inr (map (\<lambda>u. length (news_of u)) users)"
    by (intro smap_map) (simp add: messages_count_news)
  from assms(2) have f: "filter (\<lambda>user. truthy (dict_get user ''news'' PNone)) users =
      filter (\<lambda>u. news_of u \<noteq> []) users"
    by (intro filter_cong) (simp_all add: truthy_news)
  from assms(1) obtain summary where
    r: "report = PDict
         [(''timestamp'', PStr ts),
          (''total_users_processed'', PInt (int (length users))),
          (''users_with_news'', PInt (int (length (filter (\<lambda>u. news_of u \<noteq> []) users)))),
          (''total_messages_generated'', PInt (int (sum_list (map (\<lambda>u. length (news_of u)) users)))),
          (''processing_summary'', PList summary)]"
    unfolding build_report_def lens f sbind_Inr sbind_eq_Inr by blast
  show "getitem report ''total_users_processed'' = Inr (PInt (int (length users)))"
    unfolding r by simp
  show "getitem report ''users_with_news'' =
       Inr (PInt (int (length (filter (\<lambda>u. news_of u \<noteq> []) users))))"
    unfolding r by simp
  show "getitem report ''total_messages_generated'' =
       Inr (PInt (int (sum_list (map (\<lambda>u. length (news_of u)) users))))"
    unfolding r by simp
qed

lemma summary_entry_count:
  assumes "summary_entry user = Inr entry" "has_news_list user"
  shows "getitem entry ''messages_count'' = Inr (PInt (int (length (news_of user))))"
proof -
  from assms(1) obtain v_id v_name m where
    "entry = PDict [(''user_id'', v_id), (''user_name'', v_name),
                    (''messages_count'', PInt (int (length (news_of user)))), (''last_message'', m)]"
    unfolding summary_entry_def messages_count_news [OF assms(2)] sbind_Inr sbind_eq_Inr
    by blast
  then show ?thesis by simp
qed

lemma demo_run_value:
  "(case run_etl_pipeline demo_env (init ''key'') ''SDW2023.csv'' [] of
      (Inr (Some loaded), w) \<Rightarrow>
        map (\<lambda>l. map_of l ''name'') loaded =
          [Some (PStr ''Leanne Graham''), Some (PStr ''Ervin Howell'')] \<and>
        last w = Console (Summary 2 2) \<and>
        written_user_ids w = [Inr (PInt 1), Inr (PInt 2)] \<and>
        requested w = [''https://jsonplaceholder.typicode.com/users/1'',
                       ''https://jsonplaceholder.typicode.com/users/2'',
                       ''https://jsonplaceholder.typicode.com/users/7''] \<and>
        map summary_ids (written_reports w) = [[Inr (PInt 1), Inr (PInt 2)]] \<and>
        map fst (written w) = [''user_updates/user_1_20250115_103000.json'',
                               ''user_updates/user_2_20250115_103000.json'',
                               ''etl_report.json'']
    | _ \<Rightarrow> False)"
  by code_simp

lemma demo_run_facts:
  "\<exists>loaded w. run_etl_pipeline demo_env (init ''key'') ''SDW2023.csv'' [] = (Inr (Some loaded), w) \<and>
     map (\<lambda>l. map_of l ''name'') loaded =
       [Some (PStr ''Leanne Graham''), Some (PStr ''Ervin Howell'')] \<and>
     last w = Console (Summary 2 2) \<and>
     written_user_ids w = [Inr (PInt 1), Inr (PInt 2)] \<and>
     requested w = [''https://jsonplaceholder.typicode.com/users/1'',
                    ''https://jsonplaceholder.typicode.com/users/2'',
                    ''https://jsonplaceholder.typicode.com/users/7''] \<and>
     map summary_ids (written_reports w) = [[Inr (PInt 1), Inr (PInt 2)]] \<and>
     map fst (written w) = [''user_updates/user_1_20250115_103000.json'',
                            ''user_updates/user_2_20250115_103000.json'',
                            ''etl_report.json'']"
proof (cases "run_etl_pipeline demo_env (init ''key'') ''SDW2023.csv'' []")
  case (Pair r w)
  with demo_run_value show ?thesis
    by (cases r) (simp_all split: option.splits)
qed

lemma demo_run_succeeds:
  "\<exists>loaded w. run_etl_pipeline demo_env (init ''key'') ''SDW2023.csv'' [] = (Inr (Some loaded), w)"
proof -
  from demo_run_facts obtain loaded w where
    "run_etl_pipeline demo_env (init ''key'') ''SDW2023.csv'' [] = (Inr (Some loaded), w)"
    by (elim exE conjE)
  then show ?thesis by (intro exI)
qed

lemma update_user_data_news_list:
  assumes "map_of user ''news'' = Some (PList ns)"
  shows "\<exists>b w'. update_user_data env user message w =
     (Inr b, dict_set user ''news'' (PList (ns @
        [news_item (length ns) (isoformat (datetime_now env (length w))) message])), w')"
proof -
  obtain b u' w' where u: "update_user_data env user message w = (Inr b, u', w')"
    using update_user_data_total by blast
  obtain r0 where "update_try env user message w = (r0, u', w')"
    using u
    by (cases "update_try env user message w") (auto simp: update_user_data_def split: sum.splits)
  then have "u' = dict_set user ''news'' (PList (ns @
        [news_item (length ns) (isoformat (datetime_now env (length w))) message]))"
    unfolding update_try_news_list [OF assms] Let_def
    by (simp split: prod.splits sum.splits)
  with u show ?thesis by blast
qed

lemma unwritable_run_value:
  "(case run_etl_pipeline unwritable_env (init ''key'') ''SDW2023.csv'' [] of
      (Inr (Some loaded), w) \<Rightarrow>
        length loaded = 2 \<and> last w = Console (Summary 0 2) \<and> written_user_ids w = [] \<and>
        map (\<lambda>r. getitem r ''users_with_news'') (written_reports w) = [Inr (PInt 2)] \<and>
        map (\<lambda>r. getitem r ''total_messages_generated'') (written_reports w) = [Inr (PInt 2)]
    | _ \<Rightarrow> False)"
  by code_simp

lemma unwritable_run:
  "\<exists>loaded w. run_etl_pipeline unwritable_env (init ''key'') ''SDW2023.csv'' [] = (Inr (Some loaded), w) \<and>
     length loaded = 2 \<and> last w = Console (Summary 0 2) \<and> written_user_ids w = [] \<and>
     map (\<lambda>r. getitem r ''users_with_news'') (written_reports w) = [Inr (PInt 2)] \<and>
     map (\<lambda>r. getitem r ''total_messages_generated'') (written_reports w) = [Inr (PInt 2)]"
proof (cases "run_etl_pipeline unwritable_env (init ''key'') ''SDW2023.csv'' []")
  case (Pair r w)
  with unwritable_run_value show ?thesis
    by (cases r) (simp_all split: option.splits)
qed

lemma unwritable_save:
  "save_user_update unwritable_env
     (dict_set demo_user ''news'' (PList (news_of demo_user @ [item]))) [Now] =
   (Inl OSError, [Now, Now, Makedirs ''user_updates'' (Some OSError)])"
  by (simp add: save_user_update_def unwritable_env_def demo_env_def demo_user_def Let_def)

lemma round_half_even_between:
  "\<lfloor>x\<rfloor> \<le> round_half_even x \<and> round_half_even x \<le> \<lceil>x\<rceil>"
proof -
  have "x - of_int \<lfloor>x\<rfloor> < 1 / 2 \<or> x \<noteq> of_int \<lfloor>x\<rfloor>"
    by auto
  then show ?thesis
    by (auto simp: round_half_even_def Let_def ceiling_altdef)
qed

lemma round_half_even_near: "\<bar>of_int (round_half_even x) - x\<bar> \<le> 1 / 2"
proof -
  define d where "d = x - of_int \<lfloor>x\<rfloor>"
  have d: "0 \<le> d" "d < 1"
    unfolding d_def by linarith+
  have x: "x = of_int \<lfloor>x\<rfloor> + d"
    unfolding d_def by simp
  consider "d < 1 / 2" | "1 / 2 < d" | "d = 1 / 2" by linarith
  then show ?thesis
  proof cases
    case 1
    then have "round_half_even x = \<lfloor>x\<rfloor>"
      by (simp add: round_half_even_def Let_def d_def)
    with 1 d x show ?thesis by (simp add: abs_if)
  next
    case 2
    then have "round_half_even x = \<lfloor>x\<rfloor> + 1"
      by (simp add: round_half_even_def Let_def d_def)
    with 2 d x show ?thesis by (simp add: abs_if)
  next
    case 3
    then have "round_half_even x = \<lfloor>x\<rfloor> \<or> round_half_even x = \<lfloor>x\<rfloor> + 1"
      by (simp add: round_half_even_def Let_def d_def)
    with 3 x show ?thesis by (auto simp: abs_if)
  qed
qed

lemma round2_bounds:
  assumes "of_int a \<le> x" "x \<le> of_int b"
  shows "of_int a \<le> round2 x" "round2 x \<le> of_int b"
proof -
  from assms have "a * 100 \<le> \<lfloor>x * 100\<rfloor>" "\<lceil>x * 100\<rceil> \<le> b * 100"
    by (simp_all add: le_floor_iff ceiling_le_iff)
  with round_half_even_between [of "x * 100"]
  have "a * 100 \<le> round_half_even (x * 100)" "round_half_even (x * 100) \<le> b * 100"
    by linarith+
  then have "of_int (a * 100) \<le> (of_int (round_half_even (x * 100)) :: rat)"
    "(of_int (round_half_even (x * 100)) :: rat) \<le> of_int (b * 100)"
    by (simp_all only: of_int_le_iff)
  then show "of_int a \<le> round2 x" "round2 x \<le> of_int b"
    by (simp_all add: round2_def field_simps)
qed

lemma round2_near: "\<bar>round2 x - x\<bar> \<le> 1 / 200"
proof -
  have "round2 x - x = (of_int (round_half_even (x * 100)) - x * 100) / 100"
    by (simp add: round2_def field_simps)
  then have "\<bar>round2 x - x\<bar> = \<bar>(of_int (round_half_even (x * 100)) - x * 100) / 100\<bar>"
    by (simp only:)
  also have "\<dots> = \<bar>of_int (round_half_even (x * 100)) - x * 100\<bar> / 100"
    by (simp add: abs_divide)
  finally show ?thesis
    using round_half_even_near [of "x * 100"] by simp
qed

lemma uniform_bounds:
  assumes "0 \<le> r" "r \<le> 1"
  shows "1000 \<le> uniform r 1000 50000" "uniform r 1000 50000 \<le> 50000"
  using assms by (simp_all add: uniform_def)

lemma length_str_nat: "n < 10 ^ k \<Longrightarrow> 0 < k \<Longrightarrow> length (str_nat n) \<le> k"
proof (induction n arbitrary: k rule: str_nat.induct)
  case (1 n)
  show ?case
  proof (cases "n < 10")
    case True
    with "1.prems" show ?thesis
      by (subst str_nat.simps) simp
  next
    case False
    with "1.prems" obtain k' where k: "k = Suc k'" "0 < k'"
      by (cases k; cases "k - 1") auto
    with "1.prems" have "n div 10 < 10 ^ k'"
      by (simp add: less_mult_imp_div_less mult.commute)
    from "1.IH" [OF False this k(2)] False k show ?thesis
      by (subst str_nat.simps) simp
  qed
qed

lemma length_zpad: "length s \<le> k \<Longrightarrow> length (zpad k s) = k"
  by (simp add: zpad_def)

lemma profile_fields_dict:
  assumes "map_of d ''id'' = Some v_id"
    "list_all (\<lambda>k. map_of d k \<noteq> None)
       [''name'', ''username'', ''email'', ''phone'', ''website'', ''address'', ''company'']"
  shows "\<exists>profile. profile_fields (PDict d) = Inr profile"
proof -
  from assms(2) obtain v2 v3 v4 v5 v6 v7 v8 where
    "map_of d ''name'' = Some v2" "map_of d ''username'' = Some v3"
    "map_of d ''email'' = Some v4" "map_of d ''phone'' = Some v5"
    "map_of d ''website'' = Some v6" "map_of d ''address'' = Some v7"
    "map_of d ''company'' = Some v8"
    by auto
  with assms(1) show ?thesis
    by (simp add: profile_fields_def)
qed

lemma user_account:
  assumes "get_user_data env self user_id w = (Inr (Some user), w')"
  shows "\<exists>resp api v_id s.
     requests_get env (length w) (user_url env self user_id) = Inr resp \<and> status_code resp = 200 \<and>
     json_body resp = Inr api \<and> getitem api ''id'' = Inr v_id \<and> fmt_04d v_id = Inr s \<and>
     map_of user ''id'' = Some v_id \<and>
     map_of user ''account'' =
       Some (PDict [(''number'', PStr (''001'' @ s)), (''agency'', PStr ''0001''),
                    (''balance'', PFloat (round2 (uniform (random_random env (Suc (length w))) 1000 50000))),
                    (''limit'', PFloat 5000)]) \<and>
     map_of user ''news'' = Some (PList [])"
proof -
  from get_user_data_Some [OF assms] obtain resp api profile number where
    r: "requests_get env (length w) (user_url env self user_id) = Inr resp" "status_code resp = 200"
       "json_body resp = Inr api" and
    p: "profile_fields api = Inr profile" and
    a: "account_number api = Inr number" and
    u: "user = profile @ [(''account'', account number (random_random env (Suc (length w)))),
                          (''news'', PList [])]"
    by blast
  from profile_fields_Inr [OF p] obtain v1 v2 v3 v4 v5 v6 v7 v8 where
    v: "getitem api ''id'' = Inr v1"
    "profile = [(''id'', v1), (''name'', v2), (''username'', v3), (''email'', v4),
                (''phone'', v5), (''website'', v6), (''address'', v7), (''company'', v8)]"
    by blast
  from a v(1) have "sbind (fmt_04d v1) (\<lambda>s. Inr (''001'' @ s)) = Inr number"
    by (simp add: account_number_def)
  then obtain s where s: "fmt_04d v1 = Inr s" "number = ''001'' @ s"
    unfolding sbind_eq_Inr by auto
  show ?thesis
  proof (rule exI [of _ resp], rule exI [of _ api], rule exI [of _ v1], rule exI [of _ s],
      intro conjI)
    show "map_of user ''id'' = Some v1" unfolding u v(2) by simp
    show "map_of user ''account'' =
       Some (PDict [(''number'', PStr (''001'' @ s)), (''agency'', PStr ''0001''),
                    (''balance'', PFloat (round2 (uniform (random_random env (Suc (length w))) 1000 50000))),
                    (''limit'', PFloat 5000)])"
      unfolding u v(2) s(2) by (simp add: account_def)
    show "map_of user ''news'' = Some (PList [])" unfolding u v(2) by simp
  qed (fact r v(1) s(1))+
qed

lemma demo_url_1: "user_url demo_env (init ''key'') (PInt 1) = ''https://jsonplaceholder.typicode.com/users/1''"
  by (simp add: user_url_def init_def str_int_def str_nat.simps digit_char_def)

lemma demo_url_3: "user_url demo_env (init ''key'') (PInt 3) = ''https://jsonplaceholder.typicode.com/users/3''"
  by (simp add: user_url_def init_def str_int_def str_nat.simps digit_char_def)

lemma demo_url_7: "user_url demo_env (init ''key'') (PInt 7) = ''https://jsonplaceholder.typicode.com/users/7''"
  by (simp add: user_url_def init_def str_int_def str_nat.simps digit_char_def)

lemma strip_examples:
  "strip ''  hi there  '' = ''hi there''"
  "strip ([CHR 0xC2, CHR 0xA0, CHR 0x0A] @ ''ol'' @ [CHR 0xC3, CHR 0xA1] @ [CHR 0xE2, CHR 0x80, CHR 0xA8, CHR 0x20]) = ''ol'' @ [CHR 0xC3, CHR 0xA1]"
  "strip '''' = ''''"
  "last_codepoint (''a'' @ [CHR 0xC3, CHR 0xB3]) = [CHR 0xC3, CHR 0xB3]"
  "last_codepoint ''ab'' = ''b''"
  by code_simp+

lemma demo_prompt:
  "prompt_values demo_user =
     Inr [PStr ''Leanne Graham'', PStr ''user@example.org'', PStr ''Romaguera-Crona'',
          PFloat (round2 (uniform (1 / 3) 1000 50000))]"
  by (simp add: prompt_values_def demo_user_def account_def)

lemma half_writable_run_value:
  "(case run_etl_pipeline half_writable_env (init ''key'') ''SDW2023.csv'' [] of
      (Inr (Some loaded), w) \<Rightarrow>
        length loaded = 2 \<and> last w = Console (Summary 1 2) \<and>
        written_user_ids w = [Inr (PInt 1)]
    | _ \<Rightarrow> False)"
  by code_simp

lemma half_writable_run:
  "\<exists>loaded w. run_etl_pipeline half_writable_env (init ''key'') ''SDW2023.csv'' [] = (Inr (Some loaded), w) \<and>
     length loaded = 2 \<and> last w = Console (Summary 1 2) \<and> written_user_ids w = [Inr (PInt 1)]"
proof (cases "run_etl_pipeline half_writable_env (init ''key'') ''SDW2023.csv'' []")
  case (Pair r w)
  with half_writable_run_value show ?thesis
    by (cases r) (simp_all split: option.splits)
qed

lemma demo_save:
  "save_user_update demo_env
     (dict_set demo_user ''news'' (PList (news_of demo_user @ [item]))) [Now] =
   (Inr (), [Now, Now, Makedirs ''user_updates'' None,
      OpenW ''user_updates/user_1_20250115_103000.json'' None,
      Dump ''user_updates/user_1_20250115_103000.json''
        (PDict (dict_set demo_user ''news'' (PList (news_of demo_user @ [item])))) None])"
proof -
  have "user_filename demo_env (PInt 1) (datetime_now demo_env 1) =
      ''user_updates/user_1_20250115_103000.json''"
    by code_simp
  then show ?thesis
    by (simp add: save_user_update_def write_json_def demo_env_def demo_user_def Let_def)
qed

lemma digit_char_value: "of_char (digit_char d) - 48 = d mod 10"
proof -
  have "d mod 10 < 10" by simp
  then consider "d mod 10 = 0" | "d mod 10 = 1" | "d mod 10 = 2" | "d mod 10 = 3"
    | "d mod 10 = 4" | "d mod 10 = 5" | "d mod 10 = 6" | "d mod 10 = 7" | "d mod 10 = 8"
    | "d mod 10 = 9"
    by atomize_elim arith
  then show ?thesis
    by cases (simp_all add: digit_char_def)
qed

lemma digits_value_snoc: "digits_value (s @ [c]) = 10 * digits_value s + (of_char c - 48)"
  by (simp add: digits_value_def)

lemma digits_value_str_nat: "digits_value (str_nat n) = n"
proof (induction n rule: str_nat.induct)
  case (1 n)
  show ?case
  proof (cases "n < 10")
    case True
    then show ?thesis
      by (subst str_nat.simps) (simp add: digits_value_def digit_char_value)
  next
    case False
    with "1.IH" show ?thesis
      by (subst str_nat.simps) (simp add: digits_value_snoc digit_char_value)
  qed
qed

lemma digits_value_zeros: "digits_value (replicate k CHR ''0'' @ s) = digits_value s"
proof -
  have "foldl (\<lambda>a c. 10 * a + (of_char c - 48)) (0::nat) (replicate k CHR ''0'') = 0"
    by (induction k) simp_all
  then show ?thesis
    by (simp add: digits_value_def)
qed

lemma zpad_str_nat_inj: "zpad k (str_nat a) = zpad k (str_nat b) \<Longrightarrow> a = b"
proof -
  assume "zpad k (str_nat a) = zpad k (str_nat b)"
  then have "digits_value (zpad k (str_nat a)) = digits_value (zpad k (str_nat b))"
    by simp
  then show "a = b"
    by (simp add: zpad_def digits_value_zeros digits_value_str_nat)
qed

lemma length_zpad_str_nat: "n < 10 ^ k \<Longrightarrow> 0 < k \<Longrightarrow> length (zpad k (str_nat n)) = k"
  by (simp add: length_zpad length_str_nat)

lemma strftime_stamp_eq:
  assumes "in_range t1" "in_range t2"
  shows "(strftime_stamp t1 = strftime_stamp t2) =
     (year t1 = year t2 \<and> month t1 = month t2 \<and> day t1 = day t2 \<and> hour t1 = hour t2 \<and>
      minute t1 = minute t2 \<and> second t1 = second t2)"
proof -
  have l: "length (zpad 4 (str_nat (year t1))) = length (zpad 4 (str_nat (year t2)))"
    "length (zpad 2 (str_nat (month t1))) = length (zpad 2 (str_nat (month t2)))"
    "length (zpad 2 (str_nat (day t1))) = length (zpad 2 (str_nat (day t2)))"
    "length (zpad 2 (str_nat (hour t1))) = length (zpad 2 (str_nat (hour t2)))"
    "length (zpad 2 (str_nat (minute t1))) = length (zpad 2 (str_nat (minute t2)))"
    using assms by (simp_all add: in_range_def length_zpad_str_nat)
  have "(strftime_stamp t1 = strftime_stamp t2) =
     (zpad 4 (str_nat (year t1)) = zpad 4 (str_nat (year t2)) \<and>
      zpad 2 (str_nat (month t1)) = zpad 2 (str_nat (month t2)) \<and>
      zpad 2 (str_nat (day t1)) = zpad 2 (str_nat (day t2)) \<and>
      zpad 2 (str_nat (hour t1)) = zpad 2 (str_nat (hour t2)) \<and>
      zpad 2 (str_nat (minute t1)) = zpad 2 (str_nat (minute t2)) \<and>
      zpad 2 (str_nat (second t1)) = zpad 2 (str_nat (second t2)))"
    unfolding strftime_stamp_def using l by simp
  also have "\<dots> = (year t1 = year t2 \<and> month t1 = month t2 \<and> day t1 = day t2 \<and>
      hour t1 = hour t2 \<and> minute t1 = minute t2 \<and> second t1 = second t2)"
    by (auto dest: zpad_str_nat_inj)
  finally show ?thesis .
qed

lemma user_filename_eq:
  "(user_filename env v t1 = user_filename env v t2) = (strftime_stamp t1 = strftime_stamp t2)"
  by (simp add: user_filename_def)

lemma str_nat_numeral:
  "str_nat (numeral k) =
     (if numeral k < (10::nat) then [digit_char (numeral k)]
      else str_nat (numeral k div 10) @ [digit_char (numeral k mod 10)])"
  "str_nat 0 = ''0''" "str_nat 1 = ''1''" "str_nat (Suc 0) = ''1''"
  by (subst str_nat.simps, simp add: digit_char_def)+

lemma stamp_examples:
  "strftime_stamp \<lparr>year = 2025, month = 1, day = 15, hour = 10, minute = 30, second = 0,
     microsecond = m\<rparr> = ''20250115_103000''"
  "strftime_stamp \<lparr>year = 1999, month = 12, day = 31, hour = 23, minute = 59, second = 58,
     microsecond = 999999\<rparr> = ''19991231_235958''"
  by (simp_all add: strftime_stamp_def zpad_def str_nat_numeral digit_char_def)

lemma save_user_update_events:
  assumes "save_user_update env user w = (r, w')" "map_of user ''id'' = Some v"
  shows "\<exists>x y z. prefix w' (w @
     [Now, Makedirs ''user_updates'' x,
      OpenW (user_filename env v (datetime_now env (length w))) y,
      Dump (user_filename env v (datetime_now env (length w))) (PDict user) z]) \<and>
     (r = Inr () \<longrightarrow> x = None \<and> y = None \<and> z = None \<and> w' = w @
     [Now, Makedirs ''user_updates'' x,
      OpenW (user_filename env v (datetime_now env (length w))) y,
      Dump (user_filename env v (datetime_now env (length w))) (PDict user) z])"
proof (cases "os_makedirs env (Suc (length w)) ''user_updates''")
  case (Some e)
  with assms have "w' = w @ [Now, Makedirs ''user_updates'' (Some e)]" "r = Inl e"
    by (simp_all add: save_user_update_def Let_def)
  then show ?thesis
    by (intro exI [of _ "Some e"]) simp
next
  case None
  let ?p = "user_filename env v (datetime_now env (length w))"
  show ?thesis
  proof (cases "open_w env (Suc (Suc (length w))) ?p")
    case (Some e)
    with None assms have "w' = w @ [Now, Makedirs ''user_updates'' None, OpenW ?p (Some e)]" "r = Inl e"
      by (simp_all add: save_user_update_def write_json_def Let_def)
    then show ?thesis
      by (intro exI [of _ "None"] exI [of _ "Some e"]) simp
  next
    case opened: None
    show ?thesis
    proof (cases "json_dump env (Suc (Suc (Suc (length w)))) ?p (PDict user)")
      case (Some e)
      with None opened assms
      have "w' = w @ [Now, Makedirs ''user_updates'' None, OpenW ?p None, Dump ?p (PDict user) (Some e)]"
        "r = Inl e"
        by (simp_all add: save_user_update_def write_json_def Let_def)
      then show ?thesis
        by (intro exI [of _ "None"] exI [of _ "Some e"]) simp
    next
      case dumped: None
      with None opened assms
      have "w' = w @ [Now, Makedirs ''user_updates'' None, OpenW ?p None, Dump ?p (PDict user) None]"
        "r = Inr ()"
        by (simp_all add: save_user_update_def write_json_def Let_def)
      then show ?thesis
        by (intro exI [of _ "None"]) simp
    qed
  qed
qed

lemma update_user_data_paths:
  assumes "update_user_data env user message w = (r, user', w')"
  shows "\<exists>evs. w' = w @ evs \<and>
     (\<forall>x\<in>set (written evs). \<exists>v t. getitem (snd x) ''id'' = Inr v \<and>
        fst x = user_filename env v (datetime_now env t))"
proof -
  obtain r0 where t: "update_try env user message w = (r0, user', w')"
    using assms by (cases "update_try env user message w") (auto simp: update_user_data_def split: sum.splits)
  show ?thesis
  proof (cases "has_news_list user")
    case False
    from update_try_no_list [OF False t] have "w' = w \<or> w' = w @ [Now]"
      by simp
    then show ?thesis
    proof
      assume "w' = w"
      then show ?thesis by (intro exI [of _ "[]"]) simp
    next
      assume "w' = w @ [Now]"
      then show ?thesis by (intro exI [of _ "[Now]"]) simp
    qed
  next
    case True
    let ?u = "dict_set user ''news'' (PList (news_of user @
       [news_item (length (news_of user)) (isoformat (datetime_now env (length w))) message]))"
    obtain r1 w1 where s: "save_user_update env ?u (w @ [Now]) = (r1, w1)"
      by (cases "save_user_update env ?u (w @ [Now])")
    from t s have w: "w' = w1"
      unfolding update_try_news_list [OF has_news_list_news_of [OF True]] Let_def
      by (simp_all split: sum.splits)
    from save_user_update_log [OF s] obtain evs where
      evs: "w1 = (w @ [Now]) @ evs"
        "if r1 = Inr ()
         then \<exists>v. map_of ?u ''id'' = Some v \<and>
                written evs = [(user_filename env v (datetime_now env (length (w @ [Now]))), PDict ?u)]
         else written evs = []"
      by blast
    have "\<forall>x\<in>set (written evs). \<exists>v t. getitem (snd x) ''id'' = Inr v \<and>
        fst x = user_filename env v (datetime_now env t)"
    proof (cases "r1 = Inr ()")
      case False
      with evs(2) show ?thesis by simp
    next
      case True
      with evs(2) obtain v where v: "map_of ?u ''id'' = Some v"
        "written evs = [(user_filename env v (datetime_now env (length (w @ [Now]))), PDict ?u)]"
        by auto
      from v(1) have "getitem (PDict ?u) ''id'' = Inr v" by simp
      with v(2) show ?thesis
        by (simp del: getitem.simps) blast
    qed
    with evs(1) w show ?thesis
      by (intro exI [of _ "[Now] @ evs"]) simp
  qed
qed

lemma load_users_paths:
  "load_users env users acc k w = (r, w') \<Longrightarrow>
   \<exists>evs. w' = w @ evs \<and>
     (\<forall>x\<in>set (written evs). \<exists>v t. getitem (snd x) ''id'' = Inr v \<and>
        fst x = user_filename env v (datetime_now env t))"
proof (induction users arbitrary: acc k w)
  case Nil
  then show ?case by (intro exI [of _ "[]"]) simp
next
  case (Cons u users)
  show ?case
  proof (cases "map_of u ''ai_generated_message''")
    case None
    with Cons.prems show ?thesis
      by (intro exI [of _ "[]"]) simp
  next
    case (Some m)
    obtain b u' w1 where up: "update_user_data env u m w = (Inr b, u', w1)"
      using update_user_data_total by blast
    from update_user_data_paths [OF up] obtain e1 where
      e1: "w1 = w @ e1" "\<forall>x\<in>set (written e1). \<exists>v t. getitem (snd x) ''id'' = Inr v \<and>
        fst x = user_filename env v (datetime_now env t)"
      by blast
    from Some up Cons.prems obtain acc1 k1 where
      "load_users env users acc1 k1 w1 = (r, w')" by simp
    from Cons.IH [OF this] obtain e2 where
      e2: "w' = w1 @ e2" "\<forall>x\<in>set (written e2). \<exists>v t. getitem (snd x) ''id'' = Inr v \<and>
        fst x = user_filename env v (datetime_now env t)"
      by blast
    from e1 e2 show ?thesis
      by (intro exI [of _ "e1 @ e2"]) auto
  qed
qed

lemma generate_report_paths:
  assumes "generate_report env users w = (r, w')"
  shows "\<exists>evs. w' = w @ evs \<and> (\<forall>x\<in>set (written evs). fst x = ''etl_report.json'')"
proof (cases "build_report (isoformat (datetime_now env (length w))) users")
  case (Inl e)
  with assms have "w' = w @ [Now]" by (simp add: generate_report_def)
  then show ?thesis by (intro exI [of _ "[Now]"]) simp
next
  case (Inr report)
  with assms have "write_json env ''etl_report.json'' report (w @ [Now]) = (r, w')"
    by (simp add: generate_report_def)
  from write_json_log [OF this] obtain evs where
    "w' = (w @ [Now]) @ evs" "if r = Inr () then written evs = [(''etl_report.json'', report)] else written evs = []"
    by blast
  then show ?thesis
    by (intro exI [of _ "[Now] @ evs"]) (simp split: if_splits)
qed

lemma run_paths:
  assumes "run_etl_pipeline env self p w = (Inr (Some loaded), w')"
  shows "\<exists>evs. w' = w @ evs \<and>
     (\<forall>x\<in>set (written evs). fst x = ''etl_report.json'' \<or>
        (\<exists>v t. getitem (snd x) ''id'' = Inr v \<and> fst x = user_filename env v (datetime_now env t)))"
proof -
  from run_success [OF assms] obtain ids w1 users w2 processed w3 n w4 w5 where
    ph: "extract_users_from_csv env p w = (Inr ids, w1)"
      "fetch_users env self ids [] w1 = (Inr users, w2)"
      "transform_users env self users [] w2 = (Inr processed, w3)"
      "load_users env processed [] 0 w3 = (Inr (loaded, n), w4)"
      "generate_report env loaded w4 = (Inr (), w5)"
      "w' = w5 @ [Console (Summary n (length loaded))]"
    by blast
  from ph(1) have e1: "w1 = w @ [ReadCsv p]"
    by (auto simp: extract_users_from_csv_def extract_try_def split: sum.splits option.splits)
  from fetch_users_log [OF ph(2)] obtain e2 where e2: "w2 = w1 @ e2" "written e2 = []"
    by blast
  from transform_users_log [OF ph(3)] obtain e3 where e3: "w3 = w2 @ e3" "written e3 = []"
    by blast
  from load_users_paths [OF ph(4)] obtain e4 where e4: "w4 = w3 @ e4"
    "\<forall>x\<in>set (written e4). \<exists>v t. getitem (snd x) ''id'' = Inr v \<and>
        fst x = user_filename env v (datetime_now env t)"
    by blast
  from generate_report_paths [OF ph(5)] obtain e5 where e5: "w5 = w4 @ e5"
    "\<forall>x\<in>set (written e5). fst x = ''etl_report.json''"
    by blast
  have "written ([ReadCsv p] @ e2 @ e3 @ e4 @ e5 @ [Console (Summary n (length loaded))]) =
      written e4 @ written e5"
    using e2(2) e3(2) by (simp add: written_append)
  with e4(2) e5(2)
  have "\<forall>x\<in>set (written ([ReadCsv p] @ e2 @ e3 @ e4 @ e5 @ [Console (Summary n (length loaded))])).
      fst x = ''etl_report.json'' \<or>
        (\<exists>v t. getitem (snd x) ''id'' = Inr v \<and> fst x = user_filename env v (datetime_now env t))"
    by auto
  with e1 e2(1) e3(1) e4(1) e5(1) ph(6) show ?thesis
    by (intro exI [of _ "[ReadCsv p] @ e2 @ e3 @ e4 @ e5 @ [Console (Summary n (length loaded))]"]) simp
qed

lemma digits_value_zpad: "digits_value (zpad k (str_nat n)) = n"
  by (simp add: zpad_def digits_value_zeros digits_value_str_nat)

lemma strftime_stamp_fields:
  assumes "in_range t"
  shows "length (strftime_stamp t) = 15" "strftime_stamp t ! 8 = CHR ''_''"
    "digits_value (take 4 (strftime_stamp t)) = year t"
    "digits_value (take 2 (drop 4 (strftime_stamp t))) = month t"
    "digits_value (take 2 (drop 6 (strftime_stamp t))) = day t"
    "digits_value (take 2 (drop 9 (strftime_stamp t))) = hour t"
    "digits_value (take 2 (drop 11 (strftime_stamp t))) = minute t"
    "digits_value (drop 13 (strftime_stamp t)) = second t"
proof -
  define a where "a = zpad 4 (str_nat (year t))"
  define b where "b = zpad 2 (str_nat (month t))"
  define c where "c = zpad 2 (str_nat (day t))"
  define d where "d = zpad 2 (str_nat (hour t))"
  define e where "e = zpad 2 (str_nat (minute t))"
  define f where "f = zpad 2 (str_nat (second t))"
  have l: "length a = 4" "length b = 2" "length c = 2" "length d = 2" "length e = 2" "length f = 2"
    using assms unfolding a_def b_def c_def d_def e_def f_def
    by (simp_all add: in_range_def length_zpad_str_nat)
  have v: "digits_value a = year t" "digits_value b = month t" "digits_value c = day t"
    "digits_value d = hour t" "digits_value e = minute t" "digits_value f = second t"
    unfolding a_def b_def c_def d_def e_def f_def by (simp_all add: digits_value_zpad)
  have s: "strftime_stamp t = a @ b @ c @ ''_'' @ d @ e @ f"
    unfolding a_def b_def c_def d_def e_def f_def by (simp add: strftime_stamp_def)
  show "length (strftime_stamp t) = 15" "strftime_stamp t ! 8 = CHR ''_''"
    "digits_value (take 4 (strftime_stamp t)) = year t"
    "digits_value (take 2 (drop 4 (strftime_stamp t))) = month t"
    "digits_value (take 2 (drop 6 (strftime_stamp t))) = day t"
    "digits_value (take 2 (drop 9 (strftime_stamp t))) = hour t"
    "digits_value (take 2 (drop 11 (strftime_stamp t))) = minute t"
    "digits_value (drop 13 (strftime_stamp t)) = second t"
    unfolding s using l v by (simp_all add: nth_append)
qed

lemma profile_fields_missing:
  assumes "k \<in> set [''id'', ''name'', ''username'', ''email'', ''phone'', ''website'', ''address'', ''company'']"
    "map_of d k = None"
  shows "profile_fields (PDict d) = Inl KeyError"
  using assms unfolding profile_fields_def
  by (auto simp: dict_item_def split: option.splits)

lemma fmt_04d_int_value:
  assumes "0 \<le> j"
  shows "digits_value (fmt_04d_int j) = nat j" "4 \<le> length (fmt_04d_int j)"
    "j < 10000 \<Longrightarrow> length (fmt_04d_int j) = 4"
proof -
  from assms show "digits_value (fmt_04d_int j) = nat j"
    by (simp add: fmt_04d_int_def digits_value_zpad)
  from assms show "4 \<le> length (fmt_04d_int j)"
    by (simp add: fmt_04d_int_def zpad_def)
  assume "j < 10000"
  with assms have "nat j < 10 ^ 4" by simp
  from length_str_nat [OF this] have "length (str_nat (nat j)) \<le> 4" by simp
  with assms show "length (fmt_04d_int j) = 4"
    by (simp add: fmt_04d_int_def length_zpad)
qed

lemma extract_users_from_csv_value:
  "\<exists>ids. extract_users_from_csv env p w = (Inr ids, w @ [ReadCsv p])"
  by (simp add: extract_users_from_csv_def extract_try_def split: sum.splits option.splits)

lemma phases_after_fetch:
  assumes "fetch_users env self ids [] w1 = (Inr users, w2)"
  shows "\<exists>processed w3 loaded n w4 report.
     transform_users env self users [] w2 = (Inr processed, w3) \<and>
     load_users env processed [] 0 w3 = (Inr (loaded, n), w4) \<and>
     length loaded = length users \<and>
     build_report (isoformat (datetime_now env (length w4))) loaded = Inr report"
proof -
  from fetch_users_fresh [OF assms] have fr: "\<forall>u\<in>set users. fresh u"
    by simp
  then have "\<forall>u\<in>set users. \<exists>v. map_of u ''name'' = Some v"
    using fresh_key(2) by blast
  from transform_users_total [OF this] obtain processed w3 where
    t: "transform_users env self users [] w2 = (Inr processed, w3)"
    by blast
  from transform_users_result [OF t]
  have tr: "list_all2 (\<lambda>u p. \<exists>m w0 w1. generate_ai_news env self u w0 = (Inr m, w1) \<and>
                  p = dict_set u ''ai_generated_message'' (PStr m)) users processed"
    by simp
  have "\<forall>p\<in>set processed. \<exists>m. map_of p ''ai_generated_message'' = Some m"
  proof
    fix p
    assume "p \<in> set processed"
    with tr obtain u m where "p = dict_set u ''ai_generated_message'' (PStr m)"
      by (auto simp: list_all2_conv_all_nth in_set_conv_nth)
    then show "\<exists>m. map_of p ''ai_generated_message'' = Some m"
      by (simp add: map_of_dict_set)
  qed
  from load_users_total [OF this] obtain loaded n w4 where
    l: "load_users env processed [] 0 w3 = (Inr (loaded, n), w4)"
    by blast
  from phases_shape [OF fr t l]
  have sh: "list_all2 (\<lambda>u l. \<exists>m d w0 w1. fresh u \<and> generate_ai_news env self u w0 = (Inr m, w1) \<and>
           l = dict_set (dict_set u ''ai_generated_message'' (PStr m)) ''news''
                 (PList [news_item 0 d (PStr m)])) users loaded" .
  then have len: "length loaded = length users"
    by (simp add: list_all2_lengthD)
  have "\<forall>l\<in>set loaded. reportable l"
  proof
    fix x
    assume "x \<in> set loaded"
    with sh obtain u m d where "fresh u"
      "x = dict_set (dict_set u ''ai_generated_message'' (PStr m)) ''news''
                 (PList [news_item 0 d (PStr m)])"
      by (auto simp: list_all2_conv_all_nth in_set_conv_nth)
    then show "reportable x"
      by (rule shaped_facts(1))
  qed
  from build_report_reportable [OF this, of "isoformat (datetime_now env (length w4))"]
  obtain report where "build_report (isoformat (datetime_now env (length w4))) loaded = Inr report"
    by blast
  with t l len show ?thesis
    by (intro exI [of _ processed] exI [of _ w3] exI [of _ loaded] exI [of _ n] exI [of _ w4]
          exI [of _ report] conjI)
qed

lemma run_after_fetch:
  assumes "extract_users_from_csv env p w = (Inr ids, w1)" "ids \<noteq> []"
    "fetch_users env self ids [] w1 = (Inr users, w2)"
  shows "\<exists>processed w3 loaded n w4 report.
     transform_users env self users [] w2 = (Inr processed, w3) \<and>
     load_users env processed [] 0 w3 = (Inr (loaded, n), w4) \<and>
     length loaded = length users \<and>
     build_report (isoformat (datetime_now env (length w4))) loaded = Inr report \<and>
     (\<forall>e. open_w env (Suc (length w4)) ''etl_report.json'' = Some e \<longrightarrow>
        run_etl_pipeline env self p w =
          (Inl e, w4 @ [Now, OpenW ''etl_report.json'' (Some e)])) \<and>
     (\<forall>e. open_w env (Suc (length w4)) ''etl_report.json'' = None \<and>
        json_dump env (Suc (Suc (length w4))) ''etl_report.json'' report = Some e \<longrightarrow>
        run_etl_pipeline env self p w =
          (Inl e, w4 @ [Now, OpenW ''etl_report.json'' None, Dump ''etl_report.json'' report (Some e)])) \<and>
     (open_w env (Suc (length w4)) ''etl_report.json'' = None \<and>
      json_dump env (Suc (Suc (length w4))) ''etl_report.json'' report = None \<longrightarrow>
        run_etl_pipeline env self p w =
          (Inr (Some loaded),
           w4 @ [Now, OpenW ''etl_report.json'' None, Dump ''etl_report.json'' report None,
                 Console (Summary n (length loaded))]))"
proof -
  from phases_after_fetch [OF assms(3)] obtain processed w3 loaded n w4 report where
    ph: "transform_users env self users [] w2 = (Inr processed, w3)"
      "load_users env processed [] 0 w3 = (Inr (loaded, n), w4)"
      "length loaded = length users"
      "build_report (isoformat (datetime_now env (length w4))) loaded = Inr report"
    by (elim exE conjE)
  have run: "run_etl_pipeline env self p w =
      (case write_json env ''etl_report.json'' report (w4 @ [Now]) of
         (Inl e, w5) \<Rightarrow> (Inl e, w5)
       | (Inr u, w5) \<Rightarrow> (Inr (Some loaded), w5 @ [Console (Summary n (length loaded))]))"
    using assms ph by (simp add: run_etl_pipeline_def generate_report_def)
  have a: "\<forall>e. open_w env (Suc (length w4)) ''etl_report.json'' = Some e \<longrightarrow>
        run_etl_pipeline env self p w =
          (Inl e, w4 @ [Now, OpenW ''etl_report.json'' (Some e)])"
    unfolding run by (simp add: write_json_def Let_def)
  have b: "\<forall>e. open_w env (Suc (length w4)) ''etl_report.json'' = None \<and>
        json_dump env (Suc (Suc (length w4))) ''etl_report.json'' report = Some e \<longrightarrow>
        run_etl_pipeline env self p w =
          (Inl e, w4 @ [Now, OpenW ''etl_report.json'' None, Dump ''etl_report.json'' report (Some e)])"
    unfolding run by (simp add: write_json_def Let_def)
  have c: "open_w env (Suc (length w4)) ''etl_report.json'' = None \<and>
      json_dump env (Suc (Suc (length w4))) ''etl_report.json'' report = None \<longrightarrow>
        run_etl_pipeline env self p w =
          (Inr (Some loaded),
           w4 @ [Now, OpenW ''etl_report.json'' None, Dump ''etl_report.json'' report None,
                 Console (Summary n (length loaded))])"
    unfolding run by (simp add: write_json_def Let_def)
  from ph a b c show ?thesis
    by (intro exI [of _ processed] exI [of _ w3] exI [of _ loaded] exI [of _ n] exI [of _ w4]
          exI [of _ report] conjI)
qed

lemma subseq_mset: "subseq xs ys \<Longrightarrow> mset xs \<subseteq># mset ys"
proof (induction rule: list_emb.induct)
  case (list_emb_Nil ys)
  then show ?case by simp
next
  case (list_emb_Cons xs ys y)
  then have "mset xs \<subseteq># mset ys" by simp
  also have "mset ys \<subseteq># mset (y # ys)" by simp
  finally show ?case .
next
  case (list_emb_Cons2 x y xs ys)
  then show ?case by simp
qed

lemma written_user_ids_skip:
  "written_user_ids [] = []" "written_user_ids (ReadCsv p # x) = written_user_ids x"
  "written_user_ids (Console m # x) = written_user_ids x"
  "written_reports [] = []" "written_reports (ReadCsv p # x) = written_reports x"
  "written_reports (Console m # x) = written_reports x"
  by (simp_all add: written_user_ids_def written_reports_def)

lemma dict_item_cong: "map_of a k = map_of b k \<Longrightarrow> dict_item a k = dict_item b k"
  by (simp add: dict_item_def)

lemma transform_users_ids:
  assumes "transform_users env self users [] w = (Inr processed, w')"
  shows "map (\<lambda>u. dict_item u ''id'') users = map (\<lambda>u. dict_item u ''id'') processed"
proof -
  from transform_users_result [OF assms]
  have "list_all2 (\<lambda>u p. \<exists>m w0 w1. generate_ai_news env self u w0 = (Inr m, w1) \<and>
                  p = dict_set u ''ai_generated_message'' (PStr m)) users processed"
    by simp
  then have "list_all2 (\<lambda>u p. dict_item u ''id'' = dict_item p ''id'') users processed"
  proof (rule list_all2_mono)
    fix u p
    assume "\<exists>m w0 w1. generate_ai_news env self u w0 = (Inr m, w1) \<and>
                  p = dict_set u ''ai_generated_message'' (PStr m)"
    then obtain m where "p = dict_set u ''ai_generated_message'' (PStr m)"
      by blast
    then have "map_of u ''id'' = map_of p ''id''"
      by (simp add: map_of_dict_set)
    then show "dict_item u ''id'' = dict_item p ''id''"
      by (rule dict_item_cong)
  qed
  then show ?thesis by (rule list_all2_map_eq)
qed

lemma load_users_ids:
  assumes "load_users env processed [] k w = (Inr (loaded, n), w')"
  shows "map (\<lambda>u. dict_item u ''id'') processed = map (\<lambda>u. dict_item u ''id'') loaded"
proof -
  from load_users_result [OF assms]
  have "list_all2 (\<lambda>p l. \<exists>m b w0 w1. map_of p ''ai_generated_message'' = Some m \<and>
                  update_user_data env p m w0 = (Inr b, l, w1)) processed loaded"
    by simp
  then have "list_all2 (\<lambda>p l. dict_item p ''id'' = dict_item l ''id'') processed loaded"
  proof (rule list_all2_mono)
    fix p l
    assume "\<exists>m b w0 w1. map_of p ''ai_generated_message'' = Some m \<and>
                  update_user_data env p m w0 = (Inr b, l, w1)"
    then obtain m b w0 w1 where "update_user_data env p m w0 = (Inr b, l, w1)"
      by blast
    from update_user_data_log [OF this] have "map_of l ''id'' = map_of p ''id''"
      by blast
    then show "dict_item p ''id'' = dict_item l ''id''"
      by (simp add: dict_item_def)
  qed
  then show ?thesis by (rule list_all2_map_eq)
qed

lemma summary_ids_report:
  assumes "\<forall>u\<in>set users. reportable u" "build_report ts users = Inr report"
  shows "summary_ids report = map (\<lambda>u. dict_item u ''id'') users"
proof -
  from build_report_reportable [OF assms(1), of ts] assms(2) obtain summary where
    s: "list_all2 (\<lambda>u entry. getitem entry ''user_id'' = dict_item u ''id'' \<and>
        getitem entry ''user_name'' = dict_item u ''name'' \<and>
        getitem entry ''messages_count'' = Inr (PInt (int (length (news_of u))))) users summary"
    and r: "getitem report ''processing_summary'' = Inr (PList summary)"
    by auto
  from s have "list_all2 (\<lambda>u entry. dict_item u ''id'' = getitem entry ''user_id'') users summary"
    by (rule list_all2_mono) simp
  then have "map (\<lambda>u. dict_item u ''id'') users = map (\<lambda>entry. getitem entry ''user_id'') summary"
    by (rule list_all2_map_eq)
  with r show ?thesis
    by (simp add: summary_ids_def)
qed

lemma run_log:
  assumes "extract_users_from_csv env p w = (Inr ids, w1)"
    "run_etl_pipeline env self p w = (r, w')"
  shows "\<exists>evs. w' = w @ evs \<and> prefix (requested evs) (map (user_url env self) ids) \<and>
     (echoes env self ids \<longrightarrow> subseq (written_user_ids evs) (map Inr ids))"
proof -
  from assms(1) extract_users_from_csv_value [of env p w] have w1: "w1 = w @ [ReadCsv p]"
    by auto
  show ?thesis
  proof (cases "ids = []")
    case True
    with assms w1 have "w' = w @ [ReadCsv p, Console NoIdsFound]"
      by (simp add: run_etl_pipeline_def)
    then show ?thesis
      by (intro exI [of _ "[ReadCsv p, Console NoIdsFound]"]) (simp add: written_user_ids_skip)
  next
    case False
    obtain r2 w2 where f: "fetch_users env self ids [] w1 = (r2, w2)"
      by (cases "fetch_users env self ids [] w1")
    from fetch_users_log [OF f] obtain e2 where
      e2: "w2 = w1 @ e2" "prefix (requested e2) (map (user_url env self) ids)" "written e2 = []"
        "\<forall>users. r2 = Inr users \<longrightarrow> requested e2 = map (user_url env self) ids"
      by (elim exE conjE)
    from e2(3) have n2: "written_user_ids e2 = []"
      by (simp add: written_Nil_observations)
    show ?thesis
    proof (cases r2)
      case (Inl e)
      with assms False f have "w' = w2"
        by (simp add: run_etl_pipeline_def)
      with w1 e2 n2 show ?thesis
        by (intro exI [of _ "[ReadCsv p] @ e2"]) (simp add: written_user_ids_skip)
    next
      case (Inr users)
      with e2(4) have q2: "requested e2 = map (user_url env self) ids"
        by simp
      from f Inr have f': "fetch_users env self ids [] w1 = (Inr users, w2)"
        by simp
      obtain r3 w3 where t: "transform_users env self users [] w2 = (r3, w3)"
        by (cases "transform_users env self users [] w2")
      from transform_users_log [OF t] obtain e3 where
        e3: "w3 = w2 @ e3" "requested e3 = []" "written e3 = []"
        by (elim exE conjE)
      from e3(3) have n3: "written_user_ids e3 = []"
        by (simp add: written_Nil_observations)
      show ?thesis
      proof (cases r3)
        case (Inl e)
        with assms False f' t have "w' = w3"
          by (simp add: run_etl_pipeline_def)
        with w1 e2(1) q2 n2 e3 n3 show ?thesis
          by (intro exI [of _ "[ReadCsv p] @ e2 @ e3"]) (simp add: written_user_ids_skip)
      next
        case processed: (Inr processed)
        with t have t': "transform_users env self users [] w2 = (Inr processed, w3)"
          by simp
        obtain r4 w4 where l: "load_users env processed [] 0 w3 = (r4, w4)"
          by (cases "load_users env processed [] 0 w3")
        from load_users_log [OF l] obtain e4 where
          e4: "w4 = w3 @ e4" "requested e4 = []"
            "subseq (written_user_ids e4) (map (\<lambda>u. dict_item u ''id'') processed)"
          by (elim exE conjE)
        have s4: "echoes env self ids \<longrightarrow> subseq (written_user_ids e4) (map Inr ids)"
        proof
          assume "echoes env self ids"
          from fetch_users_ids [OF this subset_refl f']
          have "subseq (map (\<lambda>u. dict_item u ''id'') users) (map Inr ids)"
            by simp
          with e4(3) transform_users_ids [OF t'] show "subseq (written_user_ids e4) (map Inr ids)"
            by (simp add: subseq_order.order_trans)
        qed
        show ?thesis
        proof (cases r4)
          case (Inl e)
          with assms False f' t' l have "w' = w4"
            by (simp add: run_etl_pipeline_def)
          with w1 e2(1) q2 n2 e3 n3 e4(1,2) s4 show ?thesis
            by (intro exI [of _ "[ReadCsv p] @ e2 @ e3 @ e4"]) (simp add: written_user_ids_skip)
        next
          case (Inr res)
          obtain loaded n where res: "res = (loaded, n)"
            by (cases res)
          with l Inr have l': "load_users env processed [] 0 w3 = (Inr (loaded, n), w4)"
            by simp
          obtain r5 w5 where g: "generate_report env loaded w4 = (r5, w5)"
            by (cases "generate_report env loaded w4")
          from generate_report_log [OF g] obtain e5 where
            e5: "w5 = w4 @ e5" "requested e5 = []" "written_user_ids e5 = []"
            by (elim exE conjE)
          from assms False f' t' l' g
          have "w' = w5 \<or> w' = w5 @ [Console (Summary n (length loaded))]"
            by (auto simp: run_etl_pipeline_def split: sum.splits)
          then show ?thesis
          proof
            assume "w' = w5"
            with w1 e2(1) q2 n2 e3 n3 e4(1,2) s4 e5 show ?thesis
              by (intro exI [of _ "[ReadCsv p] @ e2 @ e3 @ e4 @ e5"]) (simp add: written_user_ids_skip)
          next
            assume "w' = w5 @ [Console (Summary n (length loaded))]"
            with w1 e2(1) q2 n2 e3 n3 e4(1,2) s4 e5 show ?thesis
              by (intro exI [of _ "[ReadCsv p] @ e2 @ e3 @ e4 @ e5 @ [Console (Summary n (length loaded))]"])
                 (simp add: written_user_ids_skip)
          qed
        qed
      qed
    qed
  qed
qed

lemma run_success_order:
  assumes "run_etl_pipeline env self p w = (Inr (Some loaded), w')"
  shows "\<exists>ids w1 users w2 processed w3 evs report.
     extract_users_from_csv env p w = (Inr ids, w1) \<and>
     fetch_users env self ids [] w1 = (Inr users, w2) \<and>
     transform_users env self users [] w2 = (Inr processed, w3) \<and>
     w' = w @ evs \<and> requested evs = map (user_url env self) ids \<and>
     map (\<lambda>u. dict_item u ''id'') users = map (\<lambda>u. dict_item u ''id'') loaded \<and>
     map (\<lambda>u. dict_item u ''id'') processed = map (\<lambda>u. dict_item u ''id'') loaded \<and>
     subseq (written_user_ids evs) (map (\<lambda>u. dict_item u ''id'') loaded) \<and>
     written_reports evs = [report] \<and>
     summary_ids report = map (\<lambda>u. dict_item u ''id'') loaded \<and>
     (echoes env self ids \<longrightarrow> subseq (map (\<lambda>u. dict_item u ''id'') loaded) (map Inr ids))"
proof -
  from run_success [OF assms] obtain ids w1 users w2 processed w3 n w4 w5 where
    ph: "extract_users_from_csv env p w = (Inr ids, w1)"
      "fetch_users env self ids [] w1 = (Inr users, w2)"
      "transform_users env self users [] w2 = (Inr processed, w3)"
      "load_users env processed [] 0 w3 = (Inr (loaded, n), w4)"
      "generate_report env loaded w4 = (Inr (), w5)"
      "w' = w5 @ [Console (Summary n (length loaded))]"
    by (elim exE conjE)
  from ph(1) extract_users_from_csv_value [of env p w] have w1: "w1 = w @ [ReadCsv p]"
    by auto
  from fetch_users_log [OF ph(2)] obtain e2 where
    e2: "w2 = w1 @ e2" "requested e2 = map (user_url env self) ids" "written e2 = []"
    by (elim exE conjE) simp
  from transform_users_log [OF ph(3)] obtain e3 where
    e3: "w3 = w2 @ e3" "requested e3 = []" "written e3 = []"
    by (elim exE conjE)
  from load_users_log [OF ph(4)] obtain e4 where
    e4: "w4 = w3 @ e4" "requested e4 = []" "written_reports e4 = []"
      "subseq (written_user_ids e4) (map (\<lambda>u. dict_item u ''id'') processed)"
    by (elim exE conjE)
  from generate_report_log [OF ph(5)] obtain e5 report where
    e5: "w5 = w4 @ e5" "requested e5 = []" "written_user_ids e5 = []"
      "build_report (isoformat (datetime_now env (length w4))) loaded = Inr report"
      "written_reports e5 = [report]"
    by (elim exE conjE) auto
  note ids23 = transform_users_ids [OF ph(3)]
  note ids34 = load_users_ids [OF ph(4)]
  from fetch_users_fresh [OF ph(2)] have fr: "\<forall>u\<in>set users. fresh u"
    by simp
  have rep: "\<forall>l\<in>set loaded. reportable l"
  proof
    fix x
    assume "x \<in> set loaded"
    with phases_shape [OF fr ph(3) ph(4)] obtain u m d where "fresh u"
      "x = dict_set (dict_set u ''ai_generated_message'' (PStr m)) ''news''
                 (PList [news_item 0 d (PStr m)])"
      by (auto simp: list_all2_conv_all_nth in_set_conv_nth)
    then show "reportable x"
      by (rule shaped_facts(1))
  qed
  note sm = summary_ids_report [OF rep e5(4)]
  have ec: "echoes env self ids \<longrightarrow> subseq (map (\<lambda>u. dict_item u ''id'') loaded) (map Inr ids)"
  proof
    assume "echoes env self ids"
    from fetch_users_ids [OF this subset_refl ph(2)]
    show "subseq (map (\<lambda>u. dict_item u ''id'') loaded) (map Inr ids)"
      by (simp add: ids23 ids34)
  qed
  let ?evs = "[ReadCsv p] @ e2 @ e3 @ e4 @ e5 @ [Console (Summary n (length loaded))]"
  have o: "w' = w @ ?evs" "requested ?evs = map (user_url env self) ids"
    "written_user_ids ?evs = written_user_ids e4" "written_reports ?evs = [report]"
    using w1 e2 e3 e4(1,2,3) e5(1,2,3,5) ph(6)
    by (simp_all add: written_Nil_observations written_user_ids_skip)
  from e4(4) ids34 o(3)
  have sub: "subseq (written_user_ids ?evs) (map (\<lambda>u. dict_item u ''id'') loaded)"
    by simp
  from ph(1,2,3) o(1,2) ids23 ids34 sub o(4) sm ec show ?thesis
    by (intro exI [of _ ids] exI [of _ w1] exI [of _ users] exI [of _ w2] exI [of _ processed]
          exI [of _ w3] exI [of _ ?evs] exI [of _ report] conjI) simp_all
qed

lemma demo_url_2: "user_url demo_env (init ''key'') (PInt 2) = ''https://jsonplaceholder.typicode.com/users/2''"
  by (simp add: user_url_def init_def str_int_def str_nat.simps digit_char_def)

lemma demo_echoes: "echoes demo_env (init ''key'') [PInt 1, PInt 2, PInt 7]"
proof -
  have "requests_get demo_env t (user_url demo_env (init ''key'') (PInt 1)) = Inr resp \<and>
      status_code resp = 200 \<and> json_body resp = Inr api \<and> getitem api ''id'' = Inr v \<longrightarrow> v = PInt 1"
    for t resp api v
    unfolding demo_url_1 by (auto simp: demo_env_def demo_get_def api_user_def)
  moreover have "requests_get demo_env t (user_url demo_env (init ''key'') (PInt 2)) = Inr resp \<and>
      status_code resp = 200 \<and> json_body resp = Inr api \<and> getitem api ''id'' = Inr v \<longrightarrow> v = PInt 2"
    for t resp api v
    unfolding demo_url_2 by (auto simp: demo_env_def demo_get_def api_user_def)
  moreover have "requests_get demo_env t (user_url demo_env (init ''key'') (PInt 7)) = Inr resp \<and>
      status_code resp = 200 \<and> json_body resp = Inr api \<and> getitem api ''id'' = Inr v \<longrightarrow> v = PInt 7"
    for t resp api v
    unfolding demo_url_7 by (auto simp: demo_env_def demo_get_def api_user_def)
  ultimately show ?thesis
    unfolding echoes_def by simp
qed

section \<open>Properties of the report\<close>

text \<open>
  C1. For every list of records that \<^verbatim>\<open>generate_report\<close> can summarise, the report it hands
  to \<^verbatim>\<open>json.dump\<close> has \<open>total_users_processed\<close> the length of the list, \<open>users_with_news\<close>
  the number of records whose news sequence is not empty, and \<open>total_messages_generated\<close>
  the sum of the lengths of the news sequences; when every news sequence has length 1, the
  total of messages is the total of users.
\<close>

theorem generate_report_totals:
  assumes "\<forall>u\<in>set users. reportable u"
  shows "\<exists>report.
     build_report (isoformat (datetime_now env (length w))) users = Inr report \<and>
     generate_report env users w = write_json env ''etl_report.json'' report (w @ [Now]) \<and>
     getitem report ''total_users_processed'' = Inr (PInt (int (length users))) \<and>
     getitem report ''users_with_news'' =
       Inr (PInt (int (length (filter (\<lambda>u. news_of u \<noteq> []) users)))) \<and>
     getitem report ''total_messages_generated'' =
       Inr (PInt (int (sum_list (map (\<lambda>u. length (news_of u)) users)))) \<and>
     ((\<forall>u\<in>set users. length (news_of u) = 1) \<longrightarrow>
        getitem report ''total_messages_generated'' = getitem report ''total_users_processed'')"
proof -
  let ?ts = "isoformat (datetime_now env (length w))"
  from build_report_reportable [OF assms] obtain summary where
    b: "build_report ?ts users = Inr (PDict
         [(''timestamp'', PStr ?ts),
          (''total_users_processed'', PInt (int (length users))),
          (''users_with_news'', PInt (int (length (filter (\<lambda>u. news_of u \<noteq> []) users)))),
          (''total_messages_generated'', PInt (int (sum_list (map (\<lambda>u. length (news_of u)) users)))),
          (''processing_summary'', PList summary)])"
      (is "_ = Inr ?report")
    by blast
  have g: "generate_report env users w = write_json env ''etl_report.json'' ?report (w @ [Now])"
    by (simp add: generate_report_def b)
  have f1: "getitem ?report ''total_users_processed'' = Inr (PInt (int (length users)))"
    by simp
  have f2: "getitem ?report ''users_with_news'' =
       Inr (PInt (int (length (filter (\<lambda>u. news_of u \<noteq> []) users))))"
    by simp
  have f3: "getitem ?report ''total_messages_generated'' =
       Inr (PInt (int (sum_list (map (\<lambda>u. length (news_of u)) users))))"
    by simp
  have f4: "(\<forall>u\<in>set users. length (news_of u) = 1) \<longrightarrow>
        getitem ?report ''total_messages_generated'' = getitem ?report ''total_users_processed''"
    unfolding f1 f3 by (simp add: sum_list_ones)
  from b g f1 f2 f3 f4 show ?thesis
    by (intro exI [of _ ?report] conjI)
qed

theorem generate_report_totals_witness:
  "list_all reportable demo_records \<and>
   (\<exists>report. build_report (isoformat (datetime_now demo_env 0)) demo_records = Inr report \<and>
      getitem report ''total_users_processed'' = Inr (PInt 3) \<and>
      getitem report ''users_with_news'' = Inr (PInt 2) \<and>
      getitem report ''total_messages_generated'' = Inr (PInt 3)) \<and>
   (\<exists>report. build_report (isoformat (datetime_now demo_env 0)) [demo_records ! 2] = Inr report \<and>
      getitem report ''total_messages_generated'' = getitem report ''total_users_processed'')"
proof -
  have c: "length demo_records = 3"
    "length (filter (\<lambda>u. news_of u \<noteq> []) demo_records) = 2"
    "sum_list (map (\<lambda>u. length (news_of u)) demo_records) = 3"
    by (simp_all add: demo_records_def news_of_def)
  have r: "\<forall>u\<in>set demo_records. reportable u"
    by (simp add: demo_records_def reportable_def has_news_list_def news_of_def news_item_fields)
  then have r2: "\<forall>u\<in>set [demo_records ! 2]. reportable u"
    by (simp add: demo_records_def)
  have n2: "\<forall>u\<in>set [demo_records ! 2]. length (news_of u) = 1"
    by (simp add: demo_records_def news_of_def)
  from generate_report_totals [OF r, of demo_env "[]"] obtain report where
    "build_report (isoformat (datetime_now demo_env (length ([] :: world)))) demo_records = Inr report"
    "getitem report ''total_users_processed'' = Inr (PInt (int (length demo_records)))"
    "getitem report ''users_with_news'' =
       Inr (PInt (int (length (filter (\<lambda>u. news_of u \<noteq> []) demo_records))))"
    "getitem report ''total_messages_generated'' =
       Inr (PInt (int (sum_list (map (\<lambda>u. length (news_of u)) demo_records))))"
    by blast
  then have a: "\<exists>report. build_report (isoformat (datetime_now demo_env 0)) demo_records = Inr report \<and>
      getitem report ''total_users_processed'' = Inr (PInt 3) \<and>
      getitem report ''users_with_news'' = Inr (PInt 2) \<and>
      getitem report ''total_messages_generated'' = Inr (PInt 3)"
    unfolding c by (intro exI [of _ report]) simp
  from generate_report_totals [OF r2, of demo_env "[]"] n2 obtain report2 where
    "build_report (isoformat (datetime_now demo_env (length ([] :: world)))) [demo_records ! 2] = Inr report2"
    "getitem report2 ''total_messages_generated'' = getitem report2 ''total_users_processed''"
    by blast
  then have b: "\<exists>report. build_report (isoformat (datetime_now demo_env 0)) [demo_records ! 2] = Inr report \<and>
      getitem report ''total_messages_generated'' = getitem report ''total_users_processed''"
    by (intro exI [of _ report2]) simp
  from r have "list_all reportable demo_records"
    by (simp add: list_all_iff)
  with a b show ?thesis by (intro conjI)
qed

section \<open>Properties of the load\<close>

text \<open>
  C5. For every record whose \<open>news\<close> is a list and every message, \<^verbatim>\<open>update_user_data\<close>
  appends exactly one news item and changes nothing else of the record: the earlier items
  stay as they were, the new item's \<open>id\<close> is the former length plus 1 (so 1 when there
  was no news), its \<open>description\<close> is the message, \<open>icon\<close> and \<open>category\<close> are the fixed
  constants and \<open>read\<close> is false. Nothing later in a run touches the news: every record
  that a run of the pipeline returns holds exactly the one item appended in that run, with
  \<open>id\<close> 1.
\<close>

theorem update_user_data_appends:
  "(has_news_list user \<longrightarrow>
     (\<exists>b user' item w'.
        update_user_data env user message w = (Inr b, user', w') \<and>
        news_of user' = news_of user @ [item] \<and>
        (\<forall>k. k \<noteq> ''news'' \<longrightarrow> map_of user' k = map_of user k) \<and>
        getitem item ''id'' = Inr (PInt (int (length (news_of user)) + 1)) \<and>
        (news_of user = [] \<longrightarrow> getitem item ''id'' = Inr (PInt 1)) \<and>
        getitem item ''description'' = Inr message \<and>
        getitem item ''icon'' =
          Inr (PStr ''https://cdn-icons-png.flaticon.com/512/3135/3135679.png'') \<and>
        getitem item ''category'' = Inr (PStr ''investment_advice'') \<and>
        getitem item ''read'' = Inr (PBool False))) \<and>
   (run_etl_pipeline env self p w0 = (Inr (Some loaded), w1) \<longrightarrow>
     (\<forall>l\<in>set loaded. \<exists>item. news_of l = [item] \<and> getitem item ''id'' = Inr (PInt 1) \<and>
        getitem item ''read'' = Inr (PBool False)))"
proof (intro conjI impI ballI)
  assume nl: "has_news_list user"
  let ?ns = "news_of user"
  let ?item = "news_item (length ?ns) (isoformat (datetime_now env (length w))) message"
  let ?user' = "dict_set user ''news'' (PList (?ns @ [?item]))"
  have news: "map_of user ''news'' = Some (PList ?ns)"
    using nl by (rule has_news_list_news_of)
  from update_user_data_news_list [OF news]
  obtain b w' where u: "update_user_data env user message w = (Inr b, ?user', w')"
    by blast
  have n: "news_of ?user' = ?ns @ [?item]"
    by simp
  have k: "\<forall>k. k \<noteq> ''news'' \<longrightarrow> map_of ?user' k = map_of user k"
    by simp
  have i: "getitem ?item ''id'' = Inr (PInt (int (length ?ns) + 1))"
    by (simp add: news_item_fields)
  have i1: "?ns = [] \<longrightarrow> getitem ?item ''id'' = Inr (PInt 1)"
    by (simp add: news_item_fields)
  from u n k i i1 show "\<exists>b user' item w'.
        update_user_data env user message w = (Inr b, user', w') \<and>
        news_of user' = news_of user @ [item] \<and>
        (\<forall>k. k \<noteq> ''news'' \<longrightarrow> map_of user' k = map_of user k) \<and>
        getitem item ''id'' = Inr (PInt (int (length (news_of user)) + 1)) \<and>
        (news_of user = [] \<longrightarrow> getitem item ''id'' = Inr (PInt 1)) \<and>
        getitem item ''description'' = Inr message \<and>
        getitem item ''icon'' =
          Inr (PStr ''https://cdn-icons-png.flaticon.com/512/3135/3135679.png'') \<and>
        getitem item ''category'' = Inr (PStr ''investment_advice'') \<and>
        getitem item ''read'' = Inr (PBool False)"
    by (intro exI [of _ b] exI [of _ ?user'] exI [of _ ?item] exI [of _ w'] conjI)
       (simp_all only: news_item_fields)
next
  fix l
  assume run: "run_etl_pipeline env self p w0 = (Inr (Some loaded), w1)" and l: "l \<in> set loaded"
  from run_users_shape [OF run l] obtain u m d where
    fu: "fresh u" and
    shape: "l = dict_set (dict_set u ''ai_generated_message'' (PStr m)) ''news''
                 (PList [news_item 0 d (PStr m)])"
    by blast
  from shaped_facts(2) [OF fu shape]
  show "\<exists>item. news_of l = [item] \<and> getitem item ''id'' = Inr (PInt 1) \<and>
        getitem item ''read'' = Inr (PBool False)"
    by (simp add: news_item_fields)
qed

theorem update_user_data_appends_witness:
  "has_news_list demo_user \<and>
   (\<exists>b user' item w'.
      update_user_data demo_env demo_user (PStr ''Invest today'') [] = (Inr b, user', w') \<and>
      news_of user' = [item] \<and> getitem item ''id'' = Inr (PInt 1) \<and>
      getitem item ''description'' = Inr (PStr ''Invest today'')) \<and>
   (\<exists>loaded w. run_etl_pipeline demo_env (init ''key'') ''SDW2023.csv'' [] = (Inr (Some loaded), w) \<and>
      list_all (\<lambda>l. \<exists>item. news_of l = [item] \<and> getitem item ''id'' = Inr (PInt 1)) loaded)"
proof -
  have h: "has_news_list demo_user"
    by (simp add: demo_user_def has_news_list_def)
  have e: "news_of demo_user = []"
    by (simp add: demo_user_def news_of_def)
  from update_user_data_appends [where user = demo_user and env = demo_env
      and message = "PStr ''Invest today''" and w = "[]", THEN conjunct1, rule_format, OF h]
  obtain b user' item w' where
    "update_user_data demo_env demo_user (PStr ''Invest today'') [] = (Inr b, user', w')"
    "news_of user' = news_of demo_user @ [item]"
    "news_of demo_user = [] \<longrightarrow> getitem item ''id'' = Inr (PInt 1)"
    "getitem item ''description'' = Inr (PStr ''Invest today'')"
    by blast
  with e have a: "\<exists>b user' item w'.
      update_user_data demo_env demo_user (PStr ''Invest today'') [] = (Inr b, user', w') \<and>
      news_of user' = [item] \<and> getitem item ''id'' = Inr (PInt 1) \<and>
      getitem item ''description'' = Inr (PStr ''Invest today'')"
    by (intro exI [of _ b] exI [of _ user'] exI [of _ item] exI [of _ w']) simp
  from demo_run_succeeds obtain loaded w where
    run: "run_etl_pipeline demo_env (init ''key'') ''SDW2023.csv'' [] = (Inr (Some loaded), w)"
    by blast
  from update_user_data_appends [where env = demo_env and self = "init ''key''"
      and p = "''SDW2023.csv''" and ?w0.0 = "[]" and loaded = loaded and ?w1.0 = w,
      THEN conjunct2, rule_format, OF run]
  have "list_all (\<lambda>l. \<exists>item. news_of l = [item] \<and> getitem item ''id'' = Inr (PInt 1)) loaded"
    unfolding list_all_iff by blast
  with run have b: "\<exists>loaded w. run_etl_pipeline demo_env (init ''key'') ''SDW2023.csv'' [] =
      (Inr (Some loaded), w) \<and>
      list_all (\<lambda>l. \<exists>item. news_of l = [item] \<and> getitem item ''id'' = Inr (PInt 1)) loaded"
    by (intro exI [of _ loaded] exI [of _ w]) simp
  from h a b show ?thesis by (intro conjI)
qed

text \<open>
  C10. \<^verbatim>\<open>update_user_data\<close> is not atomic. The news item is appended before the file is
  written, so when writing raises the function returns False with the record already
  changed: the item stays in the news of the in-memory record although no file was written
  completely. The report therefore still counts it: the record is one of the
  \<open>users_with_news\<close>, its items add to \<open>total_messages_generated\<close>, and its own
  \<open>messages_count\<close> includes the item.
\<close>

theorem update_user_data_not_atomic:
  "has_news_list user \<and>
   save_user_update env
     (dict_set user ''news'' (PList (news_of user @
        [news_item (length (news_of user)) (isoformat (datetime_now env (length w))) message])))
     (w @ [Now]) = (Inl e, w2) \<longrightarrow>
   (\<exists>user' item evs.
      update_user_data env user message w = (Inr False, user', w @ evs) \<and>
      news_of user' = news_of user @ [item] \<and> getitem item ''description'' = Inr message \<and>
      written evs = [] \<and>
      truthy (dict_get user' ''news'' PNone) \<and>
      messages_count user' = Inr (length (news_of user) + 1) \<and>
      (\<forall>entry. summary_entry user' = Inr entry \<longrightarrow>
         getitem entry ''messages_count'' = Inr (PInt (int (length (news_of user)) + 1))) \<and>
      (\<forall>ts report. build_report ts [user'] = Inr report \<longrightarrow>
         getitem report ''users_with_news'' = Inr (PInt 1) \<and>
         getitem report ''total_messages_generated'' =
           Inr (PInt (int (length (news_of user)) + 1))))"
proof
  let ?item = "news_item (length (news_of user)) (isoformat (datetime_now env (length w))) message"
  let ?user' = "dict_set user ''news'' (PList (news_of user @ [?item]))"
  assume a: "has_news_list user \<and> save_user_update env ?user' (w @ [Now]) = (Inl e, w2)"
  then have news: "map_of user ''news'' = Some (PList (news_of user))"
    by (simp add: has_news_list_news_of)
  from a have s: "save_user_update env ?user' (w @ [Now]) = (Inl e, w2)" by simp
  from save_user_update_log [OF s] obtain evs where
    evs: "w2 = (w @ [Now]) @ evs" "written evs = []"
    by auto
  have u: "update_user_data env user message w = (Inr False, ?user', w @ [Now] @ evs)"
    unfolding update_user_data_def update_try_news_list [OF news] Let_def s
    using evs(1) by simp
  have nl: "has_news_list ?user'"
    by (simp add: has_news_list_def)
  have n: "news_of ?user' = news_of user @ [?item]"
    by simp
  have t: "truthy (dict_get ?user' ''news'' PNone)"
    by (simp add: truthy_news [OF nl])
  have c: "messages_count ?user' = Inr (length (news_of user) + 1)"
    by (simp add: messages_count_news [OF nl])
  have en: "\<forall>entry. summary_entry ?user' = Inr entry \<longrightarrow>
         getitem entry ''messages_count'' = Inr (PInt (int (length (news_of user)) + 1))"
    using summary_entry_count [OF _ nl] by simp
  have rep: "\<forall>ts report. build_report ts [?user'] = Inr report \<longrightarrow>
         getitem report ''users_with_news'' = Inr (PInt 1) \<and>
         getitem report ''total_messages_generated'' =
           Inr (PInt (int (length (news_of user)) + 1))"
  proof (intro allI impI)
    fix ts report
    assume b: "build_report ts [?user'] = Inr report"
    from nl have all: "\<forall>u\<in>set [?user']. has_news_list u" by simp
    from build_report_fields(2,3) [OF b all]
    show "getitem report ''users_with_news'' = Inr (PInt 1) \<and>
         getitem report ''total_messages_generated'' =
           Inr (PInt (int (length (news_of user)) + 1))"
      by simp
  qed
  have w: "written ([Now] @ evs) = []"
    using evs(2) by simp
  from u n w t c en rep
  show "\<exists>user' item evs.
      update_user_data env user message w = (Inr False, user', w @ evs) \<and>
      news_of user' = news_of user @ [item] \<and> getitem item ''description'' = Inr message \<and>
      written evs = [] \<and>
      truthy (dict_get user' ''news'' PNone) \<and>
      messages_count user' = Inr (length (news_of user) + 1) \<and>
      (\<forall>entry. summary_entry user' = Inr entry \<longrightarrow>
         getitem entry ''messages_count'' = Inr (PInt (int (length (news_of user)) + 1))) \<and>
      (\<forall>ts report. build_report ts [user'] = Inr report \<longrightarrow>
         getitem report ''users_with_news'' = Inr (PInt 1) \<and>
         getitem report ''total_messages_generated'' =
           Inr (PInt (int (length (news_of user)) + 1)))"
    by (intro exI [of _ ?user'] exI [of _ ?item] exI [of _ "[Now] @ evs"] conjI)
       (simp_all only: news_item_fields)
qed

theorem update_user_data_not_atomic_witness:
  "(\<exists>user' item evs.
      update_user_data unwritable_env demo_user (PStr ''Invest today'') [] =
        (Inr False, user', evs) \<and>
      news_of user' = [item] \<and> getitem item ''description'' = Inr (PStr ''Invest today'') \<and>
      written evs = [] \<and> messages_count user' = Inr 1) \<and>
   (\<exists>loaded w.
      run_etl_pipeline unwritable_env (init ''key'') ''SDW2023.csv'' [] = (Inr (Some loaded), w) \<and>
      written_user_ids w = [] \<and>
      map (\<lambda>r. getitem r ''users_with_news'') (written_reports w) = [Inr (PInt 2)] \<and>
      map (\<lambda>r. getitem r ''total_messages_generated'') (written_reports w) = [Inr (PInt 2)])"
proof -
  have h: "has_news_list demo_user"
    by (simp add: demo_user_def has_news_list_def)
  have e: "news_of demo_user = []"
    by (simp add: demo_user_def news_of_def)
  from update_user_data_not_atomic [where env = unwritable_env and user = demo_user
      and message = "PStr ''Invest today''" and w = "[]", rule_format, OF conjI, OF h]
    unwritable_save
  obtain user' item evs where
    "update_user_data unwritable_env demo_user (PStr ''Invest today'') [] =
        (Inr False, user', [] @ evs)"
    "news_of user' = news_of demo_user @ [item]"
    "getitem item ''description'' = Inr (PStr ''Invest today'')"
    "written evs = []" "messages_count user' = Inr (length (news_of demo_user) + 1)"
    by (simp only: append_Nil) blast
  with e have a: "\<exists>user' item evs.
      update_user_data unwritable_env demo_user (PStr ''Invest today'') [] =
        (Inr False, user', evs) \<and>
      news_of user' = [item] \<and> getitem item ''description'' = Inr (PStr ''Invest today'') \<and>
      written evs = [] \<and> messages_count user' = Inr 1"
    by (intro exI [of _ user'] exI [of _ item] exI [of _ evs]) simp
  from unwritable_run obtain loaded w where
    "run_etl_pipeline unwritable_env (init ''key'') ''SDW2023.csv'' [] = (Inr (Some loaded), w)"
    "written_user_ids w = []"
    "map (\<lambda>r. getitem r ''users_with_news'') (written_reports w) = [Inr (PInt 2)]"
    "map (\<lambda>r. getitem r ''total_messages_generated'') (written_reports w) = [Inr (PInt 2)]"
    by (elim exE conjE)
  then have b: "\<exists>loaded w.
      run_etl_pipeline unwritable_env (init ''key'') ''SDW2023.csv'' [] = (Inr (Some loaded), w) \<and>
      written_user_ids w = [] \<and>
      map (\<lambda>r. getitem r ''users_with_news'') (written_reports w) = [Inr (PInt 2)] \<and>
      map (\<lambda>r. getitem r ''total_messages_generated'') (written_reports w) = [Inr (PInt 2)]"
    by (intro exI [of _ loaded] exI [of _ w] conjI)
  from a b show ?thesis by (intro conjI)
qed

section \<open>Properties of the extraction\<close>

text \<open>
  C7, as the code has it. For every path, \<^verbatim>\<open>extract_users_from_csv\<close> returns a list and
  never raises. When the file could be read and has the column, the list is the column as
  pandas read it, in its order and with its repetitions: a list of integers when the cells
  are integers, and the cells as they are (strings, floats, NaN) otherwise, for nothing
  checks them. When reading raised, whatever the exception (a missing file, rows the parser
  rejects), and when the column is missing, the list is empty, and the caller sees nothing
  else of the failure.
\<close>

theorem extract_users_from_csv_result:
  "(\<exists>user_ids. extract_users_from_csv env p w = (Inr user_ids, w @ [ReadCsv p])) \<and>
   (\<forall>df col. pd_read_csv env (length w) p = Inr df \<and> map_of df ''UserID'' = Some col
      \<longrightarrow> fst (extract_users_from_csv env p w) = Inr col) \<and>
   (\<forall>df ns. pd_read_csv env (length w) p = Inr df \<and> map_of df ''UserID'' = Some (map PInt ns)
      \<longrightarrow> fst (extract_users_from_csv env p w) = Inr (map PInt ns)) \<and>
   (\<forall>e. pd_read_csv env (length w) p = Inl e
      \<longrightarrow> fst (extract_users_from_csv env p w) = Inr []) \<and>
   (\<forall>df. pd_read_csv env (length w) p = Inr df \<and> map_of df ''UserID'' = None
      \<longrightarrow> fst (extract_users_from_csv env p w) = Inr [])"
  by (auto simp: extract_users_from_csv_def extract_try_def split: sum.splits option.splits)

theorem extract_users_from_csv_result_witness:
  "fst (extract_users_from_csv demo_env ''repeated.csv'' []) = Inr [PInt 3, PInt 1, PInt 3] \<and>
   fst (extract_users_from_csv demo_env ''missing.csv'' []) = Inr [] \<and>
   fst (extract_users_from_csv demo_env ''other.csv'' []) = Inr []"
  using extract_users_from_csv_result [of demo_env "''repeated.csv''" "[]"]
    extract_users_from_csv_result [of demo_env "''missing.csv''" "[]"]
    extract_users_from_csv_result [of demo_env "''other.csv''" "[]"]
  by (simp add: demo_env_def demo_csv_def)

text \<open>
  The claim as it was stated fails on a file whose rows pandas reads without raising
  although the identifier column does not hold integers: the cells are returned, neither
  integers nor the empty list.
\<close>

theorem extract_users_from_csv_malformed_rows:
  "extract_users_from_csv demo_env ''mixed.csv'' [] =
     (Inr [PStr ''abc'', PFloat (3 / 2), PNonFinite NaN], [ReadCsv ''mixed.csv''])"
  by (simp add: extract_users_from_csv_def extract_try_def demo_env_def demo_csv_def)

section \<open>Properties of the message generation\<close>

text \<open>
  C2. For every record with a \<open>name\<close>, whenever the body of the \<^verbatim>\<open>try\<close> of
  \<^verbatim>\<open>generate_ai_news\<close> ends with an exception, whichever it is, the function returns (it
  does not raise) the name followed by the text ", invista hoje para um futuro financeiro
  mais seguro e pr(o)spero!", where (o) is the letter o with an acute accent, the two bytes C3 B3 of its UTF-8 encoding. This is so when
  the text-generation call that the function makes raises, when the client cannot be
  created, and when the response has no choice to take the text from. Consequently, when
  the service raises at every call, every record that a run of the pipeline returns holds
  one news item whose \<open>description\<close> is that text for the record's name.
\<close>

theorem generate_ai_news_fallback:
  "(\<forall>v e w1. map_of user ''name'' = Some v \<and> ai_try env self user w = (Inl e, w1) \<longrightarrow>
      generate_ai_news env self user w = (Inr (py_str (repr env) v @ ('', invista hoje para um futuro financeiro mais seguro e pr'' @ [CHR 0xC3, CHR 0xB3] @ ''spero!'')), w1)) \<and>
   (\<forall>n e w1. map_of user ''name'' = Some (PStr n) \<and> ai_try env self user w = (Inl e, w1) \<longrightarrow>
      fst (generate_ai_news env self user w) = Inr (n @ ('', invista hoje para um futuro financeiro mais seguro e pr'' @ [CHR 0xC3, CHR 0xB3] @ ''spero!''))) \<and>
   (\<forall>v vals e. map_of user ''name'' = Some v \<and>
      openai_client env (openai_api_key self) = None \<and> prompt_values user = Inr vals \<and>
      chat_create env (length w) (openai_api_key self) vals = Inl e \<longrightarrow>
      generate_ai_news env self user w =
        (Inr (py_str (repr env) v @ ('', invista hoje para um futuro financeiro mais seguro e pr'' @ [CHR 0xC3, CHR 0xB3] @ ''spero!'')), w @ [ChatCreate vals])) \<and>
   (\<forall>v vals. map_of user ''name'' = Some v \<and>
      openai_client env (openai_api_key self) = None \<and> prompt_values user = Inr vals \<and>
      chat_create env (length w) (openai_api_key self) vals = Inr [] \<longrightarrow>
      generate_ai_news env self user w =
        (Inr (py_str (repr env) v @ ('', invista hoje para um futuro financeiro mais seguro e pr'' @ [CHR 0xC3, CHR 0xB3] @ ''spero!'')), w @ [ChatCreate vals])) \<and>
   (\<forall>v e. map_of user ''name'' = Some v \<and> openai_client env (openai_api_key self) = Some e \<longrightarrow>
      generate_ai_news env self user w = (Inr (py_str (repr env) v @ ('', invista hoje para um futuro financeiro mais seguro e pr'' @ [CHR 0xC3, CHR 0xB3] @ ''spero!'')), w)) \<and>
   ((\<forall>t k vals. \<exists>e. chat_create env t k vals = Inl e) \<and>
    run_etl_pipeline env self p w0 = (Inr (Some loaded), w') \<longrightarrow>
      (\<forall>l\<in>set loaded. \<exists>v item. map_of l ''name'' = Some v \<and> news_of l = [item] \<and>
         getitem item ''description'' = Inr (PStr (py_str (repr env) v @ ('', invista hoje para um futuro financeiro mais seguro e pr'' @ [CHR 0xC3, CHR 0xB3] @ ''spero!'')))))"
proof (intro conjI allI impI ballI)
  fix v e w1
  assume "map_of user ''name'' = Some v \<and> ai_try env self user w = (Inl e, w1)"
  then show "generate_ai_news env self user w = (Inr (py_str (repr env) v @ ('', invista hoje para um futuro financeiro mais seguro e pr'' @ [CHR 0xC3, CHR 0xB3] @ ''spero!'')), w1)"
    by (simp add: generate_ai_news_def fallback_suffix_def)
next
  fix n e w1
  assume "map_of user ''name'' = Some (PStr n) \<and> ai_try env self user w = (Inl e, w1)"
  then show "fst (generate_ai_news env self user w) = Inr (n @ ('', invista hoje para um futuro financeiro mais seguro e pr'' @ [CHR 0xC3, CHR 0xB3] @ ''spero!''))"
    by (simp add: generate_ai_news_def fallback_suffix_def)
next
  fix v vals e
  assume "map_of user ''name'' = Some v \<and>
      openai_client env (openai_api_key self) = None \<and> prompt_values user = Inr vals \<and>
      chat_create env (length w) (openai_api_key self) vals = Inl e"
  then show "generate_ai_news env self user w =
        (Inr (py_str (repr env) v @ ('', invista hoje para um futuro financeiro mais seguro e pr'' @ [CHR 0xC3, CHR 0xB3] @ ''spero!'')), w @ [ChatCreate vals])"
    by (simp add: generate_ai_news_def ai_try_def fallback_suffix_def)
next
  fix v vals
  assume "map_of user ''name'' = Some v \<and>
      openai_client env (openai_api_key self) = None \<and> prompt_values user = Inr vals \<and>
      chat_create env (length w) (openai_api_key self) vals = Inr []"
  then show "generate_ai_news env self user w =
        (Inr (py_str (repr env) v @ ('', invista hoje para um futuro financeiro mais seguro e pr'' @ [CHR 0xC3, CHR 0xB3] @ ''spero!'')), w @ [ChatCreate vals])"
    by (simp add: generate_ai_news_def ai_try_def first_message_def fallback_suffix_def)
next
  fix v e
  assume "map_of user ''name'' = Some v \<and> openai_client env (openai_api_key self) = Some e"
  then show "generate_ai_news env self user w = (Inr (py_str (repr env) v @ ('', invista hoje para um futuro financeiro mais seguro e pr'' @ [CHR 0xC3, CHR 0xB3] @ ''spero!'')), w)"
    by (simp add: generate_ai_news_def ai_try_def fallback_suffix_def)
next
  fix l
  assume a: "(\<forall>t k vals. \<exists>e. chat_create env t k vals = Inl e) \<and>
    run_etl_pipeline env self p w0 = (Inr (Some loaded), w')" and l: "l \<in> set loaded"
  from a have down: "\<forall>t k vals. \<exists>e. chat_create env t k vals = Inl e"
    and run: "run_etl_pipeline env self p w0 = (Inr (Some loaded), w')" by simp_all
  from run_users_shape [OF run l] obtain u m d wa wb where
    fu: "fresh u" and g: "generate_ai_news env self u wa = (Inr m, wb)" and
    shape: "l = dict_set (dict_set u ''ai_generated_message'' (PStr m)) ''news''
                 (PList [news_item 0 d (PStr m)])"
    by blast
  from fresh_key(2) [OF fu] obtain v where v: "map_of u ''name'' = Some v" ..
  from generate_ai_news_unreachable [OF down v g]
  have m: "m = py_str (repr env) v @ ('', invista hoje para um futuro financeiro mais seguro e pr'' @ [CHR 0xC3, CHR 0xB3] @ ''spero!'')"
    by (simp add: fallback_suffix_def)
  from shaped_facts(2,4) [OF fu shape] v
  have "map_of l ''name'' = Some v" "news_of l = [news_item 0 d (PStr m)]" by simp_all
  with m show "\<exists>v item. map_of l ''name'' = Some v \<and> news_of l = [item] \<and>
         getitem item ''description'' = Inr (PStr (py_str (repr env) v @ ('', invista hoje para um futuro financeiro mais seguro e pr'' @ [CHR 0xC3, CHR 0xB3] @ ''spero!'')))"
    by (simp add: news_item_fields)
qed

theorem generate_ai_news_fallback_witness:
  "generate_ai_news demo_env (init ''key'') demo_user [] =
     (Inr (''Leanne Graham, invista hoje para um futuro financeiro mais seguro e pr''
           @ [CHR 0xC3, CHR 0xB3] @ ''spero!''),
      [ChatCreate [PStr ''Leanne Graham'', PStr ''user@example.org'', PStr ''Romaguera-Crona'',
                   PFloat (round2 (uniform (1 / 3) 1000 50000))]]) \<and>
   (\<exists>loaded w.
      run_etl_pipeline demo_env (init ''key'') ''SDW2023.csv'' [] = (Inr (Some loaded), w) \<and>
      map (\<lambda>l. map_of l ''name'') loaded =
        [Some (PStr ''Leanne Graham''), Some (PStr ''Ervin Howell'')] \<and>
      list_all (\<lambda>l. \<exists>v item. map_of l ''name'' = Some v \<and> news_of l = [item] \<and>
         getitem item ''description'' = Inr (PStr (py_str (repr demo_env) v @ ('', invista hoje para um futuro financeiro mais seguro e pr'' @ [CHR 0xC3, CHR 0xB3] @ ''spero!'')))) loaded)"
proof -
  have h: "map_of demo_user ''name'' = Some (PStr ''Leanne Graham'') \<and>
      openai_client demo_env (openai_api_key (init ''key'')) = None \<and>
      prompt_values demo_user =
        Inr [PStr ''Leanne Graham'', PStr ''user@example.org'', PStr ''Romaguera-Crona'',
             PFloat (round2 (uniform (1 / 3) 1000 50000))] \<and>
      chat_create demo_env (length ([] :: world)) (openai_api_key (init ''key''))
        [PStr ''Leanne Graham'', PStr ''user@example.org'', PStr ''Romaguera-Crona'',
         PFloat (round2 (uniform (1 / 3) 1000 50000))] = Inl (OtherError ''APIConnectionError'')"
    unfolding demo_prompt by (simp add: demo_user_def demo_env_def)
  from generate_ai_news_fallback [where env = demo_env and self = "init ''key''"
      and user = demo_user and w = "[]",
      THEN conjunct2, THEN conjunct2, THEN conjunct1, rule_format, OF h]
  have a: "generate_ai_news demo_env (init ''key'') demo_user [] =
     (Inr (''Leanne Graham, invista hoje para um futuro financeiro mais seguro e pr''
           @ [CHR 0xC3, CHR 0xB3] @ ''spero!''),
      [ChatCreate [PStr ''Leanne Graham'', PStr ''user@example.org'', PStr ''Romaguera-Crona'',
                   PFloat (round2 (uniform (1 / 3) 1000 50000))]])"
    by simp
  have down: "\<forall>t k vals. \<exists>e. chat_create demo_env t k vals = Inl e"
    by (simp add: demo_env_def)
  from demo_run_facts obtain loaded w where
    run: "run_etl_pipeline demo_env (init ''key'') ''SDW2023.csv'' [] = (Inr (Some loaded), w)" and
    names: "map (\<lambda>l. map_of l ''name'') loaded =
        [Some (PStr ''Leanne Graham''), Some (PStr ''Ervin Howell'')]"
    by (elim exE conjE)
  from generate_ai_news_fallback [where env = demo_env and self = "init ''key''"
      and p = "''SDW2023.csv''" and ?w0.0 = "[]" and loaded = loaded and w' = w,
      THEN conjunct2, THEN conjunct2, THEN conjunct2, THEN conjunct2, THEN conjunct2,
      rule_format, OF conjI, OF down run]
  have "list_all (\<lambda>l. \<exists>v item. map_of l ''name'' = Some v \<and> news_of l = [item] \<and>
         getitem item ''description'' = Inr (PStr (py_str (repr demo_env) v @ ('', invista hoje para um futuro financeiro mais seguro e pr'' @ [CHR 0xC3, CHR 0xB3] @ ''spero!'')))) loaded"
    unfolding list_all_iff by blast
  with run names have b: "\<exists>loaded w.
      run_etl_pipeline demo_env (init ''key'') ''SDW2023.csv'' [] = (Inr (Some loaded), w) \<and>
      map (\<lambda>l. map_of l ''name'') loaded =
        [Some (PStr ''Leanne Graham''), Some (PStr ''Ervin Howell'')] \<and>
      list_all (\<lambda>l. \<exists>v item. map_of l ''name'' = Some v \<and> news_of l = [item] \<and>
         getitem item ''description'' = Inr (PStr (py_str (repr demo_env) v @ ('', invista hoje para um futuro financeiro mais seguro e pr'' @ [CHR 0xC3, CHR 0xB3] @ ''spero!'')))) loaded"
    by (intro exI [of _ loaded] exI [of _ w] conjI)
  from a b show ?thesis by (intro conjI)
qed

section \<open>Properties of the boolean outcome of the load\<close>

text \<open>
  C8. \<^verbatim>\<open>update_user_data\<close> always returns a boolean and never raises: it returns True when
  the body of its \<^verbatim>\<open>try\<close> runs to its end, and when the body raises, whatever the
  exception, it returns False. For a record whose \<open>news\<close> is a list, the outcome is True
  when writing the user's file succeeds and the record has a \<open>name\<close>, and False when writing
  the file raises or the record has no \<open>name\<close> to print; for a record with no \<open>news\<close> it is
  False. The load loop of the pipeline goes on with the remaining records after a False:
  it handles every record, and the success count it hands to the final console line is the
  number of records for which \<^verbatim>\<open>update_user_data\<close> returned True.
\<close>

theorem update_user_data_never_raises:
  "(\<exists>b user' w'. update_user_data env user message w = (Inr b, user', w')) \<and>
   (\<forall>user' w'. update_try env user message w = (Inr (), user', w') \<longrightarrow>
      update_user_data env user message w = (Inr True, user', w')) \<and>
   (\<forall>e user' w'. update_try env user message w = (Inl e, user', w') \<longrightarrow>
      update_user_data env user message w = (Inr False, user', w')) \<and>
   (\<forall>v w2. has_news_list user \<and> map_of user ''name'' = Some v \<and>
      save_user_update env
        (dict_set user ''news'' (PList (news_of user @
           [news_item (length (news_of user)) (isoformat (datetime_now env (length w))) message])))
        (w @ [Now]) = (Inr (), w2) \<longrightarrow>
      update_user_data env user message w =
        (Inr True,
         dict_set user ''news'' (PList (news_of user @
           [news_item (length (news_of user)) (isoformat (datetime_now env (length w))) message])),
         w2)) \<and>
   (\<forall>e w2. has_news_list user \<and>
      save_user_update env
        (dict_set user ''news'' (PList (news_of user @
           [news_item (length (news_of user)) (isoformat (datetime_now env (length w))) message])))
        (w @ [Now]) = (Inl e, w2) \<longrightarrow>
      update_user_data env user message w =
        (Inr False,
         dict_set user ''news'' (PList (news_of user @
           [news_item (length (news_of user)) (isoformat (datetime_now env (length w))) message])),
         w2)) \<and>
   (\<forall>w2. has_news_list user \<and> map_of user ''name'' = None \<and>
      save_user_update env
        (dict_set user ''news'' (PList (news_of user @
           [news_item (length (news_of user)) (isoformat (datetime_now env (length w))) message])))
        (w @ [Now]) = (Inr (), w2) \<longrightarrow>
      fst (update_user_data env user message w) = Inr False) \<and>
   (map_of user ''news'' = None \<longrightarrow>
      update_user_data env user message w = (Inr False, user, w)) \<and>
   ((\<forall>u\<in>set users. \<exists>m. map_of u ''ai_generated_message'' = Some m) \<longrightarrow>
      (\<exists>loaded n w'. load_users env users [] 0 w = (Inr (loaded, n), w') \<and>
         length loaded = length users \<and>
         length (update_flags env users w) = length users \<and>
         n = length (filter (\<lambda>r. r = Inr True) (update_flags env users w)))) \<and>
   (run_etl_pipeline env self p w0 = (Inr (Some loaded), w1) \<longrightarrow>
      (\<exists>processed w3 n w4. load_users env processed [] 0 w3 = (Inr (loaded, n), w4) \<and>
         length loaded = length processed \<and>
         n = length (filter (\<lambda>r. r = Inr True) (update_flags env processed w3)) \<and>
         last w1 = Console (Summary n (length loaded))))"
proof (intro conjI allI impI)
  show "\<exists>b user' w'. update_user_data env user message w = (Inr b, user', w')"
    by (rule update_user_data_total)
next
  fix user' w'
  assume "update_try env user message w = (Inr (), user', w')"
  then show "update_user_data env user message w = (Inr True, user', w')"
    by (simp add: update_user_data_def)
next
  fix e user' w'
  assume "update_try env user message w = (Inl e, user', w')"
  then show "update_user_data env user message w = (Inr False, user', w')"
    by (simp add: update_user_data_def)
next
  fix v w2
  let ?u = "dict_set user ''news'' (PList (news_of user @
           [news_item (length (news_of user)) (isoformat (datetime_now env (length w))) message]))"
  assume a: "has_news_list user \<and> map_of user ''name'' = Some v \<and>
      save_user_update env ?u (w @ [Now]) = (Inr (), w2)"
  then have news: "map_of user ''news'' = Some (PList (news_of user))"
    by (simp add: has_news_list_news_of)
  from a have "map_of ?u ''name'' = Some v"
    by (simp add: map_of_dict_set)
  then have "dict_item ?u ''name'' = Inr v"
    by simp
  with a show "update_user_data env user message w = (Inr True, ?u, w2)"
    unfolding update_user_data_def update_try_news_list [OF news] Let_def
    by simp
next
  fix e w2
  let ?u = "dict_set user ''news'' (PList (news_of user @
           [news_item (length (news_of user)) (isoformat (datetime_now env (length w))) message]))"
  assume a: "has_news_list user \<and> save_user_update env ?u (w @ [Now]) = (Inl e, w2)"
  then have news: "map_of user ''news'' = Some (PList (news_of user))"
    by (simp add: has_news_list_news_of)
  from a show "update_user_data env user message w = (Inr False, ?u, w2)"
    unfolding update_user_data_def update_try_news_list [OF news] Let_def
    by simp
next
  fix w2
  let ?u = "dict_set user ''news'' (PList (news_of user @
           [news_item (length (news_of user)) (isoformat (datetime_now env (length w))) message]))"
  assume a: "has_news_list user \<and> map_of user ''name'' = None \<and>
      save_user_update env ?u (w @ [Now]) = (Inr (), w2)"
  then have news: "map_of user ''news'' = Some (PList (news_of user))"
    by (simp add: has_news_list_news_of)
  from a have "map_of ?u ''name'' = None"
    by (simp add: map_of_dict_set)
  then have "dict_item ?u ''name'' = Inl KeyError"
    by simp
  with a show "fst (update_user_data env user message w) = Inr False"
    unfolding update_user_data_def update_try_news_list [OF news] Let_def
    by simp
next
  assume "map_of user ''news'' = None"
  then have "dict_item user ''news'' = Inl KeyError"
    by simp
  then show "update_user_data env user message w = (Inr False, user, w)"
    by (simp add: update_user_data_def update_try_def)
next
  assume "\<forall>u\<in>set users. \<exists>m. map_of u ''ai_generated_message'' = Some m"
  from load_users_total [OF this] obtain loaded n w' where
    l: "load_users env users [] 0 w = (Inr (loaded, n), w')"
    by blast
  from load_users_result [OF l] obtain new where
    "loaded = [] @ new"
    "list_all2 (\<lambda>p l. \<exists>m b w0 w1. map_of p ''ai_generated_message'' = Some m \<and>
                  update_user_data env p m w0 = (Inr b, l, w1)) users new"
    "n = 0 + length (filter (\<lambda>r. r = Inr True) (update_flags env users w))"
    "length (update_flags env users w) = length users"
    by blast
  with l show "\<exists>loaded n w'. load_users env users [] 0 w = (Inr (loaded, n), w') \<and>
         length loaded = length users \<and>
         length (update_flags env users w) = length users \<and>
         n = length (filter (\<lambda>r. r = Inr True) (update_flags env users w))"
    by (intro exI [of _ loaded] exI [of _ n] exI [of _ w']) (simp add: list_all2_lengthD)
next
  assume "run_etl_pipeline env self p w0 = (Inr (Some loaded), w1)"
  from run_success [OF this] obtain processed w3 n w4 w5 where
    l: "load_users env processed [] 0 w3 = (Inr (loaded, n), w4)" and
    w1: "w1 = w5 @ [Console (Summary n (length loaded))]"
    by blast
  from load_users_result [OF l] obtain new where
    "loaded = [] @ new"
    "list_all2 (\<lambda>p l. \<exists>m b w0 w1. map_of p ''ai_generated_message'' = Some m \<and>
                  update_user_data env p m w0 = (Inr b, l, w1)) processed new"
    "n = 0 + length (filter (\<lambda>r. r = Inr True) (update_flags env processed w3))"
    by blast
  with l w1 show "\<exists>processed w3 n w4. load_users env processed [] 0 w3 = (Inr (loaded, n), w4) \<and>
         length loaded = length processed \<and>
         n = length (filter (\<lambda>r. r = Inr True) (update_flags env processed w3)) \<and>
         last w1 = Console (Summary n (length loaded))"
    by (intro exI [of _ processed] exI [of _ w3] exI [of _ n] exI [of _ w4])
       (simp add: list_all2_lengthD)
qed

theorem update_user_data_never_raises_witness:
  "fst (update_user_data demo_env demo_user (PStr ''Invest today'') []) = Inr True \<and>
   fst (update_user_data unwritable_env demo_user (PStr ''Invest today'') []) = Inr False \<and>
   update_user_data demo_env [(''id'', PInt 1)] (PStr ''Invest today'') [] =
     (Inr False, [(''id'', PInt 1)], []) \<and>
   (\<exists>loaded w processed w3 n w4.
      run_etl_pipeline demo_env (init ''key'') ''SDW2023.csv'' [] = (Inr (Some loaded), w) \<and>
      load_users demo_env processed [] 0 w3 = (Inr (loaded, n), w4) \<and>
      n = length (filter (\<lambda>r. r = Inr True) (update_flags demo_env processed w3)) \<and>
      length processed = 2 \<and> n = 2 \<and> last w = Console (Summary 2 2)) \<and>
   (\<exists>loaded w processed w3 n w4.
      run_etl_pipeline half_writable_env (init ''key'') ''SDW2023.csv'' [] = (Inr (Some loaded), w) \<and>
      load_users half_writable_env processed [] 0 w3 = (Inr (loaded, n), w4) \<and>
      n = length (filter (\<lambda>r. r = Inr True) (update_flags half_writable_env processed w3)) \<and>
      length processed = 2 \<and> n = 1 \<and> last w = Console (Summary 1 2)) \<and>
   (\<exists>loaded w processed w3 n w4.
      run_etl_pipeline unwritable_env (init ''key'') ''SDW2023.csv'' [] = (Inr (Some loaded), w) \<and>
      load_users unwritable_env processed [] 0 w3 = (Inr (loaded, n), w4) \<and>
      n = length (filter (\<lambda>r. r = Inr True) (update_flags unwritable_env processed w3)) \<and>
      length processed = 2 \<and> n = 0 \<and> last w = Console (Summary 0 2))"
proof -
  note main = update_user_data_never_raises
  have h: "has_news_list demo_user"
    by (simp add: demo_user_def has_news_list_def)
  have nm: "map_of demo_user ''name'' = Some (PStr ''Leanne Graham'')"
    by (simp add: demo_user_def)
  from main [where env = demo_env and user = demo_user
      and message = "PStr ''Invest today''" and w = "[]",
      THEN conjunct2, THEN conjunct2, THEN conjunct2, THEN conjunct1, rule_format,
      OF conjI, OF h conjI, OF nm]
    demo_save
  have a: "fst (update_user_data demo_env demo_user (PStr ''Invest today'') []) = Inr True"
    by simp
  from main [where env = unwritable_env and user = demo_user
      and message = "PStr ''Invest today''" and w = "[]",
      THEN conjunct2, THEN conjunct2, THEN conjunct2, THEN conjunct2, THEN conjunct1,
      rule_format, OF conjI, OF h]
    unwritable_save
  have b: "fst (update_user_data unwritable_env demo_user (PStr ''Invest today'') []) = Inr False"
    by simp
  from main [where env = demo_env and user = "[(''id'', PInt 1)]"
      and message = "PStr ''Invest today''" and w = "[]",
      THEN conjunct2, THEN conjunct2, THEN conjunct2, THEN conjunct2, THEN conjunct2,
      THEN conjunct2, THEN conjunct1]
  have c: "update_user_data demo_env [(''id'', PInt 1)] (PStr ''Invest today'') [] =
     (Inr False, [(''id'', PInt 1)], [])"
    by simp
  have run: "\<exists>loaded w processed w3 n w4.
      run_etl_pipeline env (init ''key'') ''SDW2023.csv'' [] = (Inr (Some loaded), w) \<and>
      load_users env processed [] 0 w3 = (Inr (loaded, n), w4) \<and>
      n = length (filter (\<lambda>r. r = Inr True) (update_flags env processed w3)) \<and>
      length processed = 2 \<and> n = k \<and> last w = Console (Summary k 2)"
    if "\<exists>loaded w. run_etl_pipeline env (init ''key'') ''SDW2023.csv'' [] = (Inr (Some loaded), w) \<and>
          length loaded = 2 \<and> last w = Console (Summary k 2)" for env k
  proof -
    from that obtain loaded w where
      run: "run_etl_pipeline env (init ''key'') ''SDW2023.csv'' [] = (Inr (Some loaded), w)"
      and v: "length loaded = 2" "last w = Console (Summary k 2)"
      by (elim exE conjE)
    from main [where env = env and self = "init ''key''"
        and p = "''SDW2023.csv''" and ?w0.0 = "[]" and loaded = loaded and ?w1.0 = w,
        THEN conjunct2, THEN conjunct2, THEN conjunct2, THEN conjunct2, THEN conjunct2,
        THEN conjunct2, THEN conjunct2, THEN conjunct2, rule_format, OF run]
    obtain processed w3 n w4 where
      l: "load_users env processed [] 0 w3 = (Inr (loaded, n), w4)"
        "length loaded = length processed"
        "n = length (filter (\<lambda>r. r = Inr True) (update_flags env processed w3))"
        "last w = Console (Summary n (length loaded))"
      by (elim exE conjE)
    with v have "n = k" "length processed = 2" by simp_all
    with run l v show ?thesis
      by (intro exI [of _ loaded] exI [of _ w] exI [of _ processed] exI [of _ w3] exI [of _ n]
            exI [of _ w4]) simp
  qed
  have d1: "\<exists>loaded w. run_etl_pipeline demo_env (init ''key'') ''SDW2023.csv'' [] = (Inr (Some loaded), w) \<and>
          length loaded = 2 \<and> last w = Console (Summary 2 2)"
  proof -
    from demo_run_facts obtain loaded w where
      r: "run_etl_pipeline demo_env (init ''key'') ''SDW2023.csv'' [] = (Inr (Some loaded), w)"
      and n: "map (\<lambda>l. map_of l ''name'') loaded =
        [Some (PStr ''Leanne Graham''), Some (PStr ''Ervin Howell'')]"
      and s: "last w = Console (Summary 2 2)"
      by (elim exE conjE)
    from n have "length (map (\<lambda>l. map_of l ''name'') loaded) = 2" by simp
    then have "length loaded = 2" by simp
    with r s show ?thesis by (intro exI [of _ loaded] exI [of _ w] conjI)
  qed
  have d2: "\<exists>loaded w. run_etl_pipeline half_writable_env (init ''key'') ''SDW2023.csv'' [] = (Inr (Some loaded), w) \<and>
          length loaded = 2 \<and> last w = Console (Summary 1 2)"
    using half_writable_run by (elim exE conjE) (intro exI conjI)
  have d3: "\<exists>loaded w. run_etl_pipeline unwritable_env (init ''key'') ''SDW2023.csv'' [] = (Inr (Some loaded), w) \<and>
          length loaded = 2 \<and> last w = Console (Summary 0 2)"
    using unwritable_run by (elim exE conjE) (intro exI conjI)
  from a b c run [OF d1] run [OF d2] run [OF d3] show ?thesis by (intro conjI)
qed

section \<open>Properties of the user files\<close>

text \<open>
  C9, as the program has it. \<^verbatim>\<open>_save_user_update\<close> asks for the directory
  \<^verbatim>\<open>user_updates\<close> before it opens anything, and the only file it opens and writes is
  \<^verbatim>\<open>user_updates/user_\<close>, the \<open>id\<close> of the record, \<^verbatim>\<open>_\<close>, the clock reading as
  \<^verbatim>\<open>YYYYMMDD_HHMMSS\<close> and \<^verbatim>\<open>.json\<close>; every file that a run of the pipeline writes, the report
  apart, has such a name, with the \<open>id\<close> of the document written. The name leaves the
  microseconds of the clock out: the names of two files for the same \<open>id\<close> are different
  exactly when the two clock readings differ in the second or in a larger field. Two runs
  that read the same second write the same file.
\<close>

theorem save_user_update_path:
  "(save_user_update env user w = (r, w') \<and> map_of user ''id'' = Some v \<longrightarrow>
      (\<exists>x y z. prefix w' (w @
          [Now, Makedirs ''user_updates'' x, OpenW (''user_updates/user_'' @ py_str (repr env) v @ ''_'' @ strftime_stamp (datetime_now env (length w)) @ ''.json'') y, Dump (''user_updates/user_'' @ py_str (repr env) v @ ''_'' @ strftime_stamp (datetime_now env (length w)) @ ''.json'') (PDict user) z]) \<and>
         (r = Inr () \<longrightarrow> w' = w @
          [Now, Makedirs ''user_updates'' None, OpenW (''user_updates/user_'' @ py_str (repr env) v @ ''_'' @ strftime_stamp (datetime_now env (length w)) @ ''.json'') None, Dump (''user_updates/user_'' @ py_str (repr env) v @ ''_'' @ strftime_stamp (datetime_now env (length w)) @ ''.json'') (PDict user) None]))) \<and>
   user_filename env v t = ''user_updates/user_'' @ py_str (repr env) v @ ''_'' @ strftime_stamp t @ ''.json'' \<and>
   (in_range t \<longrightarrow>
      length (strftime_stamp t) = 15 \<and> strftime_stamp t ! 8 = CHR ''_'' \<and>
      digits_value (take 4 (strftime_stamp t)) = year t \<and>
      digits_value (take 2 (drop 4 (strftime_stamp t))) = month t \<and>
      digits_value (take 2 (drop 6 (strftime_stamp t))) = day t \<and>
      digits_value (take 2 (drop 9 (strftime_stamp t))) = hour t \<and>
      digits_value (take 2 (drop 11 (strftime_stamp t))) = minute t \<and>
      digits_value (drop 13 (strftime_stamp t)) = second t) \<and>
   user_filename env v (t\<lparr>microsecond := m\<rparr>) = user_filename env v t \<and>
   (in_range t1 \<and> in_range t2 \<longrightarrow>
      (user_filename env v t1 = user_filename env v t2) =
      (year t1 = year t2 \<and> month t1 = month t2 \<and> day t1 = day t2 \<and> hour t1 = hour t2 \<and>
       minute t1 = minute t2 \<and> second t1 = second t2)) \<and>
   (run_etl_pipeline env self p w0 = (Inr (Some loaded), w1) \<longrightarrow>
      (\<exists>evs. w1 = w0 @ evs \<and>
         (\<forall>x\<in>set (written evs). fst x = ''etl_report.json'' \<or>
            (\<exists>i k. getitem (snd x) ''id'' = Inr i \<and>
               fst x = ''user_updates/user_'' @ py_str (repr env) i @ ''_''
                 @ strftime_stamp (datetime_now env k) @ ''.json''))))"
proof (intro conjI impI)
  assume a: "save_user_update env user w = (r, w') \<and> map_of user ''id'' = Some v"
  then have s: "save_user_update env user w = (r, w')" and i: "map_of user ''id'' = Some v"
    by simp_all
  from save_user_update_events [OF s i] obtain x y z where
    e: "prefix w' (w @
     [Now, Makedirs ''user_updates'' x,
      OpenW (user_filename env v (datetime_now env (length w))) y,
      Dump (user_filename env v (datetime_now env (length w))) (PDict user) z])"
     "r = Inr () \<longrightarrow> x = None \<and> y = None \<and> z = None \<and> w' = w @
     [Now, Makedirs ''user_updates'' x,
      OpenW (user_filename env v (datetime_now env (length w))) y,
      Dump (user_filename env v (datetime_now env (length w))) (PDict user) z]"
    by (elim exE conjE)
  from e(2) have "r = Inr () \<longrightarrow> w' = w @
     [Now, Makedirs ''user_updates'' None,
      OpenW (user_filename env v (datetime_now env (length w))) None,
      Dump (user_filename env v (datetime_now env (length w))) (PDict user) None]"
    by blast
  with e(1) show "\<exists>x y z. prefix w' (w @
          [Now, Makedirs ''user_updates'' x, OpenW (''user_updates/user_'' @ py_str (repr env) v @ ''_'' @ strftime_stamp (datetime_now env (length w)) @ ''.json'') y, Dump (''user_updates/user_'' @ py_str (repr env) v @ ''_'' @ strftime_stamp (datetime_now env (length w)) @ ''.json'') (PDict user) z]) \<and>
         (r = Inr () \<longrightarrow> w' = w @
          [Now, Makedirs ''user_updates'' None, OpenW (''user_updates/user_'' @ py_str (repr env) v @ ''_'' @ strftime_stamp (datetime_now env (length w)) @ ''.json'') None, Dump (''user_updates/user_'' @ py_str (repr env) v @ ''_'' @ strftime_stamp (datetime_now env (length w)) @ ''.json'') (PDict user) None])"
    unfolding user_filename_def by (intro exI [of _ x] exI [of _ y] exI [of _ z] conjI)
next
  show "user_filename env v t = ''user_updates/user_'' @ py_str (repr env) v @ ''_'' @ strftime_stamp t @ ''.json''"
    by (simp add: user_filename_def)
next
  assume "in_range t"
  from strftime_stamp_fields [OF this]
  show "length (strftime_stamp t) = 15" "strftime_stamp t ! 8 = CHR ''_''"
      "digits_value (take 4 (strftime_stamp t)) = year t"
      "digits_value (take 2 (drop 4 (strftime_stamp t))) = month t"
      "digits_value (take 2 (drop 6 (strftime_stamp t))) = day t"
      "digits_value (take 2 (drop 9 (strftime_stamp t))) = hour t"
      "digits_value (take 2 (drop 11 (strftime_stamp t))) = minute t"
      "digits_value (drop 13 (strftime_stamp t)) = second t"
    by this+
next
  show "user_filename env v (t\<lparr>microsecond := m\<rparr>) = user_filename env v t"
    by (simp add: user_filename_def strftime_stamp_def)
next
  assume "in_range t1 \<and> in_range t2"
  then show "(user_filename env v t1 = user_filename env v t2) =
      (year t1 = year t2 \<and> month t1 = month t2 \<and> day t1 = day t2 \<and> hour t1 = hour t2 \<and>
       minute t1 = minute t2 \<and> second t1 = second t2)"
    by (simp add: user_filename_eq strftime_stamp_eq)
next
  assume "run_etl_pipeline env self p w0 = (Inr (Some loaded), w1)"
  from run_paths [OF this] obtain evs where
    "w1 = w0 @ evs" "\<forall>x\<in>set (written evs). fst x = ''etl_report.json'' \<or>
        (\<exists>v t. getitem (snd x) ''id'' = Inr v \<and> fst x = user_filename env v (datetime_now env t))"
    by (elim exE conjE)
  then show "\<exists>evs. w1 = w0 @ evs \<and>
         (\<forall>x\<in>set (written evs). fst x = ''etl_report.json'' \<or>
            (\<exists>i k. getitem (snd x) ''id'' = Inr i \<and>
               fst x = ''user_updates/user_'' @ py_str (repr env) i @ ''_''
                 @ strftime_stamp (datetime_now env k) @ ''.json''))"
    unfolding user_filename_def by (intro exI [of _ evs] conjI)
qed

theorem save_user_update_path_witness:
  "save_user_update demo_env demo_user [] =
     (Inr (), [Now, Makedirs ''user_updates'' None,
        OpenW ''user_updates/user_1_20250115_103000.json'' None,
        Dump ''user_updates/user_1_20250115_103000.json'' (PDict demo_user) None]) \<and>
   strftime_stamp \<lparr>year = 1999, month = 12, day = 31, hour = 23, minute = 59, second = 58,
     microsecond = 999999\<rparr> = ''19991231_235958'' \<and>
   user_filename demo_env (PInt 1) (datetime_now demo_env 5) =
     user_filename demo_env (PInt 1) (datetime_now demo_env 16) \<and>
   user_filename demo_env (PInt 1) (datetime_now demo_env 5) \<noteq>
     user_filename demo_env (PInt 1) ((datetime_now demo_env 16)\<lparr>second := 1\<rparr>) \<and>
   (\<exists>loaded w. run_etl_pipeline demo_env (init ''key'') ''SDW2023.csv'' [] = (Inr (Some loaded), w) \<and>
      map fst (written w) = [''user_updates/user_1_20250115_103000.json'',
                             ''user_updates/user_2_20250115_103000.json'',
                             ''etl_report.json''] \<and>
      list_all (\<lambda>x. fst x = ''etl_report.json'' \<or>
            (\<exists>i k. getitem (snd x) ''id'' = Inr i \<and>
               fst x = ''user_updates/user_'' @ py_str (repr demo_env) i @ ''_''
                 @ strftime_stamp (datetime_now demo_env k) @ ''.json'')) (written w))"
proof -
  note main = save_user_update_path
  have i: "map_of demo_user ''id'' = Some (PInt 1)"
    by (simp add: demo_user_def)
  have ok: "fst (save_user_update demo_env demo_user []) = Inr ()"
    by (simp add: save_user_update_def write_json_def demo_env_def demo_user_def Let_def)
  obtain w' where s: "save_user_update demo_env demo_user [] = (Inr (), w')"
    using ok by (cases "save_user_update demo_env demo_user []") simp
  have now: "datetime_now demo_env t =
      \<lparr>year = 2025, month = 1, day = 15, hour = 10, minute = 30, second = 0, microsecond = t\<rparr>" for t
    by (simp add: demo_env_def)
  have fn: "''user_updates/user_'' @ py_str (repr demo_env) (PInt 1) @ ''_''
      @ strftime_stamp (datetime_now demo_env (length ([] :: world))) @ ''.json'' =
      ''user_updates/user_1_20250115_103000.json''"
    unfolding now stamp_examples by (simp add: str_int_def str_nat_numeral)
  from main [where env = demo_env and user = demo_user and w = "[]" and r = "Inr ()"
      and w' = w' and v = "PInt 1", THEN conjunct1, rule_format, OF conjI, OF s i]
  have "w' = [] @ [Now, Makedirs ''user_updates'' None,
        OpenW (''user_updates/user_'' @ py_str (repr demo_env) (PInt 1) @ ''_''
          @ strftime_stamp (datetime_now demo_env (length ([] :: world))) @ ''.json'') None,
        Dump (''user_updates/user_'' @ py_str (repr demo_env) (PInt 1) @ ''_''
          @ strftime_stamp (datetime_now demo_env (length ([] :: world))) @ ''.json'')
          (PDict demo_user) None]"
    by (elim exE conjE) simp
  then have "w' = [Now, Makedirs ''user_updates'' None,
        OpenW ''user_updates/user_1_20250115_103000.json'' None,
        Dump ''user_updates/user_1_20250115_103000.json'' (PDict demo_user) None]"
    unfolding fn by simp
  with s have a: "save_user_update demo_env demo_user [] =
     (Inr (), [Now, Makedirs ''user_updates'' None,
        OpenW ''user_updates/user_1_20250115_103000.json'' None,
        Dump ''user_updates/user_1_20250115_103000.json'' (PDict demo_user) None])"
    by simp
  have b: "strftime_stamp \<lparr>year = 1999, month = 12, day = 31, hour = 23, minute = 59, second = 58,
     microsecond = 999999\<rparr> = ''19991231_235958''"
    by (rule stamp_examples)
  have r: "in_range (datetime_now demo_env t)" "in_range ((datetime_now demo_env t)\<lparr>second := 1\<rparr>)" for t
    by (simp_all add: now in_range_def)
  from main [where env = demo_env and v = "PInt 1" and ?t1.0 = "datetime_now demo_env 5"
      and ?t2.0 = "datetime_now demo_env 16",
      THEN conjunct2, THEN conjunct2, THEN conjunct2, THEN conjunct2, THEN conjunct1,
      rule_format, OF conjI, OF r(1) r(1)]
  have c: "user_filename demo_env (PInt 1) (datetime_now demo_env 5) =
     user_filename demo_env (PInt 1) (datetime_now demo_env 16)"
    by (simp add: now)
  from main [where env = demo_env and v = "PInt 1" and ?t1.0 = "datetime_now demo_env 5"
      and ?t2.0 = "(datetime_now demo_env 16)\<lparr>second := 1\<rparr>",
      THEN conjunct2, THEN conjunct2, THEN conjunct2, THEN conjunct2, THEN conjunct1,
      rule_format, OF conjI, OF r(1) r(2)]
  have d: "user_filename demo_env (PInt 1) (datetime_now demo_env 5) \<noteq>
     user_filename demo_env (PInt 1) ((datetime_now demo_env 16)\<lparr>second := 1\<rparr>)"
    by (simp add: now)
  from demo_run_facts obtain loaded w where
    run: "run_etl_pipeline demo_env (init ''key'') ''SDW2023.csv'' [] = (Inr (Some loaded), w)" and
    paths: "map fst (written w) = [''user_updates/user_1_20250115_103000.json'',
                             ''user_updates/user_2_20250115_103000.json'',
                             ''etl_report.json'']"
    by (elim exE conjE)
  from main [where env = demo_env and self = "init ''key''" and p = "''SDW2023.csv''"
      and ?w0.0 = "[]" and loaded = loaded and ?w1.0 = w,
      THEN conjunct2, THEN conjunct2, THEN conjunct2, THEN conjunct2, THEN conjunct2,
      rule_format, OF run]
  have "list_all (\<lambda>x. fst x = ''etl_report.json'' \<or>
            (\<exists>i k. getitem (snd x) ''id'' = Inr i \<and>
               fst x = ''user_updates/user_'' @ py_str (repr demo_env) i @ ''_''
                 @ strftime_stamp (datetime_now demo_env k) @ ''.json'')) (written w)"
    unfolding list_all_iff by simp
  with run paths have e: "\<exists>loaded w. run_etl_pipeline demo_env (init ''key'') ''SDW2023.csv'' [] = (Inr (Some loaded), w) \<and>
      map fst (written w) = [''user_updates/user_1_20250115_103000.json'',
                             ''user_updates/user_2_20250115_103000.json'',
                             ''etl_report.json''] \<and>
      list_all (\<lambda>x. fst x = ''etl_report.json'' \<or>
            (\<exists>i k. getitem (snd x) ''id'' = Inr i \<and>
               fst x = ''user_updates/user_'' @ py_str (repr demo_env) i @ ''_''
                 @ strftime_stamp (datetime_now demo_env k) @ ''.json'')) (written w)"
    by (intro exI [of _ loaded] exI [of _ w] conjI)
  from a b c d e show ?thesis by (intro conjI)
qed

text \<open>
  C9 as the specification has it does not hold: the name of a file has the clock reading
  to the second only, so a second run of the pipeline that saves the same user within the
  same second writes the file of the first run again. Here the clock advances by a
  microsecond at every interaction, the second run starts where the first one ended, and
  both write \<^verbatim>\<open>user_updates/user_1_20250115_103000.json\<close>.
\<close>

theorem repeated_runs_same_file:
  "written_paths (snd (run_etl_pipeline demo_env (init ''key'') ''one.csv'' [])) =
     [''user_updates/user_1_20250115_103000.json'', ''etl_report.json''] \<and>
   written_paths (snd (run_etl_pipeline demo_env (init ''key'') ''one.csv''
      (snd (run_etl_pipeline demo_env (init ''key'') ''one.csv'' [])))) =
     [''user_updates/user_1_20250115_103000.json'', ''etl_report.json'',
      ''user_updates/user_1_20250115_103000.json'', ''etl_report.json'']"
  by code_simp

section \<open>Properties of the fetch\<close>




section \<open>Properties of the orchestration\<close>




section \<open>Properties of the order of processing\<close>




end
